theory Spec2Isabelle
  imports Main "HOL-Library.Word"
begin

section \<open>JavaScript strings\<close>

text \<open>
  A JavaScript string is a sequence of UTF-16 code units. The literals of
  \<^verbatim>\<open>script.js\<close> are written with \<open>str\<close> where they are ASCII and with
  explicit code units where they are not (\<open>0xE1\<close> is a-acute, and so on).
\<close>

type_synonym jschar = "16 word"
type_synonym jsstring = "jschar list"

definition str :: "string \<Rightarrow> jsstring" where
  "str s = map of_char s"

text \<open>
  \<^verbatim>\<open>String.prototype.trim\<close> removes the code units of the ECMAScript productions
  WhiteSpace and LineTerminator from both ends.
\<close>

definition isWhiteSpace :: "jschar \<Rightarrow> bool" where
  "isWhiteSpace c \<longleftrightarrow>
     c = 0x0009 \<or> c = 0x000A \<or> c = 0x000B \<or> c = 0x000C \<or> c = 0x000D \<or> c = 0x0020 \<or>
     c = 0x00A0 \<or> c = 0x1680 \<or> (0x2000 \<le> c \<and> c \<le> 0x200A) \<or> c = 0x2028 \<or>
     c = 0x2029 \<or> c = 0x202F \<or> c = 0x205F \<or> c = 0x3000 \<or> c = 0xFEFF"

definition trim :: "jsstring \<Rightarrow> jsstring" where
  "trim s = rev (dropWhile isWhiteSpace (rev (dropWhile isWhiteSpace s)))"

text \<open>
  \<^verbatim>\<open>text.split(/[,\n]/)\<close>: the separator is a one-character class, so the
  string is cut at every separator and the pieces, empty ones included, are
  returned in order; the empty string gives one empty piece.
\<close>

fun split_on :: "(jschar \<Rightarrow> bool) \<Rightarrow> jsstring \<Rightarrow> jsstring list" where
  "split_on p [] = [[]]"
| "split_on p (c # cs) =
     (if p c then [] # split_on p cs
      else (case split_on p cs of w # ws \<Rightarrow> (c # w) # ws | [] \<Rightarrow> [[c]]))"

definition isSeparator :: "jschar \<Rightarrow> bool" where
  "isSeparator c \<longleftrightarrow> c = 0x002C \<or> c = 0x000A"

text \<open>
  \<^verbatim>\<open>parseDocumentUrls()\<close>, on the value \<open>v\<close> of the \<^verbatim>\<open>document-urls\<close> field:
  \<^verbatim>\<open>
    const text = v.trim();
    if (!text) return [];
    return text.split(/[,\n]/).map(url => url.trim()).filter(url => url.length > 0);
  \<close>
\<close>

definition parseDocumentUrls :: "jsstring \<Rightarrow> jsstring list" where
  "parseDocumentUrls v =
     (let text = trim v in
      if text = [] then []
      else filter (\<lambda>url. length url > 0) (map trim (split_on isSeparator text)))"

section \<open>JSON values and objects\<close>

text \<open>
  What \<^verbatim>\<open>response.json()\<close> delivers and what the page stores: the values
  that \<^verbatim>\<open>JSON.parse\<close> builds. A finite number other than the negative zero
  is held as the text that Number::toString gives for it (\<^verbatim>\<open>0\<close>, \<^verbatim>\<open>-12\<close>,
  \<^verbatim>\<open>0.5\<close>, \<^verbatim>\<open>1e+21\<close>): two numbers are equal exactly when their texts
  are, the page converts a number to a string wherever it shows one, and by
  the ECMAScript specification the text read back as a number is the number
  itself. \<open>JNegZero\<close> is the negative zero, the value of the literal \<^verbatim>\<open>-0\<close>,
  whose text is \<^verbatim>\<open>0\<close>. \<open>JInfinity\<close> is the value of a number literal beyond
  the range of the doubles (\<^verbatim>\<open>1e999\<close>), with \<open>True\<close> for the negative one.
  An object is its list of properties in the order of its keys, which are
  distinct; \<open>None\<close> is \<^verbatim>\<open>undefined\<close>.
\<close>

datatype json =
    JNull
  | JBool bool
  | JNum jsstring
  | JNegZero
  | JInfinity bool
  | JStr jsstring
  | JArr "json list"
  | JObj "(jsstring \<times> json) list"

type_synonym jsobject = "(jsstring \<times> json) list"

text \<open>\<^verbatim>\<open>obj.k\<close> on an object.\<close>

definition getProp :: "jsobject \<Rightarrow> string \<Rightarrow> json option" where
  "getProp obj k = map_of obj (str k)"

text \<open>\<^verbatim>\<open>v.k\<close> on a value that is not null: only an object has the properties read here.\<close>

fun member :: "json \<Rightarrow> string \<Rightarrow> json option" where
  "member (JObj kvs) k = map_of kvs (str k)"
| "member _ k = None"

text \<open>ToBoolean.\<close>

fun truthy :: "json option \<Rightarrow> bool" where
  "truthy None = False"
| "truthy (Some JNull) = False"
| "truthy (Some (JBool b)) = b"
| "truthy (Some (JNum t)) = (t \<noteq> str ''0'')"
| "truthy (Some JNegZero) = False"
| "truthy (Some (JInfinity b)) = True"
| "truthy (Some (JStr s)) = (s \<noteq> [])"
| "truthy (Some (JArr _)) = True"
| "truthy (Some (JObj _)) = True"

text \<open>\<^verbatim>\<open>v || 'text'\<close> and \<^verbatim>\<open>v || {}\<close>.\<close>

definition orElse :: "json option \<Rightarrow> json \<Rightarrow> json" where
  "orElse v d = (if truthy v then the v else d)"

text \<open>
  The properties of a value that is not null, as the page reads them: a value
  that is no object has none of the properties read here.
\<close>

fun propriedades :: "json \<Rightarrow> jsobject" where
  "propriedades (JObj kvs) = kvs"
| "propriedades _ = []"

text \<open>The elements of a stored value that is an array.\<close>

fun itens :: "json option \<Rightarrow> json list" where
  "itens (Some (JArr vs)) = vs"
| "itens _ = []"

text \<open>
  ToString, as a template and \<^verbatim>\<open>new Error(v)\<close> apply it: an array is its
  elements joined by commas, with nothing for a null one, and an object is
  \<^verbatim>\<open>[object Object]\<close>. The conversion throws a TypeError on an object that
  has a property \<^verbatim>\<open>toString\<close> of its own (no value of a JSON text can be
  called), and on an array that holds such an object.
\<close>

fun naoConverte :: "json \<Rightarrow> bool"
  and algumNaoConverte :: "json list \<Rightarrow> bool" where
  "naoConverte (JObj kvs) = (map_of kvs (str ''toString'') \<noteq> None)"
| "naoConverte (JArr vs) = algumNaoConverte vs"
| "naoConverte JNull = False"
| "naoConverte (JBool b) = False"
| "naoConverte (JNum t) = False"
| "naoConverte JNegZero = False"
| "naoConverte (JInfinity b) = False"
| "naoConverte (JStr t) = False"
| "algumNaoConverte [] = False"
| "algumNaoConverte (v # vs) = (naoConverte v \<or> algumNaoConverte vs)"

fun toStringJs :: "json \<Rightarrow> jsstring"
  and joinJs :: "json list \<Rightarrow> jsstring" where
  "toStringJs JNull = str ''null''"
| "toStringJs (JBool b) = (if b then str ''true'' else str ''false'')"
| "toStringJs (JNum t) = t"
| "toStringJs JNegZero = str ''0''"
| "toStringJs (JInfinity b) = (if b then str ''-Infinity'' else str ''Infinity'')"
| "toStringJs (JStr s) = s"
| "toStringJs (JArr vs) = joinJs vs"
| "toStringJs (JObj kvs) = str ''[object Object]''"
| "joinJs [] = []"
| "joinJs (v # vs) =
     (if v = JNull then [] else toStringJs v) @ (if vs = [] then [] else 0x2C # joinJs vs)"

section \<open>\<^verbatim>\<open>JSON.stringify\<close> and \<^verbatim>\<open>JSON.parse\<close>\<close>

text \<open>
  The two functions of the language, after the ECMAScript specification, on the
  values above. \<^verbatim>\<open>downloadRelatorio\<close> calls \<^verbatim>\<open>JSON.stringify(relatorio, null, 2)\<close>:
  the text is indented by two blanks per level.

  Number::toString of the length of an array (a natural number below
  \<^verbatim>\<open>2^32\<close>): its decimal digits.
\<close>

fun digits :: "nat \<Rightarrow> jsstring" where
  "digits n = (if n < 10 then [0x30 + of_nat n] else digits (n div 10) @ [0x30 + of_nat (n mod 10)])"

declare digits.simps [simp del]

text \<open>
  QuoteJSONString: the two-character escapes, \<^verbatim>\<open>\uXXXX\<close> in lower-case
  hexadecimal for the other control characters and for a surrogate without
  its partner, and every other code unit as it is.
\<close>

definition hexDigit :: "jschar \<Rightarrow> jschar" where
  "hexDigit d = (if d < 10 then 0x30 + d else 0x57 + d)"

definition unicodeEscape :: "jschar \<Rightarrow> jsstring" where
  "unicodeEscape c =
     [0x5C, 0x75, hexDigit (c div 0x1000), hexDigit (c div 0x100 mod 0x10),
      hexDigit (c div 0x10 mod 0x10), hexDigit (c mod 0x10)]"

definition isLeadingSurrogate :: "jschar \<Rightarrow> bool" where
  "isLeadingSurrogate c \<longleftrightarrow> 0xD800 \<le> c \<and> c \<le> 0xDBFF"

definition isTrailingSurrogate :: "jschar \<Rightarrow> bool" where
  "isTrailingSurrogate c \<longleftrightarrow> 0xDC00 \<le> c \<and> c \<le> 0xDFFF"

definition quoteUnit :: "jschar \<Rightarrow> jsstring" where
  "quoteUnit c =
     (if c = 0x08 then [0x5C, 0x62]
      else if c = 0x09 then [0x5C, 0x74]
      else if c = 0x0A then [0x5C, 0x6E]
      else if c = 0x0C then [0x5C, 0x66]
      else if c = 0x0D then [0x5C, 0x72]
      else if c = 0x22 then [0x5C, 0x22]
      else if c = 0x5C then [0x5C, 0x5C]
      else if c < 0x20 \<or> isLeadingSurrogate c \<or> isTrailingSurrogate c then unicodeEscape c
      else [c])"

fun quoteChars :: "jsstring \<Rightarrow> jsstring" where
  "quoteChars [] = []"
| "quoteChars [c] = quoteUnit c"
| "quoteChars (c # d # cs) =
     (if isLeadingSurrogate c \<and> isTrailingSurrogate d then c # d # quoteChars cs
      else quoteUnit c @ quoteChars (d # cs))"

definition QuoteJSONString :: "jsstring \<Rightarrow> jsstring" where
  "QuoteJSONString s = 0x22 # quoteChars s @ [0x22]"

text \<open>
  SerializeJSONProperty with the gap of two blanks: an empty array is
  \<^verbatim>\<open>[]\<close> and an empty object \<^verbatim>\<open>{}\<close>; otherwise each element or member is
  on a line of its own, indented one level deeper, the members as
  \<^verbatim>\<open>"key": value\<close>, and the closing bracket on a line of its own. A finite
  number is written as its text (the negative zero as \<^verbatim>\<open>0\<close>), an infinite
  one as \<^verbatim>\<open>null\<close>.
\<close>

definition indent :: "nat \<Rightarrow> jsstring" where
  "indent k = replicate (2 * k) 0x20"

fun ser :: "nat \<Rightarrow> json \<Rightarrow> jsstring"
  and serElems :: "nat \<Rightarrow> json list \<Rightarrow> jsstring"
  and serMembers :: "nat \<Rightarrow> (jsstring \<times> json) list \<Rightarrow> jsstring" where
  "ser k JNull = str ''null''"
| "ser k (JBool b) = (if b then str ''true'' else str ''false'')"
| "ser k (JNum t) = t"
| "ser k JNegZero = str ''0''"
| "ser k (JInfinity b) = str ''null''"
| "ser k (JStr s) = QuoteJSONString s"
| "ser k (JArr vs) =
     (if vs = [] then str ''[]''
      else 0x5B # 0x0A # indent (Suc k) @ serElems (Suc k) vs @ 0x0A # indent k @ [0x5D])"
| "ser k (JObj kvs) =
     (if kvs = [] then str ''{}''
      else 0x7B # 0x0A # indent (Suc k) @ serMembers (Suc k) kvs @ 0x0A # indent k @ [0x7D])"
| "serElems k [] = []"
| "serElems k (v # vs) =
     (if vs = [] then ser k v else ser k v @ 0x2C # 0x0A # indent k @ serElems k vs)"
| "serMembers k [] = []"
| "serMembers k ((key, v) # kvs) =
     (if kvs = [] then QuoteJSONString key @ 0x3A # 0x20 # ser k v
      else QuoteJSONString key @ 0x3A # 0x20 # ser k v @ 0x2C # 0x0A # indent k @ serMembers k kvs)"

definition JSON_stringify :: "json \<Rightarrow> jsstring" where
  "JSON_stringify v = ser 0 v"

text \<open>
  The JSON grammar that \<^verbatim>\<open>JSON.parse\<close> accepts: white space is blank, tab,
  line feed and carriage return; a string has no raw control character and
  the escapes \<^verbatim>\<open>\" \\ \/ \b \f \n \r \t \uXXXX\<close>; a number is an optional
  minus sign, digits without a leading zero, an optional fraction (a point
  and digits) and an optional exponent (\<^verbatim>\<open>e\<close> or \<^verbatim>\<open>E\<close>, an optional sign and
  digits).
\<close>

definition isJsonWs :: "jschar \<Rightarrow> bool" where
  "isJsonWs c \<longleftrightarrow> c = 0x20 \<or> c = 0x09 \<or> c = 0x0A \<or> c = 0x0D"

definition isDigit :: "jschar \<Rightarrow> bool" where
  "isDigit c \<longleftrightarrow> 0x30 \<le> c \<and> c \<le> 0x39"

definition hexValue :: "jschar \<Rightarrow> jschar option" where
  "hexValue c =
     (if 0x30 \<le> c \<and> c \<le> 0x39 then Some (c - 0x30)
      else if 0x61 \<le> c \<and> c \<le> 0x66 then Some (c - 0x57)
      else if 0x41 \<le> c \<and> c \<le> 0x46 then Some (c - 0x37)
      else None)"

definition unescape :: "jschar \<Rightarrow> jschar option" where
  "unescape e =
     (if e = 0x22 then Some 0x22
      else if e = 0x5C then Some 0x5C
      else if e = 0x2F then Some 0x2F
      else if e = 0x62 then Some 0x08
      else if e = 0x66 then Some 0x0C
      else if e = 0x6E then Some 0x0A
      else if e = 0x72 then Some 0x0D
      else if e = 0x74 then Some 0x09
      else None)"

fun parseChars :: "jsstring \<Rightarrow> (jsstring \<times> jsstring) option" where
  "parseChars [] = None"
| "parseChars (c # cs) =
     (if c = 0x22 then Some ([], cs)
      else if c = 0x5C then
        (case cs of
           [] \<Rightarrow> None
         | e # es \<Rightarrow>
             if e = 0x75 then
               (case es of
                  h3 # h2 # h1 # h0 # r \<Rightarrow>
                    (case (hexValue h3, hexValue h2, hexValue h1, hexValue h0) of
                       (Some a, Some b, Some c', Some d) \<Rightarrow>
                         (case parseChars r of
                            None \<Rightarrow> None
                          | Some (x, r') \<Rightarrow> Some ((((a * 16 + b) * 16 + c') * 16 + d) # x, r'))
                     | _ \<Rightarrow> None)
                | _ \<Rightarrow> None)
             else
               (case unescape e of
                  None \<Rightarrow> None
                | Some u \<Rightarrow>
                    (case parseChars es of
                       None \<Rightarrow> None
                     | Some (x, r') \<Rightarrow> Some (u # x, r'))))
      else if c < 0x20 then None
      else (case parseChars cs of None \<Rightarrow> None | Some (x, r') \<Rightarrow> Some (c # x, r')))"

definition isNumberChar :: "jschar \<Rightarrow> bool" where
  "isNumberChar c \<longleftrightarrow>
     isDigit c \<or> c = 0x2D \<or> c = 0x2B \<or> c = 0x2E \<or> c = 0x65 \<or> c = 0x45"

definition validInt :: "jsstring \<Rightarrow> bool" where
  "validInt ds \<longleftrightarrow> ds \<noteq> [] \<and> list_all isDigit ds \<and> (if hd ds = 0x30 then length ds = 1 else True)"

definition validFrac :: "jsstring \<Rightarrow> bool" where
  "validFrac fs \<longleftrightarrow> fs = [] \<or> (hd fs = 0x2E \<and> tl fs \<noteq> [] \<and> list_all isDigit (tl fs))"

definition validExp :: "jsstring \<Rightarrow> bool" where
  "validExp es \<longleftrightarrow>
     es = [] \<or>
     ((hd es = 0x65 \<or> hd es = 0x45) \<and>
      (let r = tl es;
           ds = (if r \<noteq> [] \<and> (hd r = 0x2B \<or> hd r = 0x2D) then tl r else r)
       in ds \<noteq> [] \<and> list_all isDigit ds))"

definition validNumber :: "jsstring \<Rightarrow> bool" where
  "validNumber t \<longleftrightarrow>
     (let u = (if t \<noteq> [] \<and> hd t = 0x2D then tl t else t);
          ip = takeWhile isDigit u;
          r = dropWhile isDigit u;
          fp = (if r \<noteq> [] \<and> hd r = 0x2E then 0x2E # takeWhile isDigit (tl r) else []);
          ep = drop (length fp) r
      in validInt ip \<and> validFrac fp \<and> validExp ep)"

text \<open>
  A number token is the longest run of the characters a number is written
  with (no other character of these can follow a number in a JSON text), and
  it has to follow the grammar. The value is the number with the token as its
  text: this is the number the token denotes when the token is the text of a
  number, as it is in every text that \<^verbatim>\<open>JSON.stringify\<close> writes.
\<close>

definition parseNumber :: "jsstring \<Rightarrow> (jsstring \<times> jsstring) option" where
  "parseNumber s =
     (let t = takeWhile isNumberChar s in
      if validNumber t then Some (t, dropWhile isNumberChar s) else None)"

text \<open>
  Values, the elements of an array after its opening bracket, and the members
  of an object after its opening brace. The first argument bounds the depth
  of the calls; each call consumes a character, so the length of the text is
  enough. An object is built with its members in the order of the text.
\<close>

fun parseValue :: "nat \<Rightarrow> jsstring \<Rightarrow> (json \<times> jsstring) option"
  and parseElements :: "nat \<Rightarrow> jsstring \<Rightarrow> (json list \<times> jsstring) option"
  and parseMembers :: "nat \<Rightarrow> jsstring \<Rightarrow> ((jsstring \<times> json) list \<times> jsstring) option" where
  "parseValue 0 s = None"
| "parseValue (Suc n) s =
     (case dropWhile isJsonWs s of
        [] \<Rightarrow> None
      | c # cs \<Rightarrow>
          if c = 0x6E then (if take 3 cs = str ''ull'' then Some (JNull, drop 3 cs) else None)
          else if c = 0x74 then (if take 3 cs = str ''rue'' then Some (JBool True, drop 3 cs) else None)
          else if c = 0x66 then (if take 4 cs = str ''alse'' then Some (JBool False, drop 4 cs) else None)
          else if c = 0x22 then
            (case parseChars cs of None \<Rightarrow> None | Some (x, r) \<Rightarrow> Some (JStr x, r))
          else if c = 0x5B then
            (case dropWhile isJsonWs cs of
               [] \<Rightarrow> None
             | d # ds \<Rightarrow>
                 if d = 0x5D then Some (JArr [], ds)
                 else (case parseElements n (d # ds) of
                         None \<Rightarrow> None
                       | Some (vs, r) \<Rightarrow> Some (JArr vs, r)))
          else if c = 0x7B then
            (case dropWhile isJsonWs cs of
               [] \<Rightarrow> None
             | d # ds \<Rightarrow>
                 if d = 0x7D then Some (JObj [], ds)
                 else (case parseMembers n (d # ds) of
                         None \<Rightarrow> None
                       | Some (kvs, r) \<Rightarrow> Some (JObj kvs, r)))
          else (case parseNumber (c # cs) of None \<Rightarrow> None | Some (t, r) \<Rightarrow> Some (JNum t, r)))"
| "parseElements 0 s = None"
| "parseElements (Suc n) s =
     (case parseValue n s of
        None \<Rightarrow> None
      | Some (v, r) \<Rightarrow>
          (case dropWhile isJsonWs r of
             [] \<Rightarrow> None
           | c # cs \<Rightarrow>
               if c = 0x2C then
                 (case parseElements n cs of
                    None \<Rightarrow> None
                  | Some (vs, r') \<Rightarrow> Some (v # vs, r'))
               else if c = 0x5D then Some ([v], cs)
               else None))"
| "parseMembers 0 s = None"
| "parseMembers (Suc n) s =
     (case dropWhile isJsonWs s of
        [] \<Rightarrow> None
      | q # cs \<Rightarrow>
          if q \<noteq> 0x22 then None
          else
            (case parseChars cs of
               None \<Rightarrow> None
             | Some (key, r) \<Rightarrow>
                 (case dropWhile isJsonWs r of
                    [] \<Rightarrow> None
                  | c # cs' \<Rightarrow>
                      if c \<noteq> 0x3A then None
                      else
                        (case parseValue n cs' of
                           None \<Rightarrow> None
                         | Some (v, r2) \<Rightarrow>
                             (case dropWhile isJsonWs r2 of
                                [] \<Rightarrow> None
                              | e # es \<Rightarrow>
                                  if e = 0x2C then
                                    (case parseMembers n es of
                                       None \<Rightarrow> None
                                     | Some (kvs, r3) \<Rightarrow> Some ((key, v) # kvs, r3))
                                  else if e = 0x7D then Some ([(key, v)], es)
                                  else None)))))"

definition JSON_parse :: "jsstring \<Rightarrow> json option" where
  "JSON_parse s =
     (case parseValue (Suc (length s)) s of
        None \<Rightarrow> None
      | Some (v, r) \<Rightarrow> if dropWhile isJsonWs r = [] then Some v else None)"

text \<open>
  The values in which every number is finite and none is the negative zero
  (each number held as a text of the number grammar, as the text of a number
  is): the values that \<^verbatim>\<open>JSON.stringify\<close> writes without a loss.
\<close>

fun numerosExatos :: "json \<Rightarrow> bool"
  and elementosExatos :: "json list \<Rightarrow> bool"
  and membrosExatos :: "(jsstring \<times> json) list \<Rightarrow> bool" where
  "numerosExatos JNull = True"
| "numerosExatos (JBool b) = True"
| "numerosExatos (JNum t) = validNumber t"
| "numerosExatos JNegZero = False"
| "numerosExatos (JInfinity b) = False"
| "numerosExatos (JStr s) = True"
| "numerosExatos (JArr vs) = elementosExatos vs"
| "numerosExatos (JObj kvs) = membrosExatos kvs"
| "elementosExatos [] = True"
| "elementosExatos (v # vs) = (numerosExatos v \<and> elementosExatos vs)"
| "membrosExatos [] = True"
| "membrosExatos ((key, v) # kvs) = (numerosExatos v \<and> membrosExatos kvs)"

text \<open>
  For the proofs: what may follow a number in a text, the depth of calls that
  parsing a value needs, and the characters a value's text can start with.
\<close>

definition okRest :: "jsstring \<Rightarrow> bool" where
  "okRest r \<longleftrightarrow> r = [] \<or> \<not> isNumberChar (hd r)"

fun cost :: "json \<Rightarrow> nat"
  and costElems :: "json list \<Rightarrow> nat"
  and costMembers :: "(jsstring \<times> json) list \<Rightarrow> nat" where
  "cost JNull = 1"
| "cost (JBool b) = 1"
| "cost (JNum t) = 1"
| "cost JNegZero = 1"
| "cost (JInfinity b) = 1"
| "cost (JStr s) = 1"
| "cost (JArr vs) = Suc (costElems vs)"
| "cost (JObj kvs) = Suc (costMembers kvs)"
| "costElems [] = 0"
| "costElems (v # vs) = Suc (max (cost v) (costElems vs))"
| "costMembers [] = 0"
| "costMembers ((key, v) # kvs) = Suc (max (cost v) (costMembers kvs))"

definition startsValue :: "jschar \<Rightarrow> bool" where
  "startsValue c \<longleftrightarrow>
     c = 0x6E \<or> c = 0x74 \<or> c = 0x66 \<or> c = 0x22 \<or> c = 0x5B \<or> c = 0x7B \<or> c = 0x2D \<or> isDigit c"

section \<open>The page: state, effects and the answers of the two endpoints\<close>

record log_entry =
  className :: jsstring
  message :: jsstring

datatype conteudo =
    ErroAlerta json
  | Tabelas "json list" "json list" "(jsstring \<times> jsstring) list"

record card =
  statusClass :: jsstring
  statusIcon :: jsstring
  statusText :: jsstring
  numero :: nat
  url :: "json option"
  corpo :: conteudo

record painel =
  estatisticas :: "nat \<times> nat \<times> nat"
  cards :: "card list"

datatype mensagem =
    Texto jsstring
  | Carregada "json option" "json option" "json option" "json option"

text \<open>
  The fields \<open>planilhaData\<close> and \<open>resultados\<close> of the class (the second
  one holds the empty array at first and then whatever the last successful
  answer carried as \<^verbatim>\<open>resultados\<close>, \<open>None\<close> when it carried nothing), and
  the parts of the document the methods read and write: the values of \<^verbatim>\<open>csv-url\<close> and
  \<^verbatim>\<open>document-urls\<close>, the \<^verbatim>\<open>disabled\<close> flags of the two buttons, the alert
  in \<^verbatim>\<open>status-planilha\<close>, whether the two sections are displayed, the width
  of the progress bar, the entries of \<^verbatim>\<open>log-processamento\<close> (without the clock
  prefix that \<^verbatim>\<open>addLog\<close> puts before each message) and the content of
  \<^verbatim>\<open>resultados-container\<close>: \<open>None\<close> when it is empty, and otherwise the
  three statistics and the cards that \<^verbatim>\<open>exibirResultados\<close> has appended to
  it, each card as the values that \<^verbatim>\<open>criarCardResultado\<close> puts into its
  template (the markup that the browser makes of the template is not
  followed). The captions of the buttons are left out.
\<close>

record validador =
  planilhaData :: json
  resultados :: "json option"
  csv_url :: jsstring
  document_urls :: jsstring
  iniciar_disabled :: bool
  carregar_disabled :: bool
  status_planilha :: "(jsstring \<times> mensagem) option"
  secao_progresso :: bool
  secao_resultados :: bool
  progress_bar :: nat
  log_processamento :: "log_entry list"
  resultados_container :: "painel option"

text \<open>
  What a method does outside the page: \<^verbatim>\<open>alert\<close>, \<^verbatim>\<open>fetch\<close> (the endpoint and
  the object whose JSON text is the body), \<^verbatim>\<open>console.error\<close>, the download
  of a file (its name and its text), and an exception that no handler
  catches (its message).
\<close>

datatype event =
    Alert jsstring
  | Fetch jsstring json
  | ConsoleError jsstring
  | Download jsstring jsstring
  | Uncaught jsstring

text \<open>
  How \<^verbatim>\<open>await fetch(...)\<close> followed by \<^verbatim>\<open>await response.json()\<close> ends: the first
  promise rejects, the second one does, or the data arrive. The strings are
  the \<^verbatim>\<open>message\<close> of the error thrown. The data of
  \<^verbatim>\<open>/api/processar-documentos\<close> are any JSON value; the ones of
  \<^verbatim>\<open>/api/carregar-planilha\<close> are read as the record \<open>carregar_data\<close>.
\<close>

datatype 'd fetched =
    FetchRejected jsstring
  | JsonRejected jsstring
  | Resolved 'd

record carregar_data =
  c_success :: bool
  c_planilha_data :: json
  c_dados :: "jsobject option"
  c_error :: "jsstring option"

text \<open>
  \<^verbatim>\<open>data.error || 'text'\<close>, as the argument of \<^verbatim>\<open>new Error\<close>: on the record
  and on a JSON value.
\<close>

definition errorOr :: "jsstring option \<Rightarrow> jsstring \<Rightarrow> jsstring" where
  "errorOr e d = (case e of None \<Rightarrow> d | Some m \<Rightarrow> if m = [] then d else m)"

text \<open>
  The messages of the TypeErrors that reading a property of \<^verbatim>\<open>null\<close> or
  \<^verbatim>\<open>undefined\<close>, calling what is no function and a failed conversion to a
  string throw; the wording is the engine's (here V8's).
\<close>

definition typeErrorRead :: "string \<Rightarrow> string \<Rightarrow> jsstring" where
  "typeErrorRead v p =
     str ''Cannot read properties of '' @ str v @ str '' (reading '' @ [0x27] @ str p @ [0x27] @
     str '')''"

definition typeErrorFilter :: jsstring where
  "typeErrorFilter = str ''this.resultados.filter is not a function''"

definition typeErrorConvert :: jsstring where
  "typeErrorConvert = str ''Cannot convert object to primitive value''"

text \<open>
  The message of the error that \<^verbatim>\<open>throw new Error(data.error || 'text')\<close>
  throws: the one of the \<^verbatim>\<open>Error\<close>, or of the TypeError when the conversion
  of \<^verbatim>\<open>data.error\<close> throws.
\<close>

definition mensagemErro :: "json option \<Rightarrow> jsstring \<Rightarrow> jsstring" where
  "mensagemErro e d =
     (if truthy e then (if naoConverte (the e) then typeErrorConvert else toStringJs (the e))
      else d)"

section \<open>The methods of \<^verbatim>\<open>ValidadorDocumentos\<close>\<close>

definition updateUI :: "validador \<Rightarrow> validador" where
  "updateUI s =
     s\<lparr>iniciar_disabled := (\<not> truthy (Some (planilhaData s)) \<or> trim (document_urls s) = [])\<rparr>"

definition addLog :: "jsstring \<Rightarrow> jsstring \<Rightarrow> validador \<Rightarrow> validador" where
  "addLog msg type s =
     s\<lparr>log_processamento := log_processamento s @
        [\<lparr>className =
            (if type = str ''danger'' then str ''text-danger''
             else if type = str ''success'' then str ''text-success''
             else str ''text-light''),
          message = msg\<rparr>]\<rparr>"

definition updateProgress :: "nat \<Rightarrow> jsstring \<Rightarrow> validador \<Rightarrow> validador" where
  "updateProgress percentage msg s =
     addLog msg (if percentage = 100 then str ''success'' else str ''info'')
       (s\<lparr>progress_bar := percentage\<rparr>)"

definition showAlert :: "jsstring \<Rightarrow> mensagem \<Rightarrow> validador \<Rightarrow> validador" where
  "showAlert type msg s = s\<lparr>status_planilha := Some (type, msg)\<rparr>"

text \<open>The status strings the page compares with, and the counting filters.\<close>

definition hasStatus :: "string \<Rightarrow> jsobject \<Rightarrow> bool" where
  "hasStatus k r \<longleftrightarrow> getProp r ''status'' = Some (JStr (str k))"

definition contar :: "string \<Rightarrow> jsobject list \<Rightarrow> nat" where
  "contar k rs = length (filter (hasStatus k) rs)"

definition criarItemValidacao :: "json option \<Rightarrow> jsstring \<times> jsstring" where
  "criarItemValidacao status =
     (if truthy status then (str ''fa-check text-success'', str ''V'' @ [0xE1] @ str ''lido'')
      else (str ''fa-times text-danger'', str ''Inv'' @ [0xE1] @ str ''lido''))"

definition naoEncontrado :: json where
  "naoEncontrado = JStr (str ''N'' @ [0xE3] @ str ''o encontrado'')"

definition naoEncontrada :: json where
  "naoEncontrada = JStr (str ''N'' @ [0xE3] @ str ''o encontrada'')"

definition naoConsultado :: json where
  "naoConsultado = JStr (str ''N'' @ [0xE3] @ str ''o consultado'')"

text \<open>
  \<^verbatim>\<open>criarCardResultado(resultado, numero)\<close> on the properties of a result: the
  values it computes for its template.
\<close>

definition criarCardResultado :: "jsobject \<Rightarrow> nat \<Rightarrow> card" where
  "criarCardResultado resultado n =
     \<lparr>statusClass =
        (if hasStatus ''valido'' resultado then str ''valido''
         else if hasStatus ''invalido'' resultado then str ''invalido''
         else str ''erro''),
      statusIcon =
        (if hasStatus ''valido'' resultado then str ''fa-check-circle text-success''
         else if hasStatus ''invalido'' resultado then str ''fa-times-circle text-danger''
         else str ''fa-exclamation-triangle text-warning''),
      statusText =
        (if hasStatus ''valido'' resultado then str ''V'' @ [0xE1] @ str ''lido''
         else if hasStatus ''invalido'' resultado then str ''Inv'' @ [0xE1] @ str ''lido''
         else str ''Erro''),
      numero = n,
      url = getProp resultado ''url'',
      corpo =
        (if truthy (getProp resultado ''erro'') then ErroAlerta (the (getProp resultado ''erro''))
         else
           (let dados = orElse (getProp resultado ''dados_extraidos'') (JObj []);
                receita = orElse (getProp resultado ''dados_receita'') (JObj []);
                validacoes = orElse (getProp resultado ''validacoes'') (JObj [])
            in Tabelas
                 [orElse (member dados ''cnpj'') naoEncontrado,
                  orElse (member dados ''representante_legal'') naoEncontrado,
                  orElse (member dados ''data_documento'') naoEncontrada,
                  orElse (member dados ''nome_especifico_encontrado'') naoEncontrado]
                 [orElse (member receita ''razao_social'') naoConsultado,
                  orElse (member receita ''situacao_cadastral'') naoConsultado,
                  orElse (member receita ''logradouro'') naoConsultado]
                 (map criarItemValidacao
                   [member validacoes ''cnpj_validado_planilha'',
                    member validacoes ''razao_social_validada'',
                    member validacoes ''cnpj_ativo_receita'',
                    member validacoes ''representante_validado'',
                    member validacoes ''nome_especifico_validado'',
                    member validacoes ''data_validada''])))\<rparr>"

text \<open>
  \<^verbatim>\<open>this.resultados.filter(r => r.status === ...)\<close>, the first thing that
  \<^verbatim>\<open>exibirResultados\<close> and the report of \<^verbatim>\<open>downloadRelatorio\<close> do with the
  stored value: it ends normally on an array without a null element, and
  throws a TypeError, whose message is given, on every other value.
\<close>

definition erroFiltrar :: "json option \<Rightarrow> jsstring option" where
  "erroFiltrar v =
     (case v of
        None \<Rightarrow> Some (typeErrorRead ''undefined'' ''filter'')
      | Some JNull \<Rightarrow> Some (typeErrorRead ''null'' ''filter'')
      | Some (JArr vs) \<Rightarrow>
          if JNull \<in> set vs then Some (typeErrorRead ''null'' ''status'') else None
      | Some _ \<Rightarrow> Some typeErrorFilter)"

text \<open>
  The values that a card's templates convert to strings, in the order of the
  conversions: the error or the seven data, then the URL (an undefined one
  is written \<^verbatim>\<open>undefined\<close>). \<^verbatim>\<open>criarCardResultado\<close> throws when one of the
  conversions does.
\<close>

definition interpolados :: "card \<Rightarrow> json list" where
  "interpolados c =
     (case corpo c of ErroAlerta v \<Rightarrow> [v] | Tabelas xs ys zs \<Rightarrow> xs @ ys) @
     (case url c of None \<Rightarrow> [] | Some v \<Rightarrow> [v])"

definition erroCard :: "card \<Rightarrow> bool" where
  "erroCard c \<longleftrightarrow> algumNaoConverte (interpolados c)"

text \<open>The cards of the elements of the stored array, numbered from 1.\<close>

definition cartoes :: "json list \<Rightarrow> card list" where
  "cartoes vs =
     map (\<lambda>(index, resultado). criarCardResultado (propriedades resultado) (index + 1))
       (enumerate 0 vs)"

text \<open>
  \<^verbatim>\<open>exibirResultados()\<close>: the page after it and, when it throws, the message of
  the error. The container is emptied and the section shown before the first
  filter runs; the statistics are written before the loop over the results,
  and the loop appends the cards one by one until one of them throws.
\<close>

definition exibirResultados :: "validador \<Rightarrow> validador \<times> jsstring option" where
  "exibirResultados s =
     (let s1 = s\<lparr>resultados_container := None, secao_resultados := True\<rparr> in
      case erroFiltrar (resultados s) of
        Some m \<Rightarrow> (s1, Some m)
      | None \<Rightarrow>
          (let rs = map propriedades (itens (resultados s));
               cs = cartoes (itens (resultados s));
               feitos = takeWhile (\<lambda>c. \<not> erroCard c) cs
           in (s1\<lparr>resultados_container := Some
                 \<lparr>estatisticas = (contar ''valido'' rs, contar ''invalido'' rs, contar ''erro'' rs),
                  cards = feitos\<rparr>\<rparr>,
               if length feitos < length cs then Some typeErrorConvert else None)))"

definition msgSemUrl :: jsstring where
  "msgSemUrl = str ''Por favor, insira pelo menos uma URL de documento''"

definition msgMaximo :: jsstring where
  "msgMaximo = str ''M'' @ [0xE1] @ str ''ximo de 3 documentos permitidos''"

definition msgIniciando :: jsstring where
  "msgIniciando = str ''Iniciando valida'' @ [0xE7, 0xE3] @ str ''o...''"

definition msgEnviando :: jsstring where
  "msgEnviando = str ''Enviando documentos para processamento...''"

definition msgProcessando :: jsstring where
  "msgProcessando = str ''Processando documentos...''"

definition msgConcluido :: jsstring where
  "msgConcluido = str ''Processamento conclu'' @ [0xED] @ str ''do!''"

definition msgErro :: "jsstring \<Rightarrow> jsstring" where
  "msgErro m = [0x274C] @ str '' Erro: '' @ m"

text \<open>The \<^verbatim>\<open>catch\<close> block of \<^verbatim>\<open>iniciarValidacao\<close>, without its \<^verbatim>\<open>console.error\<close>.\<close>

definition erroProcessamento :: "jsstring \<Rightarrow> validador \<Rightarrow> validador" where
  "erroProcessamento m s = addLog (msgErro m) (str ''danger'') (updateProgress 0 (msgErro m) s)"

text \<open>The object whose JSON text is the body of the processing request.\<close>

definition corpoProcessar :: "jsstring list \<Rightarrow> json \<Rightarrow> json" where
  "corpoProcessar documentUrls planilha =
     JObj [(str ''document_urls'', JArr (map JStr documentUrls)),
           (str ''planilha_data'', planilha)]"

text \<open>
  \<^verbatim>\<open>iniciarValidacao()\<close>. The argument \<open>servidor\<close> stands for the endpoint
  \<^verbatim>\<open>/api/processar-documentos\<close>: what the two awaits give for a request body.
  The method runs to its end without another handler in between. Inside the
  \<^verbatim>\<open>try\<close>, reading \<^verbatim>\<open>data.success\<close> throws when the data are null, and
  \<^verbatim>\<open>exibirResultados\<close> may throw after the entry of 100 percent is logged
  and the results are stored; the \<^verbatim>\<open>catch\<close> block takes these errors as it
  takes the rejections and the \<^verbatim>\<open>Error\<close> of an answer without success.
\<close>

definition iniciarValidacao ::
  "(json \<Rightarrow> json fetched) \<Rightarrow> validador \<Rightarrow> validador \<times> event list" where
  "iniciarValidacao servidor s =
     (let documentUrls = parseDocumentUrls (document_urls s) in
      if length documentUrls = 0 then (s, [Alert msgSemUrl])
      else if length documentUrls > 3 then (s, [Alert msgMaximo])
      else
        (let s1 = updateProgress 0 msgIniciando (s\<lparr>secao_progresso := True, secao_resultados := False\<rparr>);
             s2 = s1\<lparr>iniciar_disabled := True\<rparr>;
             s3 = updateProgress 20 msgEnviando s2;
             body = corpoProcessar documentUrls (planilhaData s);
             (s4, evs) =
               (case servidor body of
                  FetchRejected m \<Rightarrow> (erroProcessamento m s3, [ConsoleError m])
                | JsonRejected m \<Rightarrow>
                    (erroProcessamento m (updateProgress 60 msgProcessando s3), [ConsoleError m])
                | Resolved data \<Rightarrow>
                    (let s5 = updateProgress 60 msgProcessando s3 in
                     if data = JNull then
                       (let m = typeErrorRead ''null'' ''success''
                        in (erroProcessamento m s5, [ConsoleError m]))
                     else if truthy (member data ''success'') then
                       (case exibirResultados
                               ((updateProgress 100 msgConcluido s5)
                                \<lparr>resultados := member data ''resultados''\<rparr>) of
                          (s6, None) \<Rightarrow> (s6, [])
                        | (s6, Some m) \<Rightarrow> (erroProcessamento m s6, [ConsoleError m]))
                     else
                       (let m = mensagemErro (member data ''error'') (str ''Erro no processamento'')
                        in (erroProcessamento m s5, [ConsoleError m]))))
         in (updateUI (s4\<lparr>iniciar_disabled := False\<rparr>),
             Fetch (str ''/api/processar-documentos'') body # evs)))"

text \<open>
  The report object of \<^verbatim>\<open>downloadRelatorio()\<close> for the stored array of the
  elements \<open>vs\<close>; \<open>agora\<close> is \<^verbatim>\<open>new Date().toISOString()\<close>.
\<close>

definition relatorio :: "jsstring \<Rightarrow> json list \<Rightarrow> jsobject" where
  "relatorio agora vs =
     [(str ''timestamp'', JStr agora),
      (str ''total_documentos'', JNum (digits (length vs))),
      (str ''validos'', JNum (digits (contar ''valido'' (map propriedades vs)))),
      (str ''invalidos'', JNum (digits (contar ''invalido'' (map propriedades vs)))),
      (str ''erros'', JNum (digits (contar ''erro'' (map propriedades vs)))),
      (str ''resultados'', JArr vs)]"

text \<open>
  The guard of \<^verbatim>\<open>downloadRelatorio()\<close>:
  \<^verbatim>\<open>!this.resultados || this.resultados.length === 0\<close>. An array and a string
  have their length; an object has the \<^verbatim>\<open>length\<close> it was given, if any.
\<close>

definition semResultados :: "json option \<Rightarrow> bool" where
  "semResultados v \<longleftrightarrow>
     \<not> truthy v \<or>
     (case v of
        Some (JArr vs) \<Rightarrow> vs = []
      | Some (JStr t) \<Rightarrow> t = []
      | Some (JObj kvs) \<Rightarrow>
          map_of kvs (str ''length'') = Some (JNum (str ''0'')) \<or>
          map_of kvs (str ''length'') = Some JNegZero
      | _ \<Rightarrow> False)"

text \<open>
  \<^verbatim>\<open>downloadRelatorio()\<close>; \<open>agora\<close> and \<open>depois\<close> are the two readings of the
  clock, for the report and for the name of the file
  (\<^verbatim>\<open>toISOString().split('T')[0]\<close>). The error of a filter that throws
  leaves the handler uncaught.
\<close>

definition downloadRelatorio :: "jsstring \<Rightarrow> jsstring \<Rightarrow> validador \<Rightarrow> validador \<times> event list" where
  "downloadRelatorio agora depois s =
     (if semResultados (resultados s) then (s, [Alert (str ''Nenhum resultado para download'')])
      else
        (case erroFiltrar (resultados s) of
           Some m \<Rightarrow> (s, [Uncaught m])
         | None \<Rightarrow>
             (s, [Download
                    (str ''relatorio-validacao-'' @ hd (split_on (\<lambda>c. c = 0x54) depois) @ str ''.json'')
                    (JSON_stringify (JObj (relatorio agora (itens (resultados s)))))])))"

text \<open>
  \<^verbatim>\<open>carregarPlanilha()\<close>, with \<open>servidor\<close> for \<^verbatim>\<open>/api/carregar-planilha\<close>. In
  the success branch the template reads \<^verbatim>\<open>dados.razoes_sociais\<close>: where the
  answer has no \<^verbatim>\<open>dados\<close> that read throws a TypeError, whose message is the
  engine's (\<open>typeErrorDados\<close> is V8's).
\<close>

definition typeErrorDados :: jsstring where
  "typeErrorDados = str ''Cannot read properties of undefined (reading 'razoes_sociais')''"

definition erroPlanilha :: "jsstring \<Rightarrow> validador \<Rightarrow> validador" where
  "erroPlanilha m s = (showAlert (str ''danger'') (Texto (msgErro m)) s)\<lparr>planilhaData := JNull\<rparr>"

definition carregarPlanilha ::
  "(json \<Rightarrow> carregar_data fetched) \<Rightarrow> validador \<Rightarrow> validador \<times> event list" where
  "carregarPlanilha servidor s =
     (let csvUrl = trim (csv_url s) in
      if csvUrl = [] then
        (showAlert (str ''danger'') (Texto (str ''Por favor, insira a URL da planilha'')) s, [])
      else
        (let s1 = showAlert (str ''info'') (Texto (str ''Carregando planilha...''))
                    (s\<lparr>carregar_disabled := True\<rparr>);
             body = JObj [(str ''csv_url'', JStr csvUrl)];
             (s2, evs) =
               (case servidor body of
                  FetchRejected m \<Rightarrow> (erroPlanilha m s1, [ConsoleError m])
                | JsonRejected m \<Rightarrow> (erroPlanilha m s1, [ConsoleError m])
                | Resolved data \<Rightarrow>
                    if c_success data then
                      (let s' = s1\<lparr>planilhaData := c_planilha_data data\<rparr> in
                       case c_dados data of
                         None \<Rightarrow> (erroPlanilha typeErrorDados s', [ConsoleError typeErrorDados])
                       | Some dados \<Rightarrow>
                           (updateUI
                              (showAlert (str ''success'')
                                 (Carregada (getProp dados ''razoes_sociais'') (getProp dados ''cnpjs'')
                                    (getProp dados ''representantes'') (getProp dados ''responsaveis_rede''))
                                 s'), []))
                    else
                      (let m = errorOr (c_error data) (str ''Erro desconhecido'')
                       in (erroPlanilha m s1, [ConsoleError m])))
         in (updateUI (s2\<lparr>carregar_disabled := False\<rparr>),
             Fetch (str ''/api/carregar-planilha'') body # evs)))"

section \<open>The processing behind \<^verbatim>\<open>/api/processar-documentos\<close>\<close>

text \<open>
  The server of the repository (\<^verbatim>\<open>src/main.py\<close>, started by the batch file,
  and the modules it loads) is not among the sources. This section follows
  the specification's sections 3 to 7; instants are seconds on the time line.
\<close>

text \<open>Modelled from the spec: the terminal status of a document (section 3), absent with the server.\<close>

datatype status = valid | invalid | error

text \<open>Modelled from the spec: the reference dataset of section 3, absent with the server.\<close>

record ReferenceDataset =
  legalNames :: "jsstring set"
  taxIds :: "jsstring set"
  representatives :: "jsstring set"
  networkContacts :: "jsstring set"

text \<open>Modelled from the spec: the extracted fields of section 3, absent with the server.\<close>

record ExtractedFields =
  taxId :: "jsstring option"
  representativeName :: "jsstring option"
  documentDate :: "int option"
  specificNameFound :: "jsstring option"

text \<open>Modelled from the spec: the registry record of section 3, absent with the server.\<close>

record RegistryRecord =
  legalName :: "jsstring option"
  registrationStatus :: "jsstring option"
  address :: "jsstring option"

text \<open>Modelled from the spec: the failure kinds of the two adapters (section 6), absent with the server.\<close>

datatype FailureKind = notFound | unreadable | timeout | network

text \<open>Modelled from the spec: an adapter failure (section 6), absent with the server.\<close>

record Failure =
  kind :: FailureKind
  detail :: jsstring

text \<open>Modelled from the spec: the six validation flags of section 3, absent with the server.\<close>

record ValidationFlags =
  taxIdInReference :: bool
  legalNameValid :: bool
  taxIdActiveInRegistry :: bool
  representativeValid :: bool
  specificNameValid :: bool
  documentDateValid :: bool

text \<open>Modelled from the spec: the per-document result of section 3, absent with the server.\<close>

record DocumentResult =
  locator :: jsstring
  docStatus :: status
  extractedFields :: "ExtractedFields option"
  registryRecord :: "RegistryRecord option"
  validationFlags :: ValidationFlags
  errorDetail :: "jsstring option"

text \<open>Modelled from the spec: the batch report of section 3, absent with the server.\<close>

record BatchReport =
  timestamp :: int
  totalDocuments :: nat
  validCount :: nat
  invalidCount :: nat
  errorCount :: nat
  results :: "DocumentResult list"

text \<open>
  Modelled from the spec: the external collaborators of section 6 (the two
  adapters, each call ending in a failure or a value within its timeout),
  the normalisation of section 4.1, the registry's "active" status value,
  the processing time, and the loader's reading of the spreadsheet data the
  page sends back; all absent with the server.
\<close>

record collaborators =
  extractFields :: "jsstring \<Rightarrow> Failure + ExtractedFields"
  lookup :: "jsstring \<Rightarrow> Failure + RegistryRecord"
  normalize :: "jsstring \<Rightarrow> jsstring"
  activeStatus :: jsstring
  now :: int
  loadReference :: "json \<Rightarrow> ReferenceDataset"

text \<open>Modelled from the spec: the length of a day, for the 30-day rule of section 4.1.\<close>

definition day :: int where
  "day = 86400"

text \<open>
  Modelled from the spec: the rule \<open>documentDateValid\<close> of section 4.1 (the date is
  present, the processing time is at most 30 days after it, and it is not in
  the future), absent with the server.
\<close>

definition dateValid :: "int \<Rightarrow> int option \<Rightarrow> bool" where
  "dateValid t d = (case d of None \<Rightarrow> False | Some x \<Rightarrow> t - x \<le> 30 * day \<and> \<not> t < x)"

text \<open>Modelled from the spec: membership after normalisation (section 4.1), absent with the server.\<close>

definition present_in :: "collaborators \<Rightarrow> jsstring option \<Rightarrow> jsstring set \<Rightarrow> bool" where
  "present_in env v S = (case v of None \<Rightarrow> False | Some x \<Rightarrow> normalize env x \<in> S)"

text \<open>Modelled from the spec: the Validation Rule Engine of section 4.1, absent with the server.\<close>

definition evaluate ::
  "collaborators \<Rightarrow> ExtractedFields \<Rightarrow> ReferenceDataset \<Rightarrow> RegistryRecord option \<Rightarrow> ValidationFlags" where
  "evaluate env extracted reference registry =
     \<lparr>taxIdInReference = present_in env (taxId extracted) (taxIds reference),
      legalNameValid =
        (case registry of None \<Rightarrow> False
         | Some r \<Rightarrow> present_in env (legalName r) (legalNames reference)),
      taxIdActiveInRegistry =
        (case registry of None \<Rightarrow> False
         | Some r \<Rightarrow> registrationStatus r = Some (activeStatus env)),
      representativeValid = present_in env (representativeName extracted) (representatives reference),
      specificNameValid = present_in env (specificNameFound extracted) (networkContacts reference),
      documentDateValid = dateValid (now env) (documentDate extracted)\<rparr>"

text \<open>Modelled from the spec: "all six flags are true" (section 3), absent with the server.\<close>

definition allFlags :: "ValidationFlags \<Rightarrow> bool" where
  "allFlags f \<longleftrightarrow>
     taxIdInReference f \<and> legalNameValid f \<and> taxIdActiveInRegistry f \<and>
     representativeValid f \<and> specificNameValid f \<and> documentDateValid f"

text \<open>Modelled from the spec: the flags before evaluation, all false (section 3), absent with the server.\<close>

definition noFlags :: ValidationFlags where
  "noFlags = \<lparr>taxIdInReference = False, legalNameValid = False, taxIdActiveInRegistry = False,
              representativeValid = False, specificNameValid = False, documentDateValid = False\<rparr>"

text \<open>
  Modelled from the spec: the Document Processor of section 4.2, steps 1 to 5,
  absent with the server. An extraction failure ends the document with
  \<open>error\<close>; a registry failure leaves the registry record absent.
\<close>

definition process :: "collaborators \<Rightarrow> jsstring \<Rightarrow> ReferenceDataset \<Rightarrow> DocumentResult" where
  "process env loc reference =
     (case extractFields env loc of
        Inl f \<Rightarrow>
          \<lparr>locator = loc, docStatus = error, extractedFields = None, registryRecord = None,
           validationFlags = noFlags, errorDetail = Some (detail f)\<rparr>
      | Inr extracted \<Rightarrow>
          (let registry =
                 (case taxId extracted of
                    None \<Rightarrow> None
                  | Some t \<Rightarrow> (case lookup env t of Inl f \<Rightarrow> None | Inr r \<Rightarrow> Some r));
               flags = evaluate env extracted reference registry
           in \<lparr>locator = loc, docStatus = (if allFlags flags then valid else invalid),
               extractedFields = Some extracted, registryRecord = registry,
               validationFlags = flags, errorDetail = None\<rparr>))"

text \<open>
  Modelled from the spec: the collection of section 5: each finished document
  is written into the slot of its index, whatever the order of completion;
  absent with the server.
\<close>

definition collectSlots :: "nat \<Rightarrow> (nat \<times> 'a) list \<Rightarrow> 'a option list" where
  "collectSlots n completions =
     fold (\<lambda>(i, r) slots. slots[i := Some r]) completions (replicate n None)"

text \<open>Modelled from the spec: the batch-level error of section 7, absent with the server.\<close>

datatype batch_error = InvalidBatchSize

text \<open>Modelled from the spec: the number of results with a given status, absent with the server.\<close>

definition countStatus :: "status \<Rightarrow> DocumentResult list \<Rightarrow> nat" where
  "countStatus st rs = length (filter (\<lambda>r. docStatus r = st) rs)"

text \<open>
  Modelled from the spec: the Batch Orchestrator of section 4.3, absent with
  the server. \<open>order\<close> is the order in which the documents finish (indices
  into the locator list).
\<close>

definition runBatch ::
  "collaborators \<Rightarrow> nat list \<Rightarrow> ReferenceDataset \<Rightarrow> jsstring list \<Rightarrow> batch_error + BatchReport" where
  "runBatch env order reference locators =
     (if locators = [] \<or> length locators > 3 then Inl InvalidBatchSize
      else
        (let completions = map (\<lambda>i. (i, process env (locators ! i) reference)) order;
             slots = collectSlots (length locators) completions;
             rs = map the (filter (\<lambda>x. x \<noteq> None) slots)
         in Inr \<lparr>timestamp = now env, totalDocuments = length rs,
                 validCount = countStatus valid rs, invalidCount = countStatus invalid rs,
                 errorCount = countStatus error rs, results = rs\<rparr>))"

text \<open>
  Modelled from the spec: how a result reaches the page. The keys are the ones
  \<^verbatim>\<open>script.js\<close> reads, the status words the ones it compares with; the
  server's own encoder is absent.
\<close>

definition encodeStatus :: "status \<Rightarrow> jsstring" where
  "encodeStatus st = (case st of valid \<Rightarrow> str ''valido'' | invalid \<Rightarrow> str ''invalido'' | error \<Rightarrow> str ''erro'')"

text \<open>Modelled from the spec: an optional string on the wire, absent with the server.\<close>

definition encodeOpt :: "jsstring option \<Rightarrow> json" where
  "encodeOpt v = (case v of None \<Rightarrow> JNull | Some x \<Rightarrow> JStr x)"

text \<open>
  Modelled from the spec: a date on the wire, as the decimal text of its
  instant; absent with the server.
\<close>

definition encodeDate :: "int \<Rightarrow> json" where
  "encodeDate d = JStr (if d < 0 then 0x2D # digits (nat (- d)) else digits (nat d))"

text \<open>Modelled from the spec: the wire form of one result, absent with the server.\<close>

definition encodeResult :: "DocumentResult \<Rightarrow> jsobject" where
  "encodeResult r =
     [(str ''url'', JStr (locator r)),
      (str ''status'', JStr (encodeStatus (docStatus r)))] @
     (case errorDetail r of None \<Rightarrow> [] | Some d \<Rightarrow> [(str ''erro'', JStr d)]) @
     [(str ''dados_extraidos'',
        (case extractedFields r of
           None \<Rightarrow> JNull
         | Some f \<Rightarrow>
             JObj [(str ''cnpj'', encodeOpt (taxId f)),
                   (str ''representante_legal'', encodeOpt (representativeName f)),
                   (str ''data_documento'',
                      (case documentDate f of None \<Rightarrow> JNull | Some d \<Rightarrow> encodeDate d)),
                   (str ''nome_especifico_encontrado'', encodeOpt (specificNameFound f))])),
      (str ''dados_receita'',
        (case registryRecord r of
           None \<Rightarrow> JNull
         | Some g \<Rightarrow>
             JObj [(str ''razao_social'', encodeOpt (legalName g)),
                   (str ''situacao_cadastral'', encodeOpt (registrationStatus g)),
                   (str ''logradouro'', encodeOpt (address g))])),
      (str ''validacoes'',
        JObj [(str ''cnpj_validado_planilha'', JBool (taxIdInReference (validationFlags r))),
              (str ''razao_social_validada'', JBool (legalNameValid (validationFlags r))),
              (str ''cnpj_ativo_receita'', JBool (taxIdActiveInRegistry (validationFlags r))),
              (str ''representante_validado'', JBool (representativeValid (validationFlags r))),
              (str ''nome_especifico_validado'', JBool (specificNameValid (validationFlags r))),
              (str ''data_validada'', JBool (documentDateValid (validationFlags r)))])]"

text \<open>Modelled from the spec: the strings of a JSON array, for reading the request; absent with the server.\<close>

fun strings :: "json list \<Rightarrow> jsstring list" where
  "strings [] = []"
| "strings (JStr u # vs) = u # strings vs"
| "strings (v # vs) = strings vs"

text \<open>
  Modelled from the spec: the endpoint as the page meets it: it reads the
  locators and the spreadsheet data from the request, runs the batch and
  answers with the encoded results under the keys that \<^verbatim>\<open>script.js\<close> reads;
  absent with the server.
\<close>

definition processarDocumentos :: "collaborators \<Rightarrow> nat list \<Rightarrow> json \<Rightarrow> json fetched" where
  "processarDocumentos env order body =
     (let locators = strings (case member body ''document_urls'' of Some (JArr us) \<Rightarrow> us | _ \<Rightarrow> []);
          reference = loadReference env
                        (case member body ''planilha_data'' of None \<Rightarrow> JNull | Some p \<Rightarrow> p)
      in case runBatch env order reference locators of
           Inl e \<Rightarrow>
             Resolved (JObj [(str ''success'', JBool False),
                             (str ''error'', JStr (str ''InvalidBatchSize''))])
         | Inr report \<Rightarrow>
             Resolved (JObj [(str ''success'', JBool True),
                             (str ''resultados'',
                                JArr (map (\<lambda>r. JObj (encodeResult r)) (results report)))]))"

section \<open>The handlers bound by \<^verbatim>\<open>bindEvents\<close>\<close>

text \<open>
  The page after \<^verbatim>\<open>new ValidadorDocumentos()\<close> on a document whose two fields
  are empty: the constructor sets \<open>planilhaData\<close> to null and \<open>resultados\<close>
  to the empty array, and \<^verbatim>\<open>init\<close> ends with \<^verbatim>\<open>updateUI\<close>.
\<close>

definition novoValidador :: validador where
  "novoValidador =
     updateUI
       \<lparr>planilhaData = JNull, resultados = Some (JArr []), csv_url = [], document_urls = [],
        iniciar_disabled = False, carregar_disabled = False, status_planilha = None,
        secao_progresso = False, secao_resultados = False, progress_bar = 0,
        log_processamento = [], resultados_container = None\<rparr>"

text \<open>
  What the user does: typing into one of the two fields, and a click on one of
  the three buttons, with the answer the request of that click will get (and
  the clock readings of a download). A disabled button dispatches no click.
\<close>

datatype acao =
    InputCsv jsstring
  | InputDocs jsstring
  | ClickCarregar "carregar_data fetched"
  | ClickIniciar "json fetched"
  | ClickDownload jsstring jsstring

fun passo :: "acao \<Rightarrow> validador \<Rightarrow> validador \<times> event list" where
  "passo (InputCsv v) s = (updateUI (s\<lparr>csv_url := v\<rparr>), [])"
| "passo (InputDocs v) s = (updateUI (s\<lparr>document_urls := v\<rparr>), [])"
| "passo (ClickCarregar r) s =
     (if carregar_disabled s then (s, []) else carregarPlanilha (\<lambda>body. r) s)"
| "passo (ClickIniciar r) s =
     (if iniciar_disabled s then (s, []) else iniciarValidacao (\<lambda>body. r) s)"
| "passo (ClickDownload agora depois) s = downloadRelatorio agora depois s"

fun executar :: "acao list \<Rightarrow> validador \<Rightarrow> validador \<times> event list" where
  "executar [] s = (s, [])"
| "executar (a # as) s =
     (let (s1, e1) = passo a s; (s2, e2) = executar as s1 in (s2, e1 @ e2))"

text \<open>
  The answers with which \<^verbatim>\<open>carregarPlanilha\<close> reaches its \<^verbatim>\<open>catch\<close> block: a
  rejected promise, \<^verbatim>\<open>success\<close> not set, or a success without \<^verbatim>\<open>dados\<close>.
\<close>

definition cargaFalhou :: "carregar_data fetched \<Rightarrow> bool" where
  "cargaFalhou r =
     (case r of
        FetchRejected m \<Rightarrow> True
      | JsonRejected m \<Rightarrow> True
      | Resolved d \<Rightarrow> \<not> c_success d \<or> c_dados d = None)"

fun recarga :: "acao \<Rightarrow> bool" where
  "recarga (ClickCarregar r) = (\<not> cargaFalhou r)"
| "recarga a = False"

text \<open>No spreadsheet data on the page, and the start button disabled.\<close>

definition semDados :: "validador \<Rightarrow> bool" where
  "semDados s \<longleftrightarrow> planilhaData s = JNull \<and> iniciar_disabled s"

fun isFetch :: "jsstring \<Rightarrow> event \<Rightarrow> bool" where
  "isFetch endpoint (Fetch e body) = (e = endpoint)"
| "isFetch endpoint ev = False"

text \<open>
  The page of a run of \<^verbatim>\<open>iniciarValidacao\<close> that passes the size check, at
  the moment the data of the answer arrive: after the entries of 0, 20 and
  60 percent.
\<close>

definition antes :: "validador \<Rightarrow> validador" where
  "antes s =
     updateProgress 60 msgProcessando
       (updateProgress 20 msgEnviando
         ((updateProgress 0 msgIniciando (s\<lparr>secao_progresso := True, secao_resultados := False\<rparr>))
          \<lparr>iniciar_disabled := True\<rparr>))"

text \<open>
  The two entries that the \<^verbatim>\<open>catch\<close> block of \<^verbatim>\<open>iniciarValidacao\<close> adds to the
  log for an error with the message \<open>m\<close>.
\<close>

definition entradasErro :: "jsstring \<Rightarrow> log_entry list" where
  "entradasErro m =
     [\<lparr>className = str ''text-light'', message = msgErro m\<rparr>,
      \<lparr>className = str ''text-danger'', message = msgErro m\<rparr>]"

text \<open>The entries a run of \<^verbatim>\<open>iniciarValidacao\<close> adds to the log.\<close>

definition notificacoes :: "(json \<Rightarrow> json fetched) \<Rightarrow> validador \<Rightarrow> log_entry list" where
  "notificacoes servidor s =
     drop (length (log_processamento s)) (log_processamento (fst (iniciarValidacao servidor s)))"

text \<open>
  The lifecycle in the words of the specification's section 4.3: \<open>started\<close>,
  one \<open>documentCompleted(index, result)\<close> per document in submission order,
  \<open>finished\<close>.
\<close>

datatype notification = started | documentCompleted nat json | finished

definition lifecycle_spec :: "json list \<Rightarrow> notification list" where
  "lifecycle_spec rs =
     started # map (\<lambda>(index, r). documentCompleted index r) (enumerate 0 rs) @ [finished]"

text \<open>
  A log follows that lifecycle when it has one entry for each of its
  notifications.
\<close>

definition followsLifecycle :: "log_entry list \<Rightarrow> json list \<Rightarrow> bool" where
  "followsLifecycle entries rs \<longleftrightarrow> length entries = length (lifecycle_spec rs)"

text \<open>
  The names of the report's fields in the words of the specification's
  section 3.
\<close>

definition fieldNames_spec :: "jsstring list" where
  "fieldNames_spec =
     [str ''timestamp'', str ''totalDocuments'', str ''validCount'', str ''invalidCount'',
      str ''errorCount'', str ''results'']"

text \<open>
  The page after a run of \<^verbatim>\<open>iniciarValidacao\<close> against the processing of
  the previous section, whose documents finish in the order \<open>order\<close>.
\<close>

definition paginaApos :: "collaborators \<Rightarrow> nat list \<Rightarrow> validador \<Rightarrow> validador" where
  "paginaApos env order s = fst (iniciarValidacao (processarDocumentos env order) s)"

section \<open>Sample pages and collaborators\<close>

definition amostraPlanilha :: json where
  "amostraPlanilha = JObj [(str ''cnpjs'', JArr [JStr (str ''11222333000181'')])]"

definition paginaCarregada :: validador where
  "paginaCarregada =
     novoValidador\<lparr>planilhaData := amostraPlanilha, document_urls := str ''doc-a'',
                   iniciar_disabled := False\<rparr>"

definition paginaQuatro :: validador where
  "paginaQuatro = paginaCarregada\<lparr>document_urls := str ''a,b,c,d''\<rparr>"

definition paginaTres :: validador where
  "paginaTres = paginaCarregada\<lparr>document_urls := str ''doc-a, doc-x, doc-c''\<rparr>"

definition amostraResultado :: "string \<Rightarrow> string \<Rightarrow> jsobject" where
  "amostraResultado u st = [(str ''url'', JStr (str u)), (str ''status'', JStr (str st))]"

definition amostraFields :: ExtractedFields where
  "amostraFields =
     \<lparr>taxId = Some (str ''11222333000181''), representativeName = Some (str ''ana''),
      documentDate = Some (970 * day), specificNameFound = Some (str ''rui'')\<rparr>"

definition amostraRegistry :: RegistryRecord where
  "amostraRegistry =
     \<lparr>legalName = Some (str ''acme''), registrationStatus = Some (str ''ATIVA''),
      address = Some (str ''rua 1'')\<rparr>"

definition amostraReference :: ReferenceDataset where
  "amostraReference =
     \<lparr>legalNames = {str ''acme''}, taxIds = {str ''11222333000181''},
      representatives = {str ''ana''}, networkContacts = {str ''rui''}\<rparr>"

text \<open>
  Sample collaborators: the document \<^verbatim>\<open>doc-x\<close> cannot be read, every other one
  yields the sample fields; the registry answers with the sample record when
  \<open>up\<close> holds and fails with a timeout otherwise.
\<close>

definition amostraEnv :: "bool \<Rightarrow> collaborators" where
  "amostraEnv up =
     \<lparr>extractFields = (\<lambda>loc. if loc = str ''doc-x''
                           then Inl \<lparr>kind = unreadable, detail = str ''unreadable''\<rparr>
                           else Inr amostraFields),
      lookup = (\<lambda>t. if up then Inr amostraRegistry
                     else Inl \<lparr>kind = timeout, detail = str ''timeout''\<rparr>),
      normalize = trim,
      activeStatus = str ''ATIVA'',
      now = 1000 * day,
      loadReference = (\<lambda>p. amostraReference)\<rparr>"

definition respostaUm :: "json \<Rightarrow> json fetched" where
  "respostaUm body =
     Resolved (JObj [(str ''success'', JBool True),
                     (str ''resultados'', JArr [JObj (amostraResultado ''doc-a'' ''valido'')])])"

text \<open>
  Two answers that report success and carry no list of results: one without
  \<^verbatim>\<open>resultados\<close>, one whose list holds a null entry.
\<close>

definition respostaSemResultados :: "json \<Rightarrow> json fetched" where
  "respostaSemResultados body = Resolved (JObj [(str ''success'', JBool True)])"

definition respostaComNulo :: "json \<Rightarrow> json fetched" where
  "respostaComNulo body =
     Resolved (JObj [(str ''success'', JBool True), (str ''resultados'', JArr [JNull])])"

definition paginaComUrl :: validador where
  "paginaComUrl = paginaCarregada\<lparr>csv_url := str ''http://x/p.csv''\<rparr>"

definition falhaRede :: "'d fetched" where
  "falhaRede = FetchRejected (str ''Failed to fetch'')"

definition amostraAcoes :: "acao list" where
  "amostraAcoes =
     [InputDocs (str ''doc-b''), ClickIniciar (respostaUm JNull), ClickCarregar falhaRede,
      ClickDownload (str ''2024-05-01T10:00:00.000Z'') (str ''2024-05-01T10:00:00.001Z'')]"

definition paginaComResultado :: validador where
  "paginaComResultado =
     paginaCarregada\<lparr>resultados := Some (JArr [JObj (amostraResultado ''doc-a'' ''valido'')])\<rparr>"

text \<open>
  Stored results with a fraction and a large number, and with the values of
  a number literal beyond the range of the doubles and of the literal
  \<^verbatim>\<open>-0\<close>.
\<close>

definition amostraMedidas :: "json list" where
  "amostraMedidas =
     [JObj [(str ''url'', JStr (str ''doc-a'')), (str ''status'', JStr (str ''valido'')),
            (str ''confianca'', JNum (str ''0.5'')), (str ''limite'', JNum (str ''1e+21''))]]"

definition paginaComMedidas :: validador where
  "paginaComMedidas = paginaCarregada\<lparr>resultados := Some (JArr amostraMedidas)\<rparr>"

definition amostraInfinito :: "json list" where
  "amostraInfinito =
     [JObj [(str ''status'', JStr (str ''valido'')), (str ''limite'', JInfinity False),
            (str ''saldo'', JNegZero)]]"

definition amostraInstante :: jsstring where
  "amostraInstante = str ''2024-05-01T10:00:00.000Z''"

definition amostraJson :: json where
  "amostraJson = JObj [(str ''erros'', JNum (str ''0'')), (str ''resultados'', JArr [JStr (str ''a'')])]"

section \<open>Properties of trimming and splitting\<close>

lemma split_on_not_Nil: "split_on p cs \<noteq> []"
  by (induction cs) (auto split: list.splits)

lemma split_on_append:
  "split_on p (x @ y) =
     butlast (split_on p x) @ (last (split_on p x) @ hd (split_on p y)) # tl (split_on p y)"
proof (induction x)
  case Nil
  then show ?case by (simp add: split_on_not_Nil)
next
  case (Cons c x)
  show ?case
  proof (cases "p c")
    case True
    then show ?thesis using Cons by (simp add: split_on_not_Nil)
  next
    case False
    obtain w ws where sx: "split_on p x = w # ws"
      using split_on_not_Nil [of p x] by (cases "split_on p x") auto
    show ?thesis
    proof (cases ws)
      case Nil
      then show ?thesis using False Cons sx by simp
    next
      case (Cons a list)
      then show ?thesis using False Cons.IH sx by simp
    qed
  qed
qed

lemma split_on_pieces_subset: "w \<in> set (split_on p cs) \<Longrightarrow> set w \<subseteq> set cs"
proof (induction cs arbitrary: w)
  case Nil
  then show ?case by simp
next
  case (Cons c cs)
  obtain u us where s: "split_on p cs = u # us"
    using split_on_not_Nil [of p cs] by (cases "split_on p cs") auto
  show ?case
  proof (cases "p c")
    case True
    then show ?thesis using Cons by auto
  next
    case False
    then have "w = c # u \<or> w \<in> set us" using Cons.prems s by auto
    then show ?thesis
    proof
      assume "w = c # u"
      then show ?thesis using Cons.IH [of u] s by auto
    next
      assume "w \<in> set us"
      then show ?thesis using Cons.IH [of w] s by auto
    qed
  qed
qed

lemma split_on_no_separator: "w \<in> set (split_on p cs) \<Longrightarrow> c \<in> set w \<Longrightarrow> \<not> p c"
proof (induction cs arbitrary: w)
  case Nil
  then show ?case by simp
next
  case (Cons a cs)
  obtain u us where s: "split_on p cs = u # us"
    using split_on_not_Nil [of p cs] by (cases "split_on p cs") auto
  show ?case
  proof (cases "p a")
    case True
    then show ?thesis using Cons by auto
  next
    case False
    then have "w = a # u \<or> w \<in> set us" using Cons.prems s by auto
    then show ?thesis
    proof
      assume "w = a # u"
      then show ?thesis using Cons.IH [of u] Cons.prems(2) s False by auto
    next
      assume "w \<in> set us"
      then show ?thesis using Cons.IH [of w] Cons.prems(2) s by auto
    qed
  qed
qed

lemma trim_Nil [simp]: "trim [] = []"
  by (simp add: trim_def)

lemma trim_all_whitespace: "\<forall>c\<in>set s. isWhiteSpace c \<Longrightarrow> trim s = []"
proof -
  assume "\<forall>c\<in>set s. isWhiteSpace c"
  then have d: "dropWhile isWhiteSpace s = []" by simp
  show ?thesis unfolding trim_def d by simp
qed

lemma trim_eq_Nil_iff: "trim s = [] \<longleftrightarrow> (\<forall>c\<in>set s. isWhiteSpace c)"
proof
  assume t: "trim s = []"
  have "dropWhile isWhiteSpace s = []"
  proof (rule ccontr)
    assume ne: "dropWhile isWhiteSpace s \<noteq> []"
    then have "\<not> isWhiteSpace (hd (dropWhile isWhiteSpace s))"
      by (rule hd_dropWhile)
    moreover have "hd (dropWhile isWhiteSpace s) \<in> set (rev (dropWhile isWhiteSpace s))"
      using ne by simp
    moreover have "\<forall>c\<in>set (rev (dropWhile isWhiteSpace s)). isWhiteSpace c"
      using t unfolding trim_def by (simp only: rev_is_Nil_conv dropWhile_eq_Nil_conv)
    ultimately show False by blast
  qed
  then show "\<forall>c\<in>set s. isWhiteSpace c" by (simp add: dropWhile_eq_Nil_conv)
qed (rule trim_all_whitespace)

lemma trim_Cons_whitespace: "isWhiteSpace c \<Longrightarrow> trim (c # s) = trim s"
  by (simp add: trim_def)

lemma trim_prepend_whitespace: "\<forall>c\<in>set l. isWhiteSpace c \<Longrightarrow> trim (l @ s) = trim s"
  by (induction l) (simp_all add: trim_Cons_whitespace)

lemma trim_append_whitespace:
  assumes "\<forall>c\<in>set r. isWhiteSpace c"
  shows "trim (s @ r) = trim s"
proof (cases "\<forall>c\<in>set s. isWhiteSpace c")
  case True
  then have "\<forall>c\<in>set (s @ r). isWhiteSpace c" using assms by auto
  then have "trim (s @ r) = []" by (rule trim_all_whitespace)
  then show ?thesis using True by (simp add: trim_all_whitespace)
next
  case False
  then have "dropWhile isWhiteSpace (s @ r) = dropWhile isWhiteSpace s @ r"
    by (metis dropWhile_append1)
  moreover have "dropWhile isWhiteSpace (rev r @ t) = dropWhile isWhiteSpace t" for t
    by (rule dropWhile_append2) (use assms in auto)
  ultimately show ?thesis by (simp add: trim_def)
qed

lemma trim_decompose:
  "\<exists>l r. s = l @ trim s @ r \<and> (\<forall>c\<in>set l. isWhiteSpace c) \<and> (\<forall>c\<in>set r. isWhiteSpace c)"
proof -
  let ?l = "takeWhile isWhiteSpace s"
  let ?m = "dropWhile isWhiteSpace s"
  let ?r = "rev (takeWhile isWhiteSpace (rev ?m))"
  have "rev ?m = takeWhile isWhiteSpace (rev ?m) @ dropWhile isWhiteSpace (rev ?m)"
    by simp
  then have "rev (rev ?m) = rev (takeWhile isWhiteSpace (rev ?m) @ dropWhile isWhiteSpace (rev ?m))"
    by (rule arg_cong)
  then have m: "?m = trim s @ ?r"
    unfolding trim_def by (simp only: rev_rev_ident rev_append)
  have "s = ?l @ ?m" by simp
  then have "s = ?l @ trim s @ ?r" using m by metis
  moreover have "\<forall>c\<in>set ?l. isWhiteSpace c" by (auto dest: set_takeWhileD)
  moreover have "\<forall>c\<in>set ?r. isWhiteSpace c" by (auto dest: set_takeWhileD)
  ultimately show ?thesis by blast
qed

lemma trim_ends:
  assumes "trim s \<noteq> []"
  shows "\<not> isWhiteSpace (hd (trim s)) \<and> \<not> isWhiteSpace (last (trim s))"
proof -
  let ?m = "dropWhile isWhiteSpace s"
  let ?d = "dropWhile isWhiteSpace (rev ?m)"
  have t: "trim s = rev ?d" by (simp add: trim_def)
  have d: "?d \<noteq> []" using assms unfolding t by (simp only: rev_is_Nil_conv not_False_eq_True)
  have m: "?m \<noteq> []"
  proof
    assume "?m = []"
    then have "?d = []" by (simp only: rev.simps dropWhile.simps)
    then show False using d by simp
  qed
  have "last (trim s) = hd ?d" unfolding t by (simp only: last_rev)
  then have l: "\<not> isWhiteSpace (last (trim s))" using hd_dropWhile [OF d] by simp
  have "hd (trim s) = last ?d" unfolding t by (simp only: hd_rev)
  also have "\<dots> = last (rev ?m)"
    by (metis d last_appendR takeWhile_dropWhile_id)
  also have "\<dots> = hd ?m" by (simp only: last_rev)
  finally have "\<not> isWhiteSpace (hd (trim s))" using hd_dropWhile [OF m] by simp
  then show ?thesis using l by simp
qed

lemma trim_idem: "trim (trim s) = trim s"
proof (cases "trim s = []")
  case True
  then show ?thesis by simp
next
  case False
  let ?t = "trim s"
  obtain a as where t: "?t = a # as" using False by (cases ?t) auto
  have h: "\<not> isWhiteSpace a" and l: "\<not> isWhiteSpace (last ?t)"
    using trim_ends [OF False] t by auto
  have 1: "dropWhile isWhiteSpace ?t = ?t" using t h by simp
  obtain b bs where r: "rev ?t = b # bs" using False by (cases "rev ?t") auto
  have "hd (rev ?t) = last ?t" by (simp add: hd_rev)
  then have "\<not> isWhiteSpace b" using l r by simp
  then have "dropWhile isWhiteSpace (rev ?t) = rev ?t"
    using r by simp
  then have "rev (dropWhile isWhiteSpace (rev (dropWhile isWhiteSpace ?t))) = ?t"
    using 1 by simp
  then show ?thesis by (simp add: trim_def [of "trim s"])
qed

lemma split_whitespace_prefix:
  "\<forall>c\<in>set l. isWhiteSpace c \<Longrightarrow>
     filter (\<lambda>u. u \<noteq> []) (map trim (split_on p (l @ x))) =
     filter (\<lambda>u. u \<noteq> []) (map trim (split_on p x))"
proof (induction l)
  case Nil
  then show ?case by simp
next
  case (Cons c l)
  obtain w ws where s: "split_on p (l @ x) = w # ws"
    using split_on_not_Nil [of p "l @ x"] by (cases "split_on p (l @ x)") auto
  have c: "isWhiteSpace c" using Cons.prems by simp
  have "filter (\<lambda>u. u \<noteq> []) (map trim (split_on p ((c # l) @ x))) =
        filter (\<lambda>u. u \<noteq> []) (map trim (split_on p (l @ x)))"
    using s c by (simp add: trim_Cons_whitespace)
  then show ?case using Cons by simp
qed

lemma split_whitespace_suffix:
  assumes "\<forall>c\<in>set r. isWhiteSpace c"
  shows "filter (\<lambda>u. u \<noteq> []) (map trim (split_on p (x @ r))) =
         filter (\<lambda>u. u \<noteq> []) (map trim (split_on p x))"
proof -
  let ?sx = "split_on p x" and ?sr = "split_on p r"
  have w: "\<forall>c\<in>set u. isWhiteSpace c" if "u \<in> set ?sr" for u
    using split_on_pieces_subset [OF that] assms by blast
  have "hd ?sr \<in> set ?sr" by (simp add: split_on_not_Nil)
  then have h: "trim (last ?sx @ hd ?sr) = trim (last ?sx)"
    using w by (simp add: trim_append_whitespace)
  have "u \<in> set (tl ?sr) \<Longrightarrow> trim u = []" for u
    using w [of u] by (auto simp: trim_all_whitespace dest: list.set_sel(2) [OF split_on_not_Nil])
  then have t: "filter (\<lambda>u. u \<noteq> []) (map trim (tl ?sr)) = []"
    by (auto simp: filter_empty_conv)
  have "filter (\<lambda>u. u \<noteq> []) (map trim (split_on p (x @ r))) =
        filter (\<lambda>u. u \<noteq> []) (map trim (butlast ?sx @ [last ?sx]))"
    by (simp add: split_on_append [of p x r] h t)
  then show ?thesis by (simp add: split_on_not_Nil)
qed

lemma parseDocumentUrls_refines:
  "parseDocumentUrls v = filter (\<lambda>u. u \<noteq> []) (map trim (split_on isSeparator v))"
proof -
  obtain l r where v: "v = l @ trim v @ r"
    and l: "\<forall>c\<in>set l. isWhiteSpace c" and r: "\<forall>c\<in>set r. isWhiteSpace c"
    using trim_decompose [of v] by blast
  have "filter (\<lambda>u. u \<noteq> []) (map trim (split_on isSeparator (l @ trim v @ r))) =
        filter (\<lambda>u. u \<noteq> []) (map trim (split_on isSeparator (trim v)))"
    using split_whitespace_prefix [OF l] split_whitespace_suffix [OF r] by simp
  then have e: "filter (\<lambda>u. u \<noteq> []) (map trim (split_on isSeparator v)) =
        filter (\<lambda>u. u \<noteq> []) (map trim (split_on isSeparator (trim v)))"
    using v by simp
  show ?thesis
  proof (cases "trim v = []")
    case True
    then show ?thesis using e by (simp add: parseDocumentUrls_def)
  next
    case False
    then show ?thesis using e by (simp add: parseDocumentUrls_def)
  qed
qed

lemma parseDocumentUrls_element:
  assumes "u \<in> set (parseDocumentUrls v)"
  shows "u \<noteq> [] \<and> \<not> (\<forall>c\<in>set u. isWhiteSpace c) \<and> trim u = u \<and> (\<forall>c\<in>set u. \<not> isSeparator c)"
proof -
  from assms obtain w where w: "w \<in> set (split_on isSeparator v)" and u: "u = trim w" "u \<noteq> []"
    by (auto simp: parseDocumentUrls_refines)
  have "trim u = u" using u by (simp add: trim_idem)
  moreover have "\<not> (\<forall>c\<in>set u. isWhiteSpace c)"
    using \<open>trim u = u\<close> u(2) trim_all_whitespace [of u] by auto
  moreover have "\<forall>c\<in>set u. \<not> isSeparator c"
  proof
    fix c assume "c \<in> set u"
    moreover obtain a b where "w = a @ trim w @ b" using trim_decompose [of w] by blast
    ultimately have "c \<in> set w" using u(1) by (metis Un_iff set_append)
    then show "\<not> isSeparator c" using split_on_no_separator [OF w] by blast
  qed
  ultimately show ?thesis using u(2) by simp
qed

lemma parseDocumentUrls_blank:
  assumes "\<forall>c\<in>set v. isWhiteSpace c \<or> isSeparator c"
  shows "parseDocumentUrls v = []"
proof -
  have "trim w = []" if "w \<in> set (split_on isSeparator v)" for w
  proof -
    have "\<forall>c\<in>set w. isWhiteSpace c"
      using split_on_pieces_subset [OF that] split_on_no_separator [OF that] assms by blast
    then show ?thesis by (rule trim_all_whitespace)
  qed
  then show ?thesis by (auto simp: parseDocumentUrls_refines filter_empty_conv)
qed

section \<open>Properties of the page's methods\<close>

lemma numero_criarCardResultado: "numero (criarCardResultado r n) = n"
  by (simp add: criarCardResultado_def)

lemma url_criarCardResultado: "url (criarCardResultado r n) = getProp r ''url''"
  by (simp add: criarCardResultado_def)

lemma algumNaoConverte_append [simp]:
  "algumNaoConverte (xs @ ys) \<longleftrightarrow> algumNaoConverte xs \<or> algumNaoConverte ys"
  by (induction xs) simp_all

lemma getProp_propriedades: "getProp (propriedades v) k = member v k"
  by (cases v) (simp_all add: getProp_def)

lemma numeros_cartoes: "map numero (cartoes vs) = [1..<Suc (length vs)]"
proof -
  have "map numero (cartoes vs) = map (\<lambda>x. Suc (fst x)) (enumerate 0 vs)"
    by (simp add: cartoes_def case_prod_beta numero_criarCardResultado)
  also have "\<dots> = map Suc (map fst (enumerate 0 vs))"
    by (simp only: map_map comp_def)
  also have "\<dots> = [1..<Suc (length vs)]"
    by (simp only: map_fst_enumerate map_Suc_upt) simp
  finally show ?thesis .
qed

lemma urls_cartoes: "map url (cartoes vs) = map (\<lambda>v. member v ''url'') vs"
proof -
  have "map url (cartoes vs) = map (\<lambda>x. member (snd x) ''url'') (enumerate 0 vs)"
    by (simp add: cartoes_def case_prod_beta url_criarCardResultado getProp_propriedades)
  also have "\<dots> = map (\<lambda>v. member v ''url'') (map snd (enumerate 0 vs))"
    by (simp only: map_map comp_def)
  finally show ?thesis by (simp only: map_snd_enumerate)
qed

lemma takeWhile_short: "length (takeWhile P xs) < length xs \<or> takeWhile P xs = xs"
  by (induction xs) auto

lemma exibirResultados_mostra:
  assumes "snd (exibirResultados s) = None"
  shows "resultados_container (fst (exibirResultados s)) =
           Some \<lparr>estatisticas =
                   (contar ''valido'' (map propriedades (itens (resultados s))),
                    contar ''invalido'' (map propriedades (itens (resultados s))),
                    contar ''erro'' (map propriedades (itens (resultados s)))),
                 cards = cartoes (itens (resultados s))\<rparr>"
proof (cases "erroFiltrar (resultados s)")
  case (Some m)
  then show ?thesis using assms by (simp add: exibirResultados_def)
next
  case None
  let ?cs = "cartoes (itens (resultados s))"
  have "\<not> length (takeWhile (\<lambda>c. \<not> erroCard c) ?cs) < length ?cs"
    using assms None by (auto simp: exibirResultados_def Let_def split: if_splits)
  then have "takeWhile (\<lambda>c. \<not> erroCard c) ?cs = ?cs"
    using takeWhile_short [of "\<lambda>c. \<not> erroCard c" ?cs] by blast
  then show ?thesis using None by (simp add: exibirResultados_def Let_def)
qed

lemma exibirResultados_sem_erro:
  assumes "erroFiltrar (resultados s) = None"
    and "\<not> list_ex erroCard (cartoes (itens (resultados s)))"
  shows "snd (exibirResultados s) = None"
proof -
  have e: "takeWhile (\<lambda>c. \<not> erroCard c) (cartoes (itens (resultados s))) =
        cartoes (itens (resultados s))"
    using assms(2) by (simp add: takeWhile_eq_all_conv list_ex_iff)
  show ?thesis unfolding exibirResultados_def Let_def e using assms(1) by simp
qed

lemma parse_sample_four:
  "parseDocumentUrls (document_urls paginaQuatro) = [str ''a'', str ''b'', str ''c'', str ''d'']"
  by (simp add: paginaQuatro_def parseDocumentUrls_def trim_def str_def isWhiteSpace_def
      isSeparator_def)

lemma parse_sample_three:
  "parseDocumentUrls (document_urls paginaTres) = [str ''doc-a'', str ''doc-x'', str ''doc-c'']"
  by (simp add: paginaTres_def parseDocumentUrls_def trim_def str_def isWhiteSpace_def
      isSeparator_def)

lemma parse_sample_one:
  "parseDocumentUrls (document_urls paginaCarregada) = [str ''doc-a'']"
  by (simp add: paginaCarregada_def novoValidador_def updateUI_def parseDocumentUrls_def trim_def
      str_def isWhiteSpace_def isSeparator_def)

lemma updateUI_planilhaData [simp]: "planilhaData (updateUI s) = planilhaData s"
  by (simp add: updateUI_def)

lemma updateUI_null: "planilhaData s = JNull \<Longrightarrow> iniciar_disabled (updateUI s)"
  by (simp add: updateUI_def)

lemma carregarPlanilha_sem_url:
  "trim (csv_url s) = [] \<Longrightarrow>
   carregarPlanilha servidor s =
     (showAlert (str ''danger'') (Texto (str ''Por favor, insira a URL da planilha'')) s, [])"
  by (simp add: carregarPlanilha_def)

lemma carregarPlanilha_falha:
  assumes "trim (csv_url s) \<noteq> []"
    and "cargaFalhou (servidor (JObj [(str ''csv_url'', JStr (trim (csv_url s)))]))"
  shows "planilhaData (fst (carregarPlanilha servidor s)) = JNull"
    and "iniciar_disabled (fst (carregarPlanilha servidor s))"
    and "\<not> list_ex (isFetch (str ''/api/processar-documentos'')) (snd (carregarPlanilha servidor s))"
proof -
  let ?r = "servidor (JObj [(str ''csv_url'', JStr (trim (csv_url s)))])"
  have p: "planilhaData (fst (carregarPlanilha servidor s)) = JNull"
    using assms
    by (cases ?r)
       (auto simp: carregarPlanilha_def cargaFalhou_def erroPlanilha_def showAlert_def Let_def
             split: option.splits)
  show "planilhaData (fst (carregarPlanilha servidor s)) = JNull" by (rule p)
  have "fst (carregarPlanilha servidor s) = updateUI (fst (carregarPlanilha servidor s))"
    using assms(1)
    by (cases ?r)
       (auto simp: carregarPlanilha_def updateUI_def Let_def split: option.splits prod.splits)
  then show "iniciar_disabled (fst (carregarPlanilha servidor s))"
    using updateUI_null [OF p] by simp
  show "\<not> list_ex (isFetch (str ''/api/processar-documentos'')) (snd (carregarPlanilha servidor s))"
    using assms(1)
    by (cases ?r)
       (auto simp: carregarPlanilha_def Let_def str_def split: option.splits prod.splits)
qed

lemma passo_semDados:
  assumes "semDados s" and "\<not> recarga a"
  shows "semDados (fst (passo a s)) \<and>
         \<not> list_ex (isFetch (str ''/api/processar-documentos'')) (snd (passo a s))"
proof (cases a)
  case (InputCsv v)
  then show ?thesis using assms by (simp add: semDados_def updateUI_def)
next
  case (InputDocs v)
  then show ?thesis using assms by (simp add: semDados_def updateUI_def)
next
  case (ClickCarregar r)
  show ?thesis
  proof (cases "carregar_disabled s")
    case True
    then show ?thesis using assms ClickCarregar by simp
  next
    case False
    show ?thesis
    proof (cases "trim (csv_url s) = []")
      case True
      then show ?thesis using assms ClickCarregar False
        by (simp add: carregarPlanilha_sem_url semDados_def showAlert_def)
    next
      case ne: False
      have "cargaFalhou r" using assms(2) ClickCarregar by simp
      then show ?thesis
        using carregarPlanilha_falha [of s "\<lambda>body. r", OF ne] ClickCarregar False
        by (simp add: semDados_def)
    qed
  qed
next
  case (ClickIniciar r)
  then show ?thesis using assms by (simp add: semDados_def)
next
  case (ClickDownload x y)
  then show ?thesis using assms
    by (simp add: semDados_def downloadRelatorio_def split: option.splits)
qed

lemma executar_semDados:
  "semDados s \<Longrightarrow> \<not> list_ex recarga acoes \<Longrightarrow>
   semDados (fst (executar acoes s)) \<and>
   \<not> list_ex (isFetch (str ''/api/processar-documentos'')) (snd (executar acoes s))"
proof (induction acoes arbitrary: s)
  case Nil
  then show ?case by simp
next
  case (Cons a acoes)
  have a: "\<not> recarga a" and r: "\<not> list_ex recarga acoes" using Cons.prems(2) by auto
  have 1: "semDados (fst (passo a s))"
    and 2: "\<not> list_ex (isFetch (str ''/api/processar-documentos'')) (snd (passo a s))"
    using passo_semDados [OF Cons.prems(1) a] by auto
  have 3: "semDados (fst (executar acoes (fst (passo a s))))"
    and 4: "\<not> list_ex (isFetch (str ''/api/processar-documentos'')) (snd (executar acoes (fst (passo a s))))"
    using Cons.IH [OF 1 r] by auto
  show ?case using 2 3 4 by (simp add: case_prod_beta Let_def)
qed

lemma log_updateProgress:
  "log_processamento (updateProgress p m s) =
     log_processamento s @
     [\<lparr>className = (if p = 100 then str ''text-success'' else str ''text-light''), message = m\<rparr>]"
  by (simp add: updateProgress_def addLog_def str_def)

lemma log_erroProcessamento:
  "log_processamento (erroProcessamento m s) =
     log_processamento s @
     [\<lparr>className = str ''text-light'', message = msgErro m\<rparr>,
      \<lparr>className = str ''text-danger'', message = msgErro m\<rparr>]"
  by (simp add: erroProcessamento_def addLog_def log_updateProgress)

lemma log_updateUI [simp]: "log_processamento (updateUI s) = log_processamento s"
  by (simp add: updateUI_def)

lemma log_exibirResultados [simp]:
  "log_processamento (fst (exibirResultados s)) = log_processamento s"
  by (simp add: exibirResultados_def Let_def split: option.splits)

lemma resultados_updateUI [simp]: "resultados (updateUI s) = resultados s"
  by (simp add: updateUI_def)

lemma resultados_exibirResultados [simp]: "resultados (fst (exibirResultados s)) = resultados s"
  by (simp add: exibirResultados_def Let_def split: option.splits)

lemma resultados_updateProgress [simp]: "resultados (updateProgress p m s) = resultados s"
  by (simp add: updateProgress_def addLog_def)

lemma resultados_erroProcessamento [simp]: "resultados (erroProcessamento m s) = resultados s"
  by (simp add: erroProcessamento_def addLog_def)

lemma container_updateUI [simp]: "resultados_container (updateUI s) = resultados_container s"
  by (simp add: updateUI_def)

lemma exibirResultados_resultados:
  "resultados s = resultados t \<Longrightarrow> snd (exibirResultados s) = snd (exibirResultados t)"
  "resultados s = resultados t \<Longrightarrow>
   resultados_container (fst (exibirResultados s)) = resultados_container (fst (exibirResultados t))"
  by (simp_all add: exibirResultados_def Let_def split: option.splits)

text \<open>The states of a run that passes the size check, up to the request.\<close>

lemma iniciarValidacao_run:
  assumes "1 \<le> length (parseDocumentUrls (document_urls s))"
    and "length (parseDocumentUrls (document_urls s)) \<le> 3"
  shows "iniciarValidacao servidor s =
     (let documentUrls = parseDocumentUrls (document_urls s);
          s3 = updateProgress 20 msgEnviando
                 ((updateProgress 0 msgIniciando
                    (s\<lparr>secao_progresso := True, secao_resultados := False\<rparr>))
                  \<lparr>iniciar_disabled := True\<rparr>);
          body = corpoProcessar documentUrls (planilhaData s);
          r = (case servidor body of
                  FetchRejected m \<Rightarrow> (erroProcessamento m s3, [ConsoleError m])
                | JsonRejected m \<Rightarrow>
                    (erroProcessamento m (updateProgress 60 msgProcessando s3), [ConsoleError m])
                | Resolved data \<Rightarrow>
                    (let s5 = updateProgress 60 msgProcessando s3 in
                     if data = JNull then
                       (let m = typeErrorRead ''null'' ''success''
                        in (erroProcessamento m s5, [ConsoleError m]))
                     else if truthy (member data ''success'') then
                       (case exibirResultados
                               ((updateProgress 100 msgConcluido s5)
                                \<lparr>resultados := member data ''resultados''\<rparr>) of
                          (s6, None) \<Rightarrow> (s6, [])
                        | (s6, Some m) \<Rightarrow> (erroProcessamento m s6, [ConsoleError m]))
                     else
                       (let m = mensagemErro (member data ''error'') (str ''Erro no processamento'')
                        in (erroProcessamento m s5, [ConsoleError m]))))
      in (updateUI ((fst r)\<lparr>iniciar_disabled := False\<rparr>),
          Fetch (str ''/api/processar-documentos'') body # snd r))"
proof -
  have "parseDocumentUrls (document_urls s) \<noteq> []" using assms(1) by auto
  then show ?thesis using assms(2) by (simp add: iniciarValidacao_def Let_def case_prod_beta)
qed

lemma iniciarValidacao_resolved:
  assumes "1 \<le> length (parseDocumentUrls (document_urls s))"
    and "length (parseDocumentUrls (document_urls s)) \<le> 3"
    and "servidor (corpoProcessar (parseDocumentUrls (document_urls s)) (planilhaData s)) = Resolved d"
  shows "fst (iniciarValidacao servidor s) =
     updateUI
       ((if d = JNull then erroProcessamento (typeErrorRead ''null'' ''success'') (antes s)
         else if truthy (member d ''success'') then
           (case snd (exibirResultados
                        ((updateProgress 100 msgConcluido (antes s))
                         \<lparr>resultados := member d ''resultados''\<rparr>)) of
              None \<Rightarrow> fst (exibirResultados
                        ((updateProgress 100 msgConcluido (antes s))
                         \<lparr>resultados := member d ''resultados''\<rparr>))
            | Some m \<Rightarrow> erroProcessamento m (fst (exibirResultados
                        ((updateProgress 100 msgConcluido (antes s))
                         \<lparr>resultados := member d ''resultados''\<rparr>))))
         else erroProcessamento (mensagemErro (member d ''error'') (str ''Erro no processamento''))
                (antes s))
        \<lparr>iniciar_disabled := False\<rparr>)"
  unfolding iniciarValidacao_run [OF assms(1,2)] Let_def assms(3) antes_def
  by (simp add: case_prod_beta split: option.splits prod.splits)

lemma iniciarValidacao_rejected:
  assumes "1 \<le> length (parseDocumentUrls (document_urls s))"
    and "length (parseDocumentUrls (document_urls s)) \<le> 3"
  shows "servidor (corpoProcessar (parseDocumentUrls (document_urls s)) (planilhaData s)) =
           FetchRejected m \<Longrightarrow>
         fst (iniciarValidacao servidor s) =
           updateUI
             ((erroProcessamento m
                 (updateProgress 20 msgEnviando
                    ((updateProgress 0 msgIniciando
                        (s\<lparr>secao_progresso := True, secao_resultados := False\<rparr>))
                     \<lparr>iniciar_disabled := True\<rparr>)))
              \<lparr>iniciar_disabled := False\<rparr>)"
    and "servidor (corpoProcessar (parseDocumentUrls (document_urls s)) (planilhaData s)) =
           JsonRejected m \<Longrightarrow>
         fst (iniciarValidacao servidor s) =
           updateUI ((erroProcessamento m (antes s))\<lparr>iniciar_disabled := False\<rparr>)"
  unfolding iniciarValidacao_run [OF assms(1,2)] Let_def antes_def by simp_all

lemma log_antes:
  "log_processamento (antes s) =
     log_processamento s @
     [\<lparr>className = str ''text-light'', message = msgIniciando\<rparr>,
      \<lparr>className = str ''text-light'', message = msgEnviando\<rparr>,
      \<lparr>className = str ''text-light'', message = msgProcessando\<rparr>]"
  by (simp add: antes_def log_updateProgress)
section \<open>Properties of the processing\<close>

lemma fold_slots:
  "length slots = n \<Longrightarrow>
   length (fold (\<lambda>(i, r) sl. sl[i := Some r]) (map (\<lambda>i. (i, f i)) order) slots) = n \<and>
   (\<forall>j<n. fold (\<lambda>(i, r) sl. sl[i := Some r]) (map (\<lambda>i. (i, f i)) order) slots ! j =
            (if j \<in> set order then Some (f j) else slots ! j))"
proof (induction order arbitrary: slots)
  case Nil
  then show ?case by simp
next
  case (Cons a order)
  have l: "length (slots[a := Some (f a)]) = n" using Cons.prems by simp
  show ?case
    using Cons.IH [OF l] Cons.prems by (auto simp: nth_list_update)
qed

lemma collectSlots_complete:
  assumes "set order = {0..<n}"
  shows "collectSlots n (map (\<lambda>i. (i, f i)) order) = map (\<lambda>i. Some (f i)) [0..<n]"
proof (rule nth_equalityI)
  have l: "length (replicate n (None :: 'a option)) = n" by simp
  show "length (collectSlots n (map (\<lambda>i. (i, f i)) order)) = length (map (\<lambda>i. Some (f i)) [0..<n])"
    using fold_slots [OF l, of f order] by (simp add: collectSlots_def)
  fix j assume "j < length (collectSlots n (map (\<lambda>i. (i, f i)) order))"
  then have j: "j < n" using fold_slots [OF l, of f order] by (simp add: collectSlots_def)
  then have "j \<in> set order" using assms by simp
  then show "collectSlots n (map (\<lambda>i. (i, f i)) order) ! j = map (\<lambda>i. Some (f i)) [0..<n] ! j"
    using fold_slots [OF l, of f order] j by (simp add: collectSlots_def)
qed

lemma runBatch_results:
  assumes "locators \<noteq> []" and "length locators \<le> 3" and "set order = {0..<length locators}"
  shows "runBatch env order reference locators =
           Inr \<lparr>timestamp = now env, totalDocuments = length locators,
                validCount = countStatus valid (map (\<lambda>u. process env u reference) locators),
                invalidCount = countStatus invalid (map (\<lambda>u. process env u reference) locators),
                errorCount = countStatus error (map (\<lambda>u. process env u reference) locators),
                results = map (\<lambda>u. process env u reference) locators\<rparr>"
proof -
  let ?f = "\<lambda>i. process env (locators ! i) reference"
  have "map the (filter (\<lambda>x. x \<noteq> None) (map (\<lambda>i. Some (?f i)) [0..<length locators])) =
        map ?f [0..<length locators]"
    by (simp add: filter_map comp_def)
  also have "\<dots> = map (\<lambda>u. process env u reference) (map (\<lambda>i. locators ! i) [0..<length locators])"
    by (simp only: map_map comp_def)
  also have "\<dots> = map (\<lambda>u. process env u reference) locators"
    by (simp only: map_nth)
  finally have r: "map the (filter (\<lambda>x. x \<noteq> None)
       (collectSlots (length locators) (map (\<lambda>i. (i, ?f i)) order))) =
     map (\<lambda>u. process env u reference) locators"
    by (simp only: collectSlots_complete [OF assms(3)])
  show ?thesis
    using assms(1,2) unfolding runBatch_def Let_def r by simp
qed

lemma strings_JStr [simp]: "strings (map JStr us) = us"
  by (induction us) simp_all

lemma member_corpo_urls:
  "member (corpoProcessar us p) ''document_urls'' = Some (JArr (map JStr us))"
  by (simp add: corpoProcessar_def str_def)

lemma member_corpo_planilha:
  "member (corpoProcessar us p) ''planilha_data'' = Some p"
  by (simp add: corpoProcessar_def str_def)

lemma processarDocumentos_page:
  assumes "us \<noteq> []" and "length us \<le> 3" and "set order = {0..<length us}"
  shows "processarDocumentos env order (corpoProcessar us p) =
           Resolved (JObj [(str ''success'', JBool True),
                           (str ''resultados'',
                              JArr (map (\<lambda>u. JObj (encodeResult (process env u (loadReference env p)))) us))])"
  unfolding processarDocumentos_def Let_def member_corpo_urls member_corpo_planilha
  by (simp add: runBatch_results [OF assms] comp_def)

lemma hasStatus_encodeResult:
  "hasStatus k (encodeResult r) \<longleftrightarrow> str k = encodeStatus (docStatus r)"
  by (auto simp: hasStatus_def getProp_def encodeResult_def str_def)

lemma url_encodeResult: "getProp (encodeResult r) ''url'' = Some (JStr (locator r))"
  by (simp add: getProp_def encodeResult_def)

lemma contar_encoded:
  "contar ''valido'' (map encodeResult rs) + contar ''invalido'' (map encodeResult rs) +
   contar ''erro'' (map encodeResult rs) = length rs"
proof (induction rs)
  case Nil
  then show ?case by (simp add: contar_def)
next
  case (Cons r rs)
  have "(if hasStatus ''valido'' (encodeResult r) then 1 else 0) +
        (if hasStatus ''invalido'' (encodeResult r) then 1 else 0) +
        (if hasStatus ''erro'' (encodeResult r) then 1 else (0::nat)) = 1"
    by (cases "docStatus r") (simp_all add: hasStatus_encodeResult encodeStatus_def str_def)
  then show ?case using Cons by (auto simp: contar_def split: if_splits)
qed

lemma locator_process [simp]: "locator (process env u reference) = u"
  by (simp add: process_def Let_def split: sum.splits)

lemma propriedades_JObj: "map propriedades (map (\<lambda>x. JObj (f x)) xs) = map f xs"
  by (induction xs) simp_all

lemma erroFiltrar_objetos: "erroFiltrar (Some (JArr (map (\<lambda>x. JObj (f x)) xs))) = None"
  by (auto simp: erroFiltrar_def)

lemma naoConverte_encodeOpt [simp]: "\<not> naoConverte (orElse (Some (encodeOpt v)) (JStr d))"
  by (cases v) (simp_all add: orElse_def encodeOpt_def)

lemma naoConverte_encodeDate [simp]:
  "\<not> naoConverte (orElse (Some (case v of None \<Rightarrow> JNull | Some d \<Rightarrow> encodeDate d)) (JStr d'))"
  by (cases v) (simp_all add: orElse_def encodeDate_def)

lemma naoConverte_default [simp]: "\<not> naoConverte (orElse None (JStr d))"
  by (simp add: orElse_def)

lemma erro_encodeResult:
  "getProp (encodeResult r) ''erro'' = map_option JStr (errorDetail r)"
  by (cases "errorDetail r") (simp_all add: encodeResult_def getProp_def str_def)

lemma dados_encodeResult:
  "orElse (getProp (encodeResult r) ''dados_extraidos'') (JObj []) =
     (case extractedFields r of
        None \<Rightarrow> JObj []
      | Some f \<Rightarrow>
          JObj [(str ''cnpj'', encodeOpt (taxId f)),
                (str ''representante_legal'', encodeOpt (representativeName f)),
                (str ''data_documento'',
                   (case documentDate f of None \<Rightarrow> JNull | Some d \<Rightarrow> encodeDate d)),
                (str ''nome_especifico_encontrado'', encodeOpt (specificNameFound f))])"
  by (cases "errorDetail r"; cases "extractedFields r")
     (simp_all add: encodeResult_def getProp_def str_def orElse_def)

lemma receita_encodeResult:
  "orElse (getProp (encodeResult r) ''dados_receita'') (JObj []) =
     (case registryRecord r of
        None \<Rightarrow> JObj []
      | Some g \<Rightarrow>
          JObj [(str ''razao_social'', encodeOpt (legalName g)),
                (str ''situacao_cadastral'', encodeOpt (registrationStatus g)),
                (str ''logradouro'', encodeOpt (address g))])"
  by (cases "errorDetail r"; cases "registryRecord r")
     (simp_all add: encodeResult_def getProp_def str_def orElse_def)

lemma erroCard_encodeResult: "\<not> erroCard (criarCardResultado (encodeResult r) n)"
proof -
  have c: "\<not> algumNaoConverte
       (case corpo (criarCardResultado (encodeResult r) n) of
          ErroAlerta v \<Rightarrow> [v] | Tabelas xs ys zs \<Rightarrow> xs @ ys)"
  proof (cases "truthy (getProp (encodeResult r) ''erro'')")
    case True
    then show ?thesis
      by (cases "errorDetail r") (simp_all add: criarCardResultado_def erro_encodeResult)
  next
    case False
    then show ?thesis
      unfolding criarCardResultado_def Let_def dados_encodeResult receita_encodeResult
      by (cases "extractedFields r"; cases "registryRecord r")
         (simp_all add: naoEncontrado_def naoEncontrada_def naoConsultado_def str_def)
  qed
  have "url (criarCardResultado (encodeResult r) n) = Some (JStr (locator r))"
    by (simp add: criarCardResultado_def url_encodeResult)
  then show ?thesis using c by (simp add: erroCard_def interpolados_def)
qed

lemma cartoes_encoded: "\<not> list_ex erroCard (cartoes (map (\<lambda>x. JObj (encodeResult (f x))) xs))"
  by (auto simp: cartoes_def list_ex_iff in_set_enumerate_eq erroCard_encodeResult)

text \<open>The page after a run against the processing: the stored results and the panel.\<close>

lemma paginaApos_run:
  assumes "1 \<le> length (parseDocumentUrls (document_urls s))"
    and "length (parseDocumentUrls (document_urls s)) \<le> 3"
    and "set order = {0..<length (parseDocumentUrls (document_urls s))}"
  shows "resultados (paginaApos env order s) =
           Some (JArr (map (\<lambda>u. JObj (encodeResult (process env u (loadReference env (planilhaData s)))))
                        (parseDocumentUrls (document_urls s))))"
    and "resultados_container (paginaApos env order s) =
           Some \<lparr>estatisticas =
                   (contar ''valido'' (map propriedades (itens (resultados (paginaApos env order s)))),
                    contar ''invalido'' (map propriedades (itens (resultados (paginaApos env order s)))),
                    contar ''erro'' (map propriedades (itens (resultados (paginaApos env order s))))),
                 cards = cartoes (itens (resultados (paginaApos env order s)))\<rparr>"
proof -
  let ?us = "parseDocumentUrls (document_urls s)"
  let ?vs = "map (\<lambda>u. JObj (encodeResult (process env u (loadReference env (planilhaData s))))) ?us"
  let ?d = "JObj [(str ''success'', JBool True), (str ''resultados'', JArr ?vs)]"
  have ne: "?us \<noteq> []" using assms(1) by auto
  define t where "t = (updateProgress 100 msgConcluido (antes s))\<lparr>resultados := Some (JArr ?vs)\<rparr>"
  have rt: "resultados t = Some (JArr ?vs)" by (simp add: t_def)
  have p: "processarDocumentos env order (corpoProcessar ?us (planilhaData s)) = Resolved ?d"
    using processarDocumentos_page [OF ne assms(2,3)] by simp
  have m: "truthy (member ?d ''success'')" "member ?d ''resultados'' = Some (JArr ?vs)"
    by (simp_all add: str_def)
  have ok: "snd (exibirResultados t) = None"
    by (rule exibirResultados_sem_erro)
       (simp_all only: rt erroFiltrar_objetos itens.simps cartoes_encoded not_False_eq_True)
  have e: "paginaApos env order s = updateUI ((fst (exibirResultados t))\<lparr>iniciar_disabled := False\<rparr>)"
    unfolding paginaApos_def
      iniciarValidacao_resolved [of s "processarDocumentos env order" ?d, OF assms(1,2) p] m
    using ok unfolding t_def by simp
  show r: "resultados (paginaApos env order s) = Some (JArr ?vs)"
    unfolding e using rt by simp
  have "resultados_container (paginaApos env order s) = resultados_container (fst (exibirResultados t))"
    unfolding e by simp
  then show "resultados_container (paginaApos env order s) =
           Some \<lparr>estatisticas =
                   (contar ''valido'' (map propriedades (itens (resultados (paginaApos env order s)))),
                    contar ''invalido'' (map propriedades (itens (resultados (paginaApos env order s)))),
                    contar ''erro'' (map propriedades (itens (resultados (paginaApos env order s))))),
                 cards = cartoes (itens (resultados (paginaApos env order s)))\<rparr>"
    unfolding r using exibirResultados_mostra [OF ok] rt by simp
qed

lemma process_extracted:
  "extractFields env loc = Inr f \<Longrightarrow>
   process env loc reference =
     \<lparr>locator = loc,
      docStatus =
        (if allFlags (evaluate env f reference
              (case taxId f of None \<Rightarrow> None
               | Some t \<Rightarrow> (case lookup env t of Inl e \<Rightarrow> None | Inr r \<Rightarrow> Some r)))
         then valid else invalid),
      extractedFields = Some f,
      registryRecord =
        (case taxId f of None \<Rightarrow> None
         | Some t \<Rightarrow> (case lookup env t of Inl e \<Rightarrow> None | Inr r \<Rightarrow> Some r)),
      validationFlags =
        evaluate env f reference
          (case taxId f of None \<Rightarrow> None
           | Some t \<Rightarrow> (case lookup env t of Inl e \<Rightarrow> None | Inr r \<Rightarrow> Some r)),
      errorDetail = None\<rparr>"
  by (simp add: process_def Let_def)

section \<open>Properties of the JSON text\<close>

lemma small_nat: "d < 10 \<Longrightarrow> d = 0 \<or> d = 1 \<or> d = 2 \<or> d = 3 \<or> d = 4 \<or> d = 5 \<or> d = 6 \<or> d = 7 \<or> d = 8 \<or> d = (9::nat)"
  by arith

lemma digit_char:
  assumes "d < 10"
  shows "isDigit (0x30 + of_nat d)"
    and "(0x30 + of_nat d :: jschar) = 0x30 \<longleftrightarrow> d = 0"
  using small_nat [OF assms] by (auto simp: isDigit_def)

lemma digits_all: "c \<in> set (digits n) \<Longrightarrow> isDigit c"
proof (induction n arbitrary: c rule: digits.induct)
  case (1 n)
  show ?case
  proof (cases "n < 10")
    case True
    then show ?thesis using "1.prems" digit_char(1) [of n] by (subst (asm) digits.simps) simp
  next
    case False
    have "n mod 10 < 10" by simp
    then have "isDigit (0x30 + of_nat (n mod 10))" by (rule digit_char(1))
    then show ?thesis
      using False "1.prems" "1.IH" [OF False] by (subst (asm) digits.simps) auto
  qed
qed

lemma digits_not_Nil: "digits n \<noteq> []"
  by (subst digits.simps) simp

lemma digits_leading:
  "hd (digits n) = 0x30 \<Longrightarrow> length (digits n) = 1"
proof (induction n rule: digits.induct)
  case (1 n)
  show ?case
  proof (cases "n < 10")
    case True
    then show ?thesis by (subst digits.simps) simp
  next
    case False
    then have d: "digits n = digits (n div 10) @ [0x30 + of_nat (n mod 10)]"
      by (subst digits.simps) simp
    then have "hd (digits (n div 10)) = 0x30"
      using "1.prems" digits_not_Nil [of "n div 10"] by simp
    then have l: "length (digits (n div 10)) = 1" using "1.IH" [OF False] by simp
    have "n div 10 < 10"
    proof (rule ccontr)
      assume "\<not> n div 10 < 10"
      then have "digits (n div 10) = digits (n div 10 div 10) @ [0x30 + of_nat (n div 10 mod 10)]"
        by (subst digits.simps) simp
      then show False using l digits_not_Nil [of "n div 10 div 10"] by (cases "digits (n div 10 div 10)") auto
    qed
    then have "digits (n div 10) = [0x30 + of_nat (n div 10)]" by (subst digits.simps) simp
    then have "(0x30 + of_nat (n div 10) :: jschar) = 0x30"
      using \<open>hd (digits (n div 10)) = 0x30\<close> by simp
    then have "n div 10 = 0" using digit_char(2) [OF \<open>n div 10 < 10\<close>] by simp
    then show ?thesis using False by simp
  qed
qed

lemma validExp_chars: "validExp es \<Longrightarrow> list_all isNumberChar es"
proof (cases es)
  case Nil
  then show ?thesis by simp
next
  case (Cons c r)
  assume v: "validExp es"
  then have c: "isNumberChar c" using Cons by (auto simp: validExp_def isNumberChar_def)
  have "list_all isNumberChar r"
  proof (cases "r \<noteq> [] \<and> (hd r = 0x2B \<or> hd r = 0x2D)")
    case True
    then obtain a r' where r: "r = a # r'" and a: "a = 0x2B \<or> a = 0x2D" by (cases r) auto
    then have "list_all isDigit r'" using v Cons by (auto simp: validExp_def Let_def)
    then show ?thesis using r a by (auto simp: list_all_iff isNumberChar_def)
  next
    case False
    then have "list_all isDigit r" using v Cons by (auto simp: validExp_def Let_def)
    then show ?thesis by (auto simp: list_all_iff isNumberChar_def)
  qed
  then show ?thesis using c Cons by simp
qed

lemma takeWhile_digits_chars: "list_all isNumberChar (takeWhile isDigit xs)"
  by (induction xs) (simp_all add: isNumberChar_def)

lemma validNumber_chars:
  assumes "validNumber t"
  shows "list_all isNumberChar t"
proof -
  define u where "u = (if t \<noteq> [] \<and> hd t = 0x2D then tl t else t)"
  define r where "r = dropWhile isDigit u"
  define fp where "fp = (if r \<noteq> [] \<and> hd r = 0x2E then 0x2E # takeWhile isDigit (tl r) else [])"
  have "validExp (drop (length fp) r)"
    using assms unfolding validNumber_def Let_def u_def r_def fp_def by blast
  then have ep: "list_all isNumberChar (drop (length fp) r)" by (rule validExp_chars)
  have r: "list_all isNumberChar r"
  proof (cases "r \<noteq> [] \<and> hd r = 0x2E")
    case True
    then obtain r' where r': "r = 0x2E # r'" by (cases r) auto
    have "fp = 0x2E # takeWhile isDigit r'" using True r' by (simp add: fp_def)
    then have "drop (length fp) r = dropWhile isDigit r'" using r' by (simp add: dropWhile_eq_drop)
    then have "list_all isNumberChar (dropWhile isDigit r')" using ep by simp
    then have "list_all isNumberChar (takeWhile isDigit r' @ dropWhile isDigit r')"
      using takeWhile_digits_chars [of r'] by (simp only: list_all_append)
    then show ?thesis using r' by (simp add: isNumberChar_def)
  next
    case False
    then have "fp = []" by (simp add: fp_def)
    then show ?thesis using ep by simp
  qed
  have "list_all isNumberChar (takeWhile isDigit u @ dropWhile isDigit u)"
    using takeWhile_digits_chars [of u] r unfolding r_def by (simp only: list_all_append)
  then have u: "list_all isNumberChar u" by simp
  show ?thesis
  proof (cases "t \<noteq> [] \<and> hd t = 0x2D")
    case True
    then obtain t' where "t = 0x2D # t'" by (cases t) auto
    then show ?thesis using u by (simp add: u_def isNumberChar_def)
  next
    case False
    then have "u = t" unfolding u_def by auto
    then show ?thesis using u by simp
  qed
qed

lemma validNumber_start:
  assumes "validNumber t"
  shows "\<exists>c cs. t = c # cs \<and> (c = 0x2D \<or> isDigit c)"
proof (cases "t \<noteq> [] \<and> hd t = 0x2D")
  case True
  then show ?thesis by (cases t) auto
next
  case False
  then have "takeWhile isDigit t \<noteq> []"
    using assms unfolding validNumber_def Let_def validInt_def by auto
  then show ?thesis by (cases t) (auto split: if_splits)
qed

lemma validNumber_digits: "validNumber (digits n)"
proof -
  obtain c cs where d: "digits n = c # cs"
    using digits_not_Nil [of n] by (cases "digits n") auto
  then have "isDigit c" using digits_all [of c n] by simp
  then have "\<not> (digits n \<noteq> [] \<and> hd (digits n) = 0x2D)" using d by (auto simp: isDigit_def)
  then have m: "(if digits n \<noteq> [] \<and> hd (digits n) = 0x2D then tl (digits n) else digits n) = digits n"
    by auto
  have a: "list_all isDigit (digits n)" using digits_all [of _ n] by (simp add: list_all_iff)
  then have t: "takeWhile isDigit (digits n) = digits n" "dropWhile isDigit (digits n) = []"
    by (simp_all add: takeWhile_eq_all_conv list_all_iff)
  have "validInt (digits n)"
    using a digits_not_Nil [of n] digits_leading [of n] by (simp add: validInt_def)
  then show ?thesis
    unfolding validNumber_def Let_def m t by (simp add: validFrac_def validExp_def)
qed

lemma parseNumber_text:
  assumes "validNumber t" and "okRest r"
  shows "parseNumber (t @ r) = Some (t, r)"
proof -
  have a: "\<forall>c\<in>set t. isNumberChar c"
    using validNumber_chars [OF assms(1)] by (simp add: list_all_iff)
  have t: "takeWhile isNumberChar (t @ r) = t"
  proof (cases r)
    case Nil
    then show ?thesis using a by (simp add: takeWhile_eq_all_conv)
  next
    case (Cons b bs)
    then have "\<not> isNumberChar b" using assms(2) by (simp add: okRest_def)
    then show ?thesis using Cons a by (simp add: takeWhile_tail)
  qed
  have d: "dropWhile isNumberChar (t @ r) = r"
  proof (cases r)
    case Nil
    then show ?thesis using a by simp
  next
    case (Cons b bs)
    then have "\<not> isNumberChar b" using assms(2) by (simp add: okRest_def)
    then show ?thesis using Cons a by (simp add: dropWhile_append2)
  qed
  show ?thesis unfolding parseNumber_def Let_def t d using assms(1) by simp
qed

lemma small_word:
  assumes "(d :: jschar) < 0x10"
  shows "d = 0 \<or> d = 1 \<or> d = 2 \<or> d = 3 \<or> d = 4 \<or> d = 5 \<or> d = 6 \<or> d = 7 \<or> d = 8 \<or> d = 9 \<or>
         d = 10 \<or> d = 11 \<or> d = 12 \<or> d = 13 \<or> d = 14 \<or> d = 15"
proof -
  have "unat d < 16" using assms by (simp add: word_less_nat_alt)
  then have "unat d = 0 \<or> unat d = 1 \<or> unat d = 2 \<or> unat d = 3 \<or> unat d = 4 \<or> unat d = 5 \<or>
     unat d = 6 \<or> unat d = 7 \<or> unat d = 8 \<or> unat d = 9 \<or> unat d = 10 \<or> unat d = 11 \<or>
     unat d = 12 \<or> unat d = 13 \<or> unat d = 14 \<or> unat d = 15"
    by arith
  then show ?thesis by (simp add: word_unat_eq_iff)
qed


lemma hexValue_hexDigit: "d < 0x10 \<Longrightarrow> hexValue (hexDigit d) = Some d"
proof -
  assume "d < 0x10"
  then consider "d = 0" | "d = 1" | "d = 2" | "d = 3" | "d = 4" | "d = 5" | "d = 6" | "d = 7"
    | "d = 8" | "d = 9" | "d = 10" | "d = 11" | "d = 12" | "d = 13" | "d = 14" | "d = 15"
    using small_word [of d] by blast
  then show ?thesis
    by cases (simp_all add: hexValue_def hexDigit_def)
qed

lemma nibble_nat:
  "((n div 4096 * 16 + n div 256 mod 16) * 16 + n div 16 mod 16) * 16 + n mod 16 = (n::nat)"
proof -
  have a: "n div 256 = n div 16 div 16" by (simp add: div_mult2_eq)
  have b: "n div 4096 = n div 16 div 16 div 16" by (simp add: div_mult2_eq)
  have 1: "n div 16 div 16 div 16 * 16 + n div 16 div 16 mod 16 = n div 16 div 16"
    by (rule div_mult_mod_eq)
  have 2: "n div 16 div 16 * 16 + n div 16 mod 16 = n div 16"
    by (rule div_mult_mod_eq)
  have 3: "n div 16 * 16 + n mod 16 = n"
    by (rule div_mult_mod_eq)
  show ?thesis unfolding a b 1 2 3 ..
qed


lemma nibble_bounds:
  "(c :: jschar) div 0x1000 < 0x10" "c div 0x100 mod 0x10 < 0x10" "c div 0x10 mod 0x10 < 0x10"
  "c mod 0x10 < 0x10"
proof -
  have "unat c < 2 ^ 16" using unsigned_less [of c, where 'a = nat] by simp
  then have "unat c < 16 * 4096" by simp
  then have "unat c div 4096 < 16" by (simp only: div_less_iff_less_mult zero_less_numeral)
  then show "c div 0x1000 < 0x10" by (simp add: word_less_nat_alt unat_div)
  show "c div 0x100 mod 0x10 < 0x10" by (simp add: word_less_nat_alt unat_div unat_mod)
  show "c div 0x10 mod 0x10 < 0x10" by (simp add: word_less_nat_alt unat_div unat_mod)
  show "c mod 0x10 < 0x10" by (simp add: word_less_nat_alt unat_mod)
qed


lemma nibbles:
  "((c div 0x1000 * 16 + c div 0x100 mod 0x10) * 16 + c div 0x10 mod 0x10) * 16 + c mod 0x10 =
     (c :: jschar)"
proof -
  let ?n = "unat c"
  have d1: "c div 0x1000 = of_nat (?n div 4096)" by (simp add: word_arith_nat_div)
  have d2: "c div 0x100 mod 0x10 = of_nat (?n div 256 mod 16)"
    by (simp add: word_arith_nat_mod [of "c div 0x100"] unat_div)
  have d3: "c div 0x10 mod 0x10 = of_nat (?n div 16 mod 16)"
    by (simp add: word_arith_nat_mod [of "c div 0x10"] unat_div)
  have d4: "c mod 0x10 = of_nat (?n mod 16)" by (simp add: word_arith_nat_mod)
  have "((of_nat (?n div 4096) * 16 + of_nat (?n div 256 mod 16)) * 16 + of_nat (?n div 16 mod 16)) * 16
          + of_nat (?n mod 16) =
        (of_nat (((?n div 4096 * 16 + ?n div 256 mod 16) * 16 + ?n div 16 mod 16) * 16 + ?n mod 16)
          :: jschar)"
    by (simp only: of_nat_add of_nat_mult of_nat_numeral)
  also have "\<dots> = of_nat ?n" by (simp only: nibble_nat)
  also have "\<dots> = c" by simp
  finally show ?thesis unfolding d1 d2 d3 d4 .
qed

lemma parseChars_quote: "parseChars (0x22 # r) = Some ([], r)"
  by simp

lemma parseChars_u:
  "hexValue h3 = Some a \<Longrightarrow> hexValue h2 = Some b \<Longrightarrow> hexValue h1 = Some c \<Longrightarrow>
   hexValue h0 = Some d \<Longrightarrow>
   parseChars (0x5C # 0x75 # h3 # h2 # h1 # h0 # r) =
     (case parseChars r of
        None \<Rightarrow> None
      | Some (x, r') \<Rightarrow> Some ((((a * 16 + b) * 16 + c) * 16 + d) # x, r'))"
  by simp

lemma parseChars_escape:
  "e \<noteq> 0x75 \<Longrightarrow> unescape e = Some u \<Longrightarrow>
   parseChars (0x5C # e # r) =
     (case parseChars r of None \<Rightarrow> None | Some (x, r') \<Rightarrow> Some (u # x, r'))"
  by simp

lemma parseChars_raw:
  "c \<noteq> 0x22 \<Longrightarrow> c \<noteq> 0x5C \<Longrightarrow> \<not> c < 0x20 \<Longrightarrow>
   parseChars (c # r) = (case parseChars r of None \<Rightarrow> None | Some (x, r') \<Rightarrow> Some (c # x, r'))"
  by simp

declare parseChars.simps [simp del]

lemma parseChars_unicodeEscape:
  "parseChars (unicodeEscape c @ r) =
     (case parseChars r of None \<Rightarrow> None | Some (x, r') \<Rightarrow> Some (c # x, r'))"
proof -
  have "parseChars (0x5C # 0x75 # hexDigit (c div 0x1000) # hexDigit (c div 0x100 mod 0x10) #
          hexDigit (c div 0x10 mod 0x10) # hexDigit (c mod 0x10) # r) =
     (case parseChars r of
        None \<Rightarrow> None
      | Some (x, r') \<Rightarrow>
          Some ((((c div 0x1000 * 16 + c div 0x100 mod 0x10) * 16 + c div 0x10 mod 0x10) * 16 +
                 c mod 0x10) # x, r'))"
    by (rule parseChars_u) (rule hexValue_hexDigit, rule nibble_bounds)+
  then show ?thesis
    unfolding nibbles by (simp only: unicodeEscape_def append_Cons append_Nil)
qed

lemma surrogate_raw:
  "isLeadingSurrogate c \<or> isTrailingSurrogate c \<Longrightarrow> c \<noteq> 0x22 \<and> c \<noteq> 0x5C \<and> \<not> c < 0x20"
  by (auto simp: isLeadingSurrogate_def isTrailingSurrogate_def word_le_nat_alt word_less_nat_alt)

lemma parseChars_quoteUnit:
  "parseChars (quoteUnit c @ r) =
     (case parseChars r of None \<Rightarrow> None | Some (x, r') \<Rightarrow> Some (c # x, r'))"
proof -
  consider "c = 0x08" | "c = 0x09" | "c = 0x0A" | "c = 0x0C" | "c = 0x0D" | "c = 0x22" | "c = 0x5C"
    | "c \<noteq> 0x08" "c \<noteq> 0x09" "c \<noteq> 0x0A" "c \<noteq> 0x0C" "c \<noteq> 0x0D" "c \<noteq> 0x22" "c \<noteq> 0x5C"
      "c < 0x20 \<or> isLeadingSurrogate c \<or> isTrailingSurrogate c"
    | "c \<noteq> 0x08" "c \<noteq> 0x09" "c \<noteq> 0x0A" "c \<noteq> 0x0C" "c \<noteq> 0x0D" "c \<noteq> 0x22" "c \<noteq> 0x5C"
      "\<not> (c < 0x20 \<or> isLeadingSurrogate c \<or> isTrailingSurrogate c)"
    by blast
  then show ?thesis
  proof cases
    case 8
    then have "quoteUnit c = unicodeEscape c" by (simp add: quoteUnit_def)
    then show ?thesis by (simp only: parseChars_unicodeEscape)
  next
    case 9
    then have "quoteUnit c = [c]" by (simp add: quoteUnit_def)
    then show ?thesis using 9 by (simp add: parseChars_raw)
  qed (auto simp add: quoteUnit_def unescape_def parseChars_escape split: option.splits)
qed

lemma parseChars_quoteChars: "parseChars (quoteChars s @ 0x22 # r) = Some (s, r)"
proof (induction s rule: quoteChars.induct)
  case 1
  then show ?case by (simp add: parseChars_quote)
next
  case (2 c)
  have "parseChars (quoteUnit c @ 0x22 # r) = Some ([c], r)"
    by (simp add: parseChars_quoteUnit parseChars_quote)
  then show ?case by simp
next
  case (3 c d cs)
  show ?case
  proof (cases "isLeadingSurrogate c \<and> isTrailingSurrogate d")
    case True
    have "parseChars (c # d # quoteChars cs @ 0x22 # r) = Some (c # d # cs, r)"
      using surrogate_raw [of c] surrogate_raw [of d] "3.IH"(1) [OF True] True
      by (simp add: parseChars_raw)
    then show ?thesis using True by simp
  next
    case False
    have "parseChars (quoteUnit c @ quoteChars (d # cs) @ 0x22 # r) = Some (c # d # cs, r)"
      using "3.IH"(2) [OF False] by (simp only: parseChars_quoteUnit) simp
    then show ?thesis using False by (simp only: quoteChars.simps if_False append_assoc)
  qed
qed

lemma parseChars_QuoteJSONString:
  "\<exists>cs. QuoteJSONString s @ r = 0x22 # cs \<and> parseChars cs = Some (s, r)"
  using parseChars_quoteChars [of s r] by (simp add: QuoteJSONString_def)

lemma startsValue_facts:
  "startsValue c \<Longrightarrow> \<not> isJsonWs c \<and> c \<noteq> 0x5D \<and> c \<noteq> 0x7D \<and> c \<noteq> 0x2C"
  by (auto simp: startsValue_def isJsonWs_def isDigit_def)

lemma ws_indent: "dropWhile isJsonWs (indent k @ s) = dropWhile isJsonWs s"
  by (rule dropWhile_append2) (simp add: indent_def isJsonWs_def)

lemma ws_newline_indent: "dropWhile isJsonWs (0x0A # indent k @ s) = dropWhile isJsonWs s"
  using ws_indent [of k s] by (simp add: isJsonWs_def)

lemma ws_start: "startsValue c \<Longrightarrow> dropWhile isJsonWs (c # s) = c # s"
  using startsValue_facts [of c] by simp

lemma parseValue_ws:
  "dropWhile isJsonWs s = dropWhile isJsonWs s' \<Longrightarrow> parseValue n s = parseValue n s'"
  by (cases n) simp_all

lemma parseElements_ws:
  "dropWhile isJsonWs s = dropWhile isJsonWs s' \<Longrightarrow> parseElements n s = parseElements n s'"
  by (cases n) (simp_all add: parseValue_ws [of s s'])

lemma parseMembers_ws:
  "dropWhile isJsonWs s = dropWhile isJsonWs s' \<Longrightarrow> parseMembers n s = parseMembers n s'"
  by (cases n) simp_all

lemma pv_null: "parseValue (Suc n) (str ''null'' @ r) = Some (JNull, r)"
  by (simp add: str_def isJsonWs_def)

lemma pv_true: "parseValue (Suc n) (str ''true'' @ r) = Some (JBool True, r)"
  by (simp add: str_def isJsonWs_def)

lemma pv_false: "parseValue (Suc n) (str ''false'' @ r) = Some (JBool False, r)"
  by (simp add: str_def isJsonWs_def)

lemma pv_str: "parseValue (Suc n) (QuoteJSONString s @ r) = Some (JStr s, r)"
  using parseChars_quoteChars [of s r] by (simp add: QuoteJSONString_def isJsonWs_def)

lemma pv_num:
  assumes "validNumber t" and "okRest r"
  shows "parseValue (Suc n) (t @ r) = Some (JNum t, r)"
proof -
  obtain c cs where d: "t = c # cs" and c: "c = 0x2D \<or> isDigit c"
    using validNumber_start [OF assms(1)] by blast
  have n: "\<not> isJsonWs c" "c \<noteq> 0x6E" "c \<noteq> 0x74" "c \<noteq> 0x66" "c \<noteq> 0x22" "c \<noteq> 0x5B" "c \<noteq> 0x7B"
    using c by (auto simp: isJsonWs_def isDigit_def)
  have "parseValue (Suc n) ((c # cs) @ r) =
        (case parseNumber ((c # cs) @ r) of None \<Rightarrow> None | Some (t, r) \<Rightarrow> Some (JNum t, r))"
    using n by simp
  then show ?thesis
    using parseNumber_text [OF assms] d by simp
qed

lemma pv_arr_empty: "parseValue (Suc n) (str ''[]'' @ r) = Some (JArr [], r)"
  by (simp add: str_def isJsonWs_def)

lemma pv_obj_empty: "parseValue (Suc n) (str ''{}'' @ r) = Some (JObj [], r)"
  by (simp add: str_def isJsonWs_def)

lemma pv_arr:
  assumes "startsValue d" and "parseElements n (d # ds) = Some (vs, r)"
  shows "parseValue (Suc n) (0x5B # 0x0A # indent k @ d # ds) = Some (JArr vs, r)"
proof -
  have "dropWhile isJsonWs (0x0A # indent k @ d # ds) = d # ds"
    using ws_newline_indent [of k "d # ds"] ws_start [OF assms(1)] by simp
  then show ?thesis
    using assms startsValue_facts [OF assms(1)] by (simp add: isJsonWs_def)
qed

lemma pv_obj:
  assumes "parseMembers n (0x22 # ds) = Some (kvs, r)"
  shows "parseValue (Suc n) (0x7B # 0x0A # indent k @ 0x22 # ds) = Some (JObj kvs, r)"
proof -
  have "dropWhile isJsonWs (0x0A # indent k @ 0x22 # ds) = 0x22 # ds"
    using ws_newline_indent [of k "0x22 # ds"] by (simp add: isJsonWs_def)
  then show ?thesis
    using assms by (simp add: isJsonWs_def)
qed

lemma pe_step:
  assumes "parseValue n s = Some (v, r)"
  shows "dropWhile isJsonWs r = 0x5D # r' \<Longrightarrow> parseElements (Suc n) s = Some ([v], r')"
    and "dropWhile isJsonWs r = 0x2C # r' \<Longrightarrow> parseElements n r' = Some (vs, r'') \<Longrightarrow>
         parseElements (Suc n) s = Some (v # vs, r'')"
  using assms by simp_all

lemma pm_step:
  assumes "parseChars cs = Some (key, 0x3A # r0)" and "parseValue n r0 = Some (v, r)"
  shows "dropWhile isJsonWs r = 0x7D # r' \<Longrightarrow>
         parseMembers (Suc n) (0x22 # cs) = Some ([(key, v)], r')"
    and "dropWhile isJsonWs r = 0x2C # r' \<Longrightarrow> parseMembers n r' = Some (kvs, r'') \<Longrightarrow>
         parseMembers (Suc n) (0x22 # cs) = Some ((key, v) # kvs, r'')"
  using assms by (simp_all add: isJsonWs_def)

declare parseValue.simps [simp del] parseElements.simps [simp del] parseMembers.simps [simp del]

lemma ser_start: "numerosExatos v \<Longrightarrow> \<exists>c cs. ser k v = c # cs \<and> startsValue c"
proof (cases v)
  case (JNum t)
  assume "numerosExatos v"
  then show ?thesis using JNum validNumber_start [of t] by (auto simp: startsValue_def)
qed (auto simp: startsValue_def str_def QuoteJSONString_def)

lemma serElems_start:
  "vs \<noteq> [] \<Longrightarrow> elementosExatos vs \<Longrightarrow> \<exists>c cs. serElems k vs = c # cs \<and> startsValue c"
proof (cases vs)
  case Nil
  then show "vs \<noteq> [] \<Longrightarrow> ?thesis" by simp
next
  case (Cons v ws)
  assume "elementosExatos vs"
  then have "numerosExatos v" using Cons by simp
  then obtain c cs where "ser k v = c # cs" "startsValue c" using ser_start [of v k] by blast
  then show ?thesis using Cons by auto
qed

lemma serMembers_start: "kvs \<noteq> [] \<Longrightarrow> \<exists>cs. serMembers k kvs = 0x22 # cs"
  by (cases kvs) (auto simp: QuoteJSONString_def)

lemma okRest_simps [simp]:
  "okRest []" "okRest (0x0A # s)" "okRest (0x2C # s)"
  by (simp_all add: okRest_def isNumberChar_def isDigit_def)

lemma ws_close: "dropWhile isJsonWs (0x0A # indent j @ 0x5D # r) = 0x5D # r"
  "dropWhile isJsonWs (0x0A # indent j @ 0x7D # r) = 0x7D # r"
  "dropWhile isJsonWs (0x2C # s) = 0x2C # s"
  by (simp_all add: ws_indent isJsonWs_def)

lemma roundtrip:
  "\<forall>n r. numerosExatos v \<longrightarrow> cost v \<le> n \<longrightarrow> okRest r \<longrightarrow>
     parseValue n (ser k v @ r) = Some (v, r)"
  "vs \<noteq> [] \<longrightarrow> elementosExatos vs \<longrightarrow>
     (\<forall>n j r. costElems vs \<le> n \<longrightarrow>
        parseElements n (serElems k vs @ 0x0A # indent j @ 0x5D # r) = Some (vs, r))"
  "kvs \<noteq> [] \<longrightarrow> membrosExatos kvs \<longrightarrow>
     (\<forall>n j r. costMembers kvs \<le> n \<longrightarrow>
        parseMembers n (serMembers k kvs @ 0x0A # indent j @ 0x7D # r) = Some (kvs, r))"
proof (induction k v and k vs and k kvs rule: ser_serElems_serMembers.induct)
  case (1 k)
  show ?case
  proof (intro allI impI)
    fix n r assume "cost JNull \<le> n"
    then obtain m where "n = Suc m" by (cases n) auto
    then show "parseValue n (ser k JNull @ r) = Some (JNull, r)" by (simp add: pv_null)
  qed
next
  case (2 k b)
  show ?case
  proof (intro allI impI)
    fix n r assume "cost (JBool b) \<le> n"
    then obtain m where "n = Suc m" by (cases n) auto
    then show "parseValue n (ser k (JBool b) @ r) = Some (JBool b, r)"
      by (simp add: pv_true pv_false)
  qed
next
  case (3 k t)
  show ?case
  proof (intro allI impI)
    fix n r assume f: "numerosExatos (JNum t)" and "cost (JNum t) \<le> n" and o: "okRest r"
    then obtain m where "n = Suc m" by (cases n) auto
    moreover have "validNumber t" using f by simp
    ultimately show "parseValue n (ser k (JNum t) @ r) = Some (JNum t, r)"
      using pv_num [OF _ o] by simp
  qed
next
  case (4 k)
  show ?case by simp
next
  case (5 k b)
  show ?case by simp
next
  case (6 k s)
  show ?case
  proof (intro allI impI)
    fix n r assume "cost (JStr s) \<le> n"
    then obtain m where "n = Suc m" by (cases n) auto
    then show "parseValue n (ser k (JStr s) @ r) = Some (JStr s, r)"
      by (simp add: pv_str)
  qed
next
  case (7 k vs)
  show ?case
  proof (intro allI impI)
    fix n r assume f: "numerosExatos (JArr vs)" and c: "cost (JArr vs) \<le> n"
    then obtain m where n: "n = Suc m" and m: "costElems vs \<le> m" by (cases n) auto
    have fs: "elementosExatos vs" using f by simp
    show "parseValue n (ser k (JArr vs) @ r) = Some (JArr vs, r)"
    proof (cases "vs = []")
      case True
      then show ?thesis using n by (simp add: pv_arr_empty)
    next
      case False
      obtain d ds where d: "serElems (Suc k) vs = d # ds" and s: "startsValue d"
        using serElems_start [OF False fs] by blast
      have "parseElements m (serElems (Suc k) vs @ 0x0A # indent k @ 0x5D # r) = Some (vs, r)"
        using 7 False fs m by blast
      then have "parseElements m (d # (ds @ 0x0A # indent k @ 0x5D # r)) = Some (vs, r)"
        using d by simp
      then have "parseValue (Suc m) (0x5B # 0x0A # indent (Suc k) @ d # (ds @ 0x0A # indent k @ 0x5D # r)) =
          Some (JArr vs, r)"
        using s by (rule pv_arr [rotated])
      then show ?thesis using False n d by simp
    qed
  qed
next
  case (8 k kvs)
  show ?case
  proof (intro allI impI)
    fix n r assume f: "numerosExatos (JObj kvs)" and c: "cost (JObj kvs) \<le> n"
    then obtain m where n: "n = Suc m" and m: "costMembers kvs \<le> m" by (cases n) auto
    have fs: "membrosExatos kvs" using f by simp
    show "parseValue n (ser k (JObj kvs) @ r) = Some (JObj kvs, r)"
    proof (cases "kvs = []")
      case True
      then show ?thesis using n by (simp add: pv_obj_empty)
    next
      case False
      obtain ds where d: "serMembers (Suc k) kvs = 0x22 # ds"
        using serMembers_start [OF False] by blast
      have "parseMembers m (serMembers (Suc k) kvs @ 0x0A # indent k @ 0x7D # r) = Some (kvs, r)"
        using 8 False fs m by blast
      then have "parseMembers m (0x22 # (ds @ 0x0A # indent k @ 0x7D # r)) = Some (kvs, r)"
        using d by simp
      then have "parseValue (Suc m) (0x7B # 0x0A # indent (Suc k) @ 0x22 # (ds @ 0x0A # indent k @ 0x7D # r)) =
          Some (JObj kvs, r)"
        by (rule pv_obj)
      then show ?thesis using False n d by simp
    qed
  qed
next
  case (9 k)
  show ?case by simp
next
  case (10 k v vs)
  show ?case
  proof (intro allI impI)
    fix n j r assume f: "elementosExatos (v # vs)" and c: "costElems (v # vs) \<le> n"
    then obtain m where n: "n = Suc m" and mv: "cost v \<le> m" and ms: "costElems vs \<le> m"
      by (cases n) auto
    have fv: "numerosExatos v" and fs: "elementosExatos vs" using f by simp_all
    have pv: "parseValue m (ser k v @ t) = Some (v, t)" if "okRest t" for t
      using 10(1,2) fv mv that by (cases "vs = []") blast+
    show "parseElements n (serElems k (v # vs) @ 0x0A # indent j @ 0x5D # r) = Some (v # vs, r)"
    proof (cases "vs = []")
      case True
      have "parseElements (Suc m) (ser k v @ 0x0A # indent j @ 0x5D # r) = Some ([v], r)"
        by (rule pe_step(1) [OF pv]) (simp_all only: ws_close okRest_simps)
      then show ?thesis using True n by simp
    next
      case False
      have e: "parseElements m (serElems k vs @ 0x0A # indent j @ 0x5D # r) = Some (vs, r)"
        using 10(3) False fs ms by blast
      have "dropWhile isJsonWs (0x0A # indent k @ serElems k vs @ 0x0A # indent j @ 0x5D # r) =
            dropWhile isJsonWs (serElems k vs @ 0x0A # indent j @ 0x5D # r)"
        by (rule ws_newline_indent)
      then have e': "parseElements m (0x0A # indent k @ serElems k vs @ 0x0A # indent j @ 0x5D # r) =
            Some (vs, r)"
        using e parseElements_ws by metis
      have "parseElements (Suc m)
              (ser k v @ 0x2C # 0x0A # indent k @ serElems k vs @ 0x0A # indent j @ 0x5D # r) =
            Some (v # vs, r)"
        by (rule pe_step(2) [OF pv _ e']) (simp_all only: ws_close okRest_simps)
      then show ?thesis using False n by simp
    qed
  qed
next
  case (11 k)
  show ?case by simp
next
  case (12 k key v kvs)
  show ?case
  proof (intro allI impI)
    fix n j r assume f: "membrosExatos ((key, v) # kvs)" and c: "costMembers ((key, v) # kvs) \<le> n"
    then obtain m where n: "n = Suc m" and mv: "cost v \<le> m" and ms: "costMembers kvs \<le> m"
      by (cases n) auto
    have fv: "numerosExatos v" and fs: "membrosExatos kvs" using f by simp_all
    have pv0: "parseValue m (ser k v @ t) = Some (v, t)" if "okRest t" for t
      using 12(1,2) fv mv that by (cases "kvs = []") blast+
    have pv: "parseValue m (0x20 # ser k v @ t) = Some (v, t)" if "okRest t" for t
    proof -
      have "dropWhile isJsonWs (0x20 # ser k v @ t) = dropWhile isJsonWs (ser k v @ t)"
        by (simp add: isJsonWs_def)
      then show ?thesis using pv0 [OF that] parseValue_ws by metis
    qed
    have pc: "parseChars (quoteChars key @ 0x22 # 0x3A # t) = Some (key, 0x3A # t)" for t
      by (rule parseChars_quoteChars)
    show "parseMembers n (serMembers k ((key, v) # kvs) @ 0x0A # indent j @ 0x7D # r) =
            Some ((key, v) # kvs, r)"
    proof (cases "kvs = []")
      case True
      have "parseMembers (Suc m)
              (0x22 # (quoteChars key @ 0x22 # 0x3A # 0x20 # ser k v @ 0x0A # indent j @ 0x7D # r)) =
            Some ([(key, v)], r)"
        by (rule pm_step(1) [OF pc pv]) (simp_all only: ws_close okRest_simps)
      then show ?thesis using True n by (simp add: QuoteJSONString_def)
    next
      case False
      have e: "parseMembers m (serMembers k kvs @ 0x0A # indent j @ 0x7D # r) = Some (kvs, r)"
        using 12(3) False fs ms by blast
      have "dropWhile isJsonWs (0x0A # indent k @ serMembers k kvs @ 0x0A # indent j @ 0x7D # r) =
            dropWhile isJsonWs (serMembers k kvs @ 0x0A # indent j @ 0x7D # r)"
        by (rule ws_newline_indent)
      then have e': "parseMembers m (0x0A # indent k @ serMembers k kvs @ 0x0A # indent j @ 0x7D # r) =
            Some (kvs, r)"
        using e parseMembers_ws by metis
      have "parseMembers (Suc m)
              (0x22 # (quoteChars key @ 0x22 # 0x3A # 0x20 # ser k v @ 0x2C # 0x0A # indent k @
                 serMembers k kvs @ 0x0A # indent j @ 0x7D # r)) =
            Some ((key, v) # kvs, r)"
        by (rule pm_step(2) [OF pc pv _ e']) (simp_all only: ws_close okRest_simps)
      then show ?thesis using False n by (simp add: QuoteJSONString_def)
    qed
  qed
qed

lemma cost_length:
  "numerosExatos v \<longrightarrow> cost v \<le> length (ser k v)"
  "elementosExatos vs \<longrightarrow> costElems vs \<le> Suc (length (serElems k vs))"
  "membrosExatos kvs \<longrightarrow> costMembers kvs \<le> Suc (length (serMembers k kvs))"
proof (induction k v and k vs and k kvs rule: ser_serElems_serMembers.induct)
  case (3 k t)
  show ?case
  proof
    assume "numerosExatos (JNum t)"
    then obtain c cs where "t = c # cs" using validNumber_start [of t] by auto
    then show "cost (JNum t) \<le> length (ser k (JNum t))" by simp
  qed
next
  case (7 k vs)
  then show ?case by (cases "vs = []") (auto simp: str_def)
next
  case (8 k kvs)
  then show ?case by (cases "kvs = []") (auto simp: str_def)
next
  case (10 k v vs)
  then show ?case by (cases "vs = []") auto
next
  case (12 k key v kvs)
  then show ?case by (cases "kvs = []") (auto simp: QuoteJSONString_def)
qed (simp_all add: str_def QuoteJSONString_def)

theorem JSON_roundtrip: "numerosExatos v \<Longrightarrow> JSON_parse (JSON_stringify v) = Some v"
proof -
  assume f: "numerosExatos v"
  then have "cost v \<le> Suc (length (ser 0 v))" using cost_length(1) [of v 0] by simp
  then have "parseValue (Suc (length (ser 0 v))) (ser 0 v @ []) = Some (v, [])"
    using roundtrip(1) [of v 0] okRest_simps(1) f by blast
  then show ?thesis by (simp add: JSON_parse_def JSON_stringify_def)
qed


lemma numerosExatos_relatorio:
  "elementosExatos vs \<Longrightarrow> numerosExatos (JObj (relatorio agora vs))"
  by (simp add: relatorio_def validNumber_digits)
section \<open>The locator list\<close>

text \<open>
  Claim C9. For every value of the locator field, the parsed list is what
  splitting the value at commas and newlines, trimming each piece and dropping
  the empty pieces gives; no parsed locator is empty or made of white space
  only; and a value made of white space and separators only parses to the
  empty list, on which \<^verbatim>\<open>iniciarValidacao\<close> stops with the alert asking for at
  least one URL and leaves the page as it was.
\<close>

theorem parseDocumentUrls_locators:
  "parseDocumentUrls v = filter (\<lambda>u. u \<noteq> []) (map trim (split_on isSeparator v)) \<and>
   (\<forall>u\<in>set (parseDocumentUrls v). u \<noteq> [] \<and> \<not> (\<forall>c\<in>set u. isWhiteSpace c)) \<and>
   ((\<forall>c\<in>set v. isWhiteSpace c \<or> isSeparator c) \<longrightarrow>
      parseDocumentUrls v = [] \<and>
      iniciarValidacao servidor (s\<lparr>document_urls := v\<rparr>) =
        (s\<lparr>document_urls := v\<rparr>, [Alert msgSemUrl]))"
proof (intro conjI impI)
  show "parseDocumentUrls v = filter (\<lambda>u. u \<noteq> []) (map trim (split_on isSeparator v))"
    by (rule parseDocumentUrls_refines)
  show "\<forall>u\<in>set (parseDocumentUrls v). u \<noteq> [] \<and> \<not> (\<forall>c\<in>set u. isWhiteSpace c)"
    using parseDocumentUrls_element [of _ v] by blast
next
  assume b: "\<forall>c\<in>set v. isWhiteSpace c \<or> isSeparator c"
  then show e: "parseDocumentUrls v = []" by (rule parseDocumentUrls_blank)
  show "iniciarValidacao servidor (s\<lparr>document_urls := v\<rparr>) =
          (s\<lparr>document_urls := v\<rparr>, [Alert msgSemUrl])"
    using e by (simp add: iniciarValidacao_def)
qed

text \<open>
  The claim at two values: a blank, a comma, a newline and a tab parse to no
  locator and the run stops with the alert; \<^verbatim>\<open>" a, ,b "\<close> holds the locator
  \<^verbatim>\<open>a\<close>, which is neither empty nor blank.
\<close>

theorem parseDocumentUrls_locators_witness:
  "list_all (\<lambda>c. isWhiteSpace c \<or> isSeparator c) [0x20, 0x2C, 0x0A, 0x09] \<and>
   parseDocumentUrls [0x20, 0x2C, 0x0A, 0x09] = [] \<and>
   iniciarValidacao (\<lambda>body. FetchRejected [])
       (novoValidador\<lparr>document_urls := [0x20, 0x2C, 0x0A, 0x09]\<rparr>) =
     (novoValidador\<lparr>document_urls := [0x20, 0x2C, 0x0A, 0x09]\<rparr>, [Alert msgSemUrl]) \<and>
   str ''a'' \<in> set (parseDocumentUrls (str '' a, ,b '')) \<and>
   str ''a'' \<noteq> [] \<and> \<not> (\<forall>c\<in>set (str ''a''). isWhiteSpace c)"
proof -
  have h: "\<forall>c\<in>set [0x20, 0x2C, 0x0A, 0x09]. isWhiteSpace c \<or> isSeparator c"
    by (simp add: isWhiteSpace_def isSeparator_def)
  have m: "str ''a'' \<in> set (parseDocumentUrls (str '' a, ,b ''))"
    by (simp add: parseDocumentUrls_def trim_def str_def isWhiteSpace_def isSeparator_def)
  have l: "list_all (\<lambda>c. isWhiteSpace c \<or> isSeparator c) [0x20, 0x2C, 0x0A, 0x09]"
    using h by (simp only: list_all_iff)
  show ?thesis
    using h l m
      parseDocumentUrls_locators
        [of "[0x20, 0x2C, 0x0A, 0x09]" "\<lambda>body. FetchRejected []" novoValidador]
      parseDocumentUrls_locators [of "str '' a, ,b ''"]
    by blast
qed

section \<open>The size of a batch\<close>

text \<open>
  Claim C1. For every page whose locator list is empty or has more than three
  entries, \<^verbatim>\<open>iniciarValidacao\<close> stops with an alert that names the fault (one
  message for the empty list, another for the long one), changes nothing on
  the page, and sends no request to the processing endpoint, whatever the
  server would have answered.
\<close>

theorem iniciarValidacao_invalid_batch_size:
  assumes "length (parseDocumentUrls (document_urls s)) = 0 \<or>
           length (parseDocumentUrls (document_urls s)) > 3"
  shows "iniciarValidacao servidor s =
           (s, [Alert (if length (parseDocumentUrls (document_urls s)) = 0
                       then msgSemUrl else msgMaximo)]) \<and>
         \<not> list_ex (isFetch (str ''/api/processar-documentos''))
              (snd (iniciarValidacao servidor s)) \<and>
         msgSemUrl \<noteq> msgMaximo"
  using assms by (auto simp: iniciarValidacao_def msgSemUrl_def msgMaximo_def str_def)

text \<open>The claim on a page with four locators and a server ready to process them.\<close>

theorem iniciarValidacao_invalid_batch_size_witness:
  "length (parseDocumentUrls (document_urls paginaQuatro)) = 4 \<and>
   iniciarValidacao (processarDocumentos (amostraEnv True) [0, 1, 2, 3]) paginaQuatro =
     (paginaQuatro, [Alert msgMaximo])"
proof -
  have h: "length (parseDocumentUrls (document_urls paginaQuatro)) = 0 \<or>
           length (parseDocumentUrls (document_urls paginaQuatro)) > 3"
    by (simp add: parse_sample_four)
  show ?thesis
    using iniciarValidacao_invalid_batch_size
            [OF h, of "processarDocumentos (amostraEnv True) [0, 1, 2, 3]"]
    by (simp add: parse_sample_four)
qed

section \<open>The status shown for a document\<close>

text \<open>
  Claim C3. For every result the page receives, whatever its \<^verbatim>\<open>status\<close>
  property holds, the card shows exactly one of the three classifications
  valid, invalid and error (three different words), and \<^verbatim>\<open>exibirResultados\<close>,
  when it ends without an error, has appended to the results panel exactly
  one card per stored result, numbered from 1.
\<close>

theorem criarCardResultado_status:
  "(statusClass (criarCardResultado r n) = str ''valido'' \<and>
      statusText (criarCardResultado r n) = str ''V'' @ [0xE1] @ str ''lido'' \<or>
    statusClass (criarCardResultado r n) = str ''invalido'' \<and>
      statusText (criarCardResultado r n) = str ''Inv'' @ [0xE1] @ str ''lido'' \<or>
    statusClass (criarCardResultado r n) = str ''erro'' \<and>
      statusText (criarCardResultado r n) = str ''Erro'') \<and>
   str ''valido'' \<noteq> str ''invalido'' \<and> str ''valido'' \<noteq> str ''erro'' \<and>
   str ''invalido'' \<noteq> str ''erro'' \<and>
   (snd (exibirResultados s) = None \<longrightarrow>
      map numero (cards (the (resultados_container (fst (exibirResultados s))))) =
        [1..<Suc (length (itens (resultados s)))])"
proof -
  have "statusClass (criarCardResultado r n) = str ''valido'' \<and>
      statusText (criarCardResultado r n) = str ''V'' @ [0xE1] @ str ''lido'' \<or>
    statusClass (criarCardResultado r n) = str ''invalido'' \<and>
      statusText (criarCardResultado r n) = str ''Inv'' @ [0xE1] @ str ''lido'' \<or>
    statusClass (criarCardResultado r n) = str ''erro'' \<and>
      statusText (criarCardResultado r n) = str ''Erro''"
    by (simp add: criarCardResultado_def)
  moreover have "str ''valido'' \<noteq> str ''invalido'' \<and> str ''valido'' \<noteq> str ''erro'' \<and>
   str ''invalido'' \<noteq> str ''erro''"
    by (simp add: str_def)
  moreover have "snd (exibirResultados s) = None \<longrightarrow>
      map numero (cards (the (resultados_container (fst (exibirResultados s))))) =
        [1..<Suc (length (itens (resultados s)))]"
    by (simp add: exibirResultados_mostra numeros_cartoes)
  ultimately show ?thesis by blast
qed

text \<open>
  The claim on a result whose status is none of the three words: its card is
  an error card; and on the page with one stored result, whose panel has the
  card numbered 1.
\<close>

theorem criarCardResultado_status_witness:
  "statusClass (criarCardResultado (amostraResultado ''doc-a'' ''desconhecido'') 1) = str ''erro'' \<and>
   statusText (criarCardResultado (amostraResultado ''doc-a'' ''desconhecido'') 1) = str ''Erro'' \<and>
   snd (exibirResultados paginaComResultado) = None \<and>
   map numero (cards (the (resultados_container (fst (exibirResultados paginaComResultado))))) = [1]"
proof -
  have "statusClass (criarCardResultado (amostraResultado ''doc-a'' ''desconhecido'') 1) \<noteq> str ''valido''"
    by (simp add: criarCardResultado_def amostraResultado_def hasStatus_def getProp_def str_def)
  moreover have "statusClass (criarCardResultado (amostraResultado ''doc-a'' ''desconhecido'') 1) \<noteq> str ''invalido''"
    by (simp add: criarCardResultado_def amostraResultado_def hasStatus_def getProp_def str_def)
  moreover have n: "snd (exibirResultados paginaComResultado) = None"
    by (rule exibirResultados_sem_erro)
       (simp_all add: paginaComResultado_def erroFiltrar_def cartoes_def erroCard_def interpolados_def
          criarCardResultado_def amostraResultado_def hasStatus_def getProp_def orElse_def
          naoEncontrado_def naoEncontrada_def naoConsultado_def str_def)
  moreover have "itens (resultados paginaComResultado) = [JObj (amostraResultado ''doc-a'' ''valido'')]"
    by (simp add: paginaComResultado_def)
  ultimately show ?thesis
    using criarCardResultado_status
            [of "amostraResultado ''doc-a'' ''desconhecido''" 1 paginaComResultado]
    by simp
qed
section \<open>A failed load of the spreadsheet\<close>

text \<open>
  Claim C10, as stated, at a page that holds a loaded spreadsheet and whose URL
  field is empty: the load is refused with the danger alert, the stored data
  stay (they are not null), the start button stays enabled, and a click on it
  sends a processing request.
\<close>

theorem carregarPlanilha_empty_url_counterexample:
  "status_planilha (fst (carregarPlanilha (\<lambda>body. falhaRede) paginaCarregada)) =
     Some (str ''danger'', Texto (str ''Por favor, insira a URL da planilha'')) \<and>
   planilhaData (fst (carregarPlanilha (\<lambda>body. falhaRede) paginaCarregada)) \<noteq> JNull \<and>
   \<not> iniciar_disabled (fst (carregarPlanilha (\<lambda>body. falhaRede) paginaCarregada)) \<and>
   list_ex (isFetch (str ''/api/processar-documentos''))
     (snd (executar [ClickCarregar falhaRede, ClickIniciar (respostaUm JNull)] paginaCarregada))"
proof -
  have t: "trim (csv_url paginaCarregada) = []"
    by (simp add: paginaCarregada_def novoValidador_def updateUI_def)
  have c: "carregarPlanilha (\<lambda>body. falhaRede) paginaCarregada =
        (showAlert (str ''danger'') (Texto (str ''Por favor, insira a URL da planilha''))
           paginaCarregada, [])"
    using t by (rule carregarPlanilha_sem_url)
  have d: "\<not> carregar_disabled paginaCarregada" "\<not> iniciar_disabled paginaCarregada"
    "planilhaData paginaCarregada = amostraPlanilha"
    by (simp_all add: paginaCarregada_def novoValidador_def updateUI_def)
  have p: "parseDocumentUrls
             (document_urls (showAlert (str ''danger'')
                (Texto (str ''Por favor, insira a URL da planilha'')) paginaCarregada)) =
           [str ''doc-a'']"
    using parse_sample_one by (simp add: showAlert_def)
  have "list_ex (isFetch (str ''/api/processar-documentos''))
     (snd (iniciarValidacao (\<lambda>body. respostaUm JNull)
        (showAlert (str ''danger'') (Texto (str ''Por favor, insira a URL da planilha''))
           paginaCarregada)))"
    using p by (simp add: iniciarValidacao_def Let_def case_prod_beta)
  then have "list_ex (isFetch (str ''/api/processar-documentos''))
     (snd (executar [ClickCarregar falhaRede, ClickIniciar (respostaUm JNull)] paginaCarregada))"
    using c d by (simp add: showAlert_def)
  then show ?thesis using c d by (simp add: showAlert_def amostraPlanilha_def)
qed

text \<open>
  Claim C10, amended. For every load whose URL field is not blank and whose
  request fails (a rejected promise, an answer without \<^verbatim>\<open>success\<close>, or a
  success without \<^verbatim>\<open>dados\<close>), the stored spreadsheet data are null and the
  start button is disabled afterwards, and both stay so, with no processing
  request sent, through whatever the user does next short of a load that
  succeeds. A load with a blank URL field is refused with an alert before any
  request and changes nothing else on the page.
\<close>

theorem carregarPlanilha_failed_load:
  "(trim (csv_url s) \<noteq> [] \<and>
    cargaFalhou (servidor (JObj [(str ''csv_url'', JStr (trim (csv_url s)))])) \<and>
    \<not> list_ex recarga acoes \<longrightarrow>
      planilhaData (fst (carregarPlanilha servidor s)) = JNull \<and>
      iniciar_disabled (fst (carregarPlanilha servidor s)) \<and>
      planilhaData (fst (executar acoes (fst (carregarPlanilha servidor s)))) = JNull \<and>
      iniciar_disabled (fst (executar acoes (fst (carregarPlanilha servidor s)))) \<and>
      \<not> list_ex (isFetch (str ''/api/processar-documentos''))
           (snd (carregarPlanilha servidor s) @
            snd (executar acoes (fst (carregarPlanilha servidor s))))) \<and>
   (trim (csv_url s) = [] \<longrightarrow>
      carregarPlanilha servidor s =
        (s\<lparr>status_planilha :=
             Some (str ''danger'', Texto (str ''Por favor, insira a URL da planilha''))\<rparr>, []))"
proof (intro conjI impI)
  assume h: "trim (csv_url s) \<noteq> [] \<and>
    cargaFalhou (servidor (JObj [(str ''csv_url'', JStr (trim (csv_url s)))])) \<and>
    \<not> list_ex recarga acoes"
  let ?s = "fst (carregarPlanilha servidor s)"
  have f: "planilhaData ?s = JNull" "iniciar_disabled ?s"
    "\<not> list_ex (isFetch (str ''/api/processar-documentos'')) (snd (carregarPlanilha servidor s))"
    using carregarPlanilha_falha [of s servidor] h by auto
  then have "semDados ?s" by (simp add: semDados_def)
  then have e: "semDados (fst (executar acoes ?s))"
    "\<not> list_ex (isFetch (str ''/api/processar-documentos'')) (snd (executar acoes ?s))"
    using executar_semDados [of ?s acoes] h by auto
  show "planilhaData ?s = JNull" "iniciar_disabled ?s" by (rule f)+
  show "planilhaData (fst (executar acoes ?s)) = JNull" "iniciar_disabled (fst (executar acoes ?s))"
    using e(1) by (simp_all add: semDados_def)
  show "\<not> list_ex (isFetch (str ''/api/processar-documentos''))
           (snd (carregarPlanilha servidor s) @ snd (executar acoes ?s))"
    using f(3) e(2) by simp
next
  assume "trim (csv_url s) = []"
  then show "carregarPlanilha servidor s =
        (s\<lparr>status_planilha :=
             Some (str ''danger'', Texto (str ''Por favor, insira a URL da planilha''))\<rparr>, [])"
    by (simp add: carregarPlanilha_sem_url showAlert_def)
qed

text \<open>
  The amended claim on a page with a loaded spreadsheet, a URL in the field and
  a network failure, followed by typing a locator, clicking start, a second
  failing load and a download.
\<close>

theorem carregarPlanilha_failed_load_witness:
  "planilhaData paginaComUrl \<noteq> JNull \<and>
   planilhaData (fst (carregarPlanilha (\<lambda>body. falhaRede) paginaComUrl)) = JNull \<and>
   iniciar_disabled (fst (carregarPlanilha (\<lambda>body. falhaRede) paginaComUrl)) \<and>
   iniciar_disabled
     (fst (executar amostraAcoes (fst (carregarPlanilha (\<lambda>body. falhaRede) paginaComUrl)))) \<and>
   \<not> list_ex (isFetch (str ''/api/processar-documentos''))
        (snd (carregarPlanilha (\<lambda>body. falhaRede) paginaComUrl) @
         snd (executar amostraAcoes (fst (carregarPlanilha (\<lambda>body. falhaRede) paginaComUrl))))"
proof -
  have 1: "trim (csv_url paginaComUrl) \<noteq> []"
    by (simp add: paginaComUrl_def trim_def str_def isWhiteSpace_def)
  have 2: "cargaFalhou ((\<lambda>body. falhaRede) (JObj [(str ''csv_url'', JStr (trim (csv_url paginaComUrl)))]))"
    by (simp add: cargaFalhou_def falhaRede_def)
  have 3: "\<not> list_ex recarga amostraAcoes"
    by (simp add: amostraAcoes_def cargaFalhou_def falhaRede_def)
  have 4: "planilhaData paginaComUrl \<noteq> JNull"
    by (simp add: paginaComUrl_def paginaCarregada_def amostraPlanilha_def)
  show ?thesis
    using 1 2 3 4 carregarPlanilha_failed_load [of paginaComUrl "\<lambda>body. falhaRede" amostraAcoes]
    by blast
qed

section \<open>The progress notifications of a run\<close>

text \<open>
  Claim C8, as stated, on a page with one locator and a server that answers
  with one result: the run adds four entries to the log (starting, sending,
  processing, finished), not the three of the lifecycle started,
  documentCompleted(0, result), finished; none of them is about the document.
\<close>

theorem iniciarValidacao_lifecycle_counterexample:
  "length (parseDocumentUrls (document_urls paginaCarregada)) = 1 \<and>
   map message (notificacoes respostaUm paginaCarregada) =
     [msgIniciando, msgEnviando, msgProcessando, msgConcluido] \<and>
   resultados (fst (iniciarValidacao respostaUm paginaCarregada)) =
     Some (JArr [JObj (amostraResultado ''doc-a'' ''valido'')]) \<and>
   \<not> followsLifecycle (notificacoes respostaUm paginaCarregada)
        (itens (resultados (fst (iniciarValidacao respostaUm paginaCarregada))))"
proof -
  have 1: "1 \<le> length (parseDocumentUrls (document_urls paginaCarregada))"
    and 2: "length (parseDocumentUrls (document_urls paginaCarregada)) \<le> 3"
    by (simp_all add: parse_sample_one)
  let ?d = "JObj [(str ''success'', JBool True),
                  (str ''resultados'', JArr [JObj (amostraResultado ''doc-a'' ''valido'')])]"
  let ?t = "(updateProgress 100 msgConcluido (antes paginaCarregada))
              \<lparr>resultados := Some (JArr [JObj (amostraResultado ''doc-a'' ''valido'')])\<rparr>"
  have a: "respostaUm (corpoProcessar (parseDocumentUrls (document_urls paginaCarregada))
              (planilhaData paginaCarregada)) = Resolved ?d"
    by (simp add: respostaUm_def)
  have m: "truthy (member ?d ''success'')"
    "member ?d ''resultados'' = Some (JArr [JObj (amostraResultado ''doc-a'' ''valido'')])"
    by (simp_all add: str_def)
  have ok: "snd (exibirResultados ?t) = None"
    by (rule exibirResultados_sem_erro)
       (simp_all add: erroFiltrar_def cartoes_def erroCard_def interpolados_def
          criarCardResultado_def amostraResultado_def hasStatus_def getProp_def orElse_def
          naoEncontrado_def naoEncontrada_def naoConsultado_def str_def)
  have e: "fst (iniciarValidacao respostaUm paginaCarregada) =
           updateUI ((fst (exibirResultados ?t))\<lparr>iniciar_disabled := False\<rparr>)"
    unfolding iniciarValidacao_resolved [of paginaCarregada respostaUm ?d, OF 1 2 a] m
    using ok by simp
  have r: "resultados (fst (iniciarValidacao respostaUm paginaCarregada)) =
     Some (JArr [JObj (amostraResultado ''doc-a'' ''valido'')])"
    unfolding e by simp
  have n: "map message (notificacoes respostaUm paginaCarregada) =
     [msgIniciando, msgEnviando, msgProcessando, msgConcluido]"
    unfolding notificacoes_def e by (simp add: log_updateProgress log_antes)
  have "length (map message (notificacoes respostaUm paginaCarregada)) = 4"
    unfolding n by simp
  then have "\<not> followsLifecycle (notificacoes respostaUm paginaCarregada)
        (itens (resultados (fst (iniciarValidacao respostaUm paginaCarregada))))"
    unfolding r by (simp add: followsLifecycle_def lifecycle_spec_def)
  then show ?thesis using r n by (simp add: parse_sample_one)
qed

text \<open>
  Claim C8, amended. Every run that passes the size check adds to the log a
  starting entry (0 percent) and a sending entry (20 percent); unless the
  request itself fails, a processing entry (60 percent); and, when the answer
  is not null and reports success, a finished entry (100 percent). These are
  entries of fixed stages, whatever the number of documents: none of them is
  per document, and a run adds at least four and at most six entries. A run
  ends with the two error entries of the error's message when the request or
  the reading of the answer fails, when the answer is null or reports no
  success, and, after the finished entry, when showing the stored results
  throws (they are missing, are no array, hold a null entry or hold a value
  that cannot be converted to a string); otherwise it adds nothing more.
\<close>

theorem iniciarValidacao_notifications:
  assumes "1 \<le> length (parseDocumentUrls (document_urls s))"
    and "length (parseDocumentUrls (document_urls s)) \<le> 3"
  shows
    "notificacoes servidor s =
       \<lparr>className = str ''text-light'', message = msgIniciando\<rparr> #
       \<lparr>className = str ''text-light'', message = msgEnviando\<rparr> #
       (case servidor (corpoProcessar (parseDocumentUrls (document_urls s)) (planilhaData s)) of
          FetchRejected m \<Rightarrow> entradasErro m
        | JsonRejected m \<Rightarrow>
            \<lparr>className = str ''text-light'', message = msgProcessando\<rparr> # entradasErro m
        | Resolved d \<Rightarrow>
            \<lparr>className = str ''text-light'', message = msgProcessando\<rparr> #
            (if d = JNull then entradasErro (typeErrorRead ''null'' ''success'')
             else if truthy (member d ''success'') then
               \<lparr>className = str ''text-success'', message = msgConcluido\<rparr> #
               (case snd (exibirResultados (s\<lparr>resultados := member d ''resultados''\<rparr>)) of
                  None \<Rightarrow> []
                | Some m \<Rightarrow> entradasErro m)
             else entradasErro (mensagemErro (member d ''error'') (str ''Erro no processamento'')))) \<and>
     4 \<le> length (notificacoes servidor s) \<and> length (notificacoes servidor s) \<le> 6"
proof -
  let ?b = "corpoProcessar (parseDocumentUrls (document_urls s)) (planilhaData s)"
  let ?ini = "\<lparr>className = str ''text-light'', message = msgIniciando\<rparr>"
  let ?env = "\<lparr>className = str ''text-light'', message = msgEnviando\<rparr>"
  let ?proc = "\<lparr>className = str ''text-light'', message = msgProcessando\<rparr>"
  let ?fim = "\<lparr>className = str ''text-success'', message = msgConcluido\<rparr>"
  have la: "log_processamento (antes s) = log_processamento s @ [?ini, ?env, ?proc]"
    by (rule log_antes)
  have le: "log_processamento (erroProcessamento m t) = log_processamento t @ entradasErro m" for m t
    by (simp add: log_erroProcessamento entradasErro_def)
  have n: "notificacoes servidor s =
       ?ini # ?env #
       (case servidor ?b of
          FetchRejected m \<Rightarrow> entradasErro m
        | JsonRejected m \<Rightarrow> ?proc # entradasErro m
        | Resolved d \<Rightarrow>
            ?proc #
            (if d = JNull then entradasErro (typeErrorRead ''null'' ''success'')
             else if truthy (member d ''success'') then
               ?fim #
               (case snd (exibirResultados (s\<lparr>resultados := member d ''resultados''\<rparr>)) of
                  None \<Rightarrow> []
                | Some m \<Rightarrow> entradasErro m)
             else entradasErro (mensagemErro (member d ''error'') (str ''Erro no processamento''))))"
  proof (cases "servidor ?b")
    case (FetchRejected m)
    show ?thesis
      unfolding notificacoes_def iniciarValidacao_rejected(1) [of s servidor m, OF assms FetchRejected] FetchRejected
      by (simp add: le log_updateProgress)
  next
    case (JsonRejected m)
    show ?thesis
      unfolding notificacoes_def iniciarValidacao_rejected(2) [of s servidor m, OF assms JsonRejected] JsonRejected
      by (simp add: le la)
  next
    case (Resolved d)
    let ?t = "(updateProgress 100 msgConcluido (antes s))\<lparr>resultados := member d ''resultados''\<rparr>"
    have x: "snd (exibirResultados ?t) =
             snd (exibirResultados (s\<lparr>resultados := member d ''resultados''\<rparr>))"
      by (rule exibirResultados_resultados(1)) simp
    have lt: "log_processamento (fst (exibirResultados ?t)) = log_processamento s @ [?ini, ?env, ?proc, ?fim]"
      by (simp add: log_updateProgress la)
    show ?thesis
      unfolding notificacoes_def iniciarValidacao_resolved [of s servidor d, OF assms Resolved] Resolved x
      by (cases "snd (exibirResultados (s\<lparr>resultados := member d ''resultados''\<rparr>))")
         (simp_all add: le la lt log_updateProgress)
  qed
  have l: "length (entradasErro m) = 2" for m by (simp add: entradasErro_def)
  have "4 \<le> length (notificacoes servidor s) \<and> length (notificacoes servidor s) \<le> 6"
    unfolding n by (simp add: l split: fetched.splits option.splits)
  then show ?thesis using n by simp
qed

text \<open>
  The amended claim on a page with three locators: with a network failure the
  log gets the starting and sending entries and the two error entries; with
  an answer that reports success and carries no results, or a list with a
  null entry, it gets the four stage entries and then the two error entries
  of the TypeError.
\<close>

theorem iniciarValidacao_notifications_witness:
  "length (parseDocumentUrls (document_urls paginaTres)) = 3 \<and>
   map message (notificacoes (\<lambda>body. falhaRede) paginaTres) =
     [msgIniciando, msgEnviando, msgErro (str ''Failed to fetch''),
      msgErro (str ''Failed to fetch'')] \<and>
   map message (notificacoes respostaSemResultados paginaTres) =
     [msgIniciando, msgEnviando, msgProcessando, msgConcluido,
      msgErro (typeErrorRead ''undefined'' ''filter''),
      msgErro (typeErrorRead ''undefined'' ''filter'')] \<and>
   map message (notificacoes respostaComNulo paginaTres) =
     [msgIniciando, msgEnviando, msgProcessando, msgConcluido,
      msgErro (typeErrorRead ''null'' ''status''),
      msgErro (typeErrorRead ''null'' ''status'')]"
proof -
  have 1: "1 \<le> length (parseDocumentUrls (document_urls paginaTres))"
    and 2: "length (parseDocumentUrls (document_urls paginaTres)) \<le> 3"
    by (simp_all add: parse_sample_three)
  show ?thesis
    using iniciarValidacao_notifications [OF 1 2, of "\<lambda>body. falhaRede"]
      iniciarValidacao_notifications [OF 1 2, of respostaSemResultados]
      iniciarValidacao_notifications [OF 1 2, of respostaComNulo]
    by (simp add: parse_sample_three falhaRede_def respostaSemResultados_def respostaComNulo_def
        entradasErro_def exibirResultados_def erroFiltrar_def str_def)
qed
section \<open>The counts of the report\<close>

text \<open>
  Claim C2. For every page with one to three locators, run against the
  processing of the specification (whatever the adapters answer and in
  whatever order the documents finish), the report that the download builds
  afterwards has \<^verbatim>\<open>total_documentos\<close> equal to the number of submitted
  locators, its three counts are the numbers of results with status valid,
  invalid and error, and they add up to that total; the statistics shown on
  the page are the same three counts.
\<close>

theorem relatorio_batch_counts:
  assumes "1 \<le> length (parseDocumentUrls (document_urls s))"
    and "length (parseDocumentUrls (document_urls s)) \<le> 3"
    and "set order = {0..<length (parseDocumentUrls (document_urls s))}"
  shows
    "snd (downloadRelatorio agora depois (paginaApos env order s)) =
       [Download (str ''relatorio-validacao-'' @ hd (split_on (\<lambda>c. c = 0x54) depois) @ str ''.json'')
          (JSON_stringify (JObj (relatorio agora (itens (resultados (paginaApos env order s))))))] \<and>
     getProp (relatorio agora (itens (resultados (paginaApos env order s)))) ''total_documentos'' =
       Some (JNum (digits (length (parseDocumentUrls (document_urls s))))) \<and>
     getProp (relatorio agora (itens (resultados (paginaApos env order s)))) ''validos'' =
       Some (JNum (digits (contar ''valido''
          (map propriedades (itens (resultados (paginaApos env order s))))))) \<and>
     getProp (relatorio agora (itens (resultados (paginaApos env order s)))) ''invalidos'' =
       Some (JNum (digits (contar ''invalido''
          (map propriedades (itens (resultados (paginaApos env order s))))))) \<and>
     getProp (relatorio agora (itens (resultados (paginaApos env order s)))) ''erros'' =
       Some (JNum (digits (contar ''erro''
          (map propriedades (itens (resultados (paginaApos env order s))))))) \<and>
     contar ''valido'' (map propriedades (itens (resultados (paginaApos env order s)))) +
     contar ''invalido'' (map propriedades (itens (resultados (paginaApos env order s)))) +
     contar ''erro'' (map propriedades (itens (resultados (paginaApos env order s)))) =
       length (parseDocumentUrls (document_urls s)) \<and>
     estatisticas (the (resultados_container (paginaApos env order s))) =
       (contar ''valido'' (map propriedades (itens (resultados (paginaApos env order s)))),
        contar ''invalido'' (map propriedades (itens (resultados (paginaApos env order s)))),
        contar ''erro'' (map propriedades (itens (resultados (paginaApos env order s)))))"
proof -
  let ?us = "parseDocumentUrls (document_urls s)"
  let ?vs = "itens (resultados (paginaApos env order s))"
  let ?rs = "map propriedades ?vs"
  let ?ds = "map (\<lambda>u. process env u (loadReference env (planilhaData s))) ?us"
  have r: "resultados (paginaApos env order s) = Some (JArr (map (\<lambda>d. JObj (encodeResult d)) ?ds))"
    using paginaApos_run(1) [OF assms] by (simp add: comp_def)
  have v: "?vs = map (\<lambda>d. JObj (encodeResult d)) ?ds" unfolding r by simp
  have p: "?rs = map encodeResult ?ds" unfolding v by (rule propriedades_JObj)
  have l: "length ?vs = length ?us" unfolding v by simp
  have ne: "?us \<noteq> []" using assms(1) by auto
  have sum: "contar ''valido'' ?rs + contar ''invalido'' ?rs + contar ''erro'' ?rs = length ?us"
    unfolding p using contar_encoded [of ?ds] by simp
  have g: "\<not> semResultados (resultados (paginaApos env order s))"
    unfolding r using ne by (simp add: semResultados_def)
  have f: "erroFiltrar (resultados (paginaApos env order s)) = None"
    unfolding r by (rule erroFiltrar_objetos)
  have d: "snd (downloadRelatorio agora depois (paginaApos env order s)) =
       [Download (str ''relatorio-validacao-'' @ hd (split_on (\<lambda>c. c = 0x54) depois) @ str ''.json'')
          (JSON_stringify (JObj (relatorio agora ?vs)))]"
    using g f by (simp add: downloadRelatorio_def)
  have t: "getProp (relatorio agora ?vs) ''total_documentos'' = Some (JNum (digits (length ?us)))"
    using l by (simp add: relatorio_def getProp_def str_def)
  have va: "getProp (relatorio agora ?vs) ''validos'' = Some (JNum (digits (contar ''valido'' ?rs)))"
    by (simp add: relatorio_def getProp_def str_def)
  have i: "getProp (relatorio agora ?vs) ''invalidos'' = Some (JNum (digits (contar ''invalido'' ?rs)))"
    by (simp add: relatorio_def getProp_def str_def)
  have e: "getProp (relatorio agora ?vs) ''erros'' = Some (JNum (digits (contar ''erro'' ?rs)))"
    by (simp add: relatorio_def getProp_def str_def)
  have st: "estatisticas (the (resultados_container (paginaApos env order s))) =
       (contar ''valido'' ?rs, contar ''invalido'' ?rs, contar ''erro'' ?rs)"
    using paginaApos_run(2) [OF assms, of env] by simp
  show ?thesis using d t va i e sum st by blast
qed

text \<open>
  The claim on the page with the locators \<^verbatim>\<open>doc-a\<close>, \<^verbatim>\<open>doc-x\<close> and \<^verbatim>\<open>doc-c\<close>,
  the third document finishing first.
\<close>

theorem relatorio_batch_counts_witness:
  "length (parseDocumentUrls (document_urls paginaTres)) = 3 \<and>
   getProp (relatorio (str ''2024-05-01T10:00:00.000Z'')
       (itens (resultados (paginaApos (amostraEnv True) [2, 0, 1] paginaTres)))) ''total_documentos'' =
     Some (JNum (str ''3'')) \<and>
   contar ''valido'' (map propriedades (itens (resultados (paginaApos (amostraEnv True) [2, 0, 1] paginaTres)))) +
   contar ''invalido'' (map propriedades (itens (resultados (paginaApos (amostraEnv True) [2, 0, 1] paginaTres)))) +
   contar ''erro'' (map propriedades (itens (resultados (paginaApos (amostraEnv True) [2, 0, 1] paginaTres)))) = 3"
proof -
  have 1: "1 \<le> length (parseDocumentUrls (document_urls paginaTres))"
    and 2: "length (parseDocumentUrls (document_urls paginaTres)) \<le> 3"
    by (simp_all add: parse_sample_three)
  have 3: "set [2, 0, 1] = {0..<length (parseDocumentUrls (document_urls paginaTres))}"
    by (auto simp: parse_sample_three)
  have d: "digits (Suc (Suc (Suc 0))) = str ''3''" by (subst digits.simps) (simp add: str_def)
  show ?thesis
    using relatorio_batch_counts
            [OF 1 2 3, of "str ''2024-05-01T10:00:00.000Z''" "[]" "amostraEnv True"]
    by (simp add: parse_sample_three d)
qed
section \<open>The order of the results\<close>

text \<open>
  Claim C6. For every page with one to three locators, run against the
  processing of the specification, and for every order in which the documents
  finish, the stored results, the results of the report and the cards on the
  page are in the order of submission: the result at each position is the one
  of the locator submitted at that position.
\<close>

theorem resultados_submission_order:
  assumes "1 \<le> length (parseDocumentUrls (document_urls s))"
    and "length (parseDocumentUrls (document_urls s)) \<le> 3"
    and "set order = {0..<length (parseDocumentUrls (document_urls s))}"
  shows
    "resultados (paginaApos env order s) =
       Some (JArr (map (\<lambda>u. JObj (encodeResult (process env u (loadReference env (planilhaData s)))))
                    (parseDocumentUrls (document_urls s)))) \<and>
     map (\<lambda>r. member r ''url'') (itens (resultados (paginaApos env order s))) =
       map (\<lambda>u. Some (JStr u)) (parseDocumentUrls (document_urls s)) \<and>
     getProp (relatorio agora (itens (resultados (paginaApos env order s)))) ''resultados'' =
       resultados (paginaApos env order s) \<and>
     map url (cards (the (resultados_container (paginaApos env order s)))) =
       map (\<lambda>u. Some (JStr u)) (parseDocumentUrls (document_urls s)) \<and>
     map numero (cards (the (resultados_container (paginaApos env order s)))) =
       [1..<Suc (length (parseDocumentUrls (document_urls s)))]"
proof -
  let ?us = "parseDocumentUrls (document_urls s)"
  let ?vs = "itens (resultados (paginaApos env order s))"
  have r: "resultados (paginaApos env order s) =
       Some (JArr (map (\<lambda>u. JObj (encodeResult (process env u (loadReference env (planilhaData s))))) ?us))"
    by (rule paginaApos_run(1) [OF assms])
  have v: "?vs = map (\<lambda>u. JObj (encodeResult (process env u (loadReference env (planilhaData s))))) ?us"
    unfolding r by simp
  have u: "map (\<lambda>r. member r ''url'') ?vs = map (\<lambda>u. Some (JStr u)) ?us"
    unfolding v using url_encodeResult by (simp add: comp_def getProp_def)
  have g: "getProp (relatorio agora ?vs) ''resultados'' = resultados (paginaApos env order s)"
    unfolding r by (simp add: relatorio_def getProp_def str_def)
  have c: "cards (the (resultados_container (paginaApos env order s))) = cartoes ?vs"
    using paginaApos_run(2) [OF assms, of env] by simp
  have cu: "map url (cards (the (resultados_container (paginaApos env order s)))) =
       map (\<lambda>u. Some (JStr u)) ?us"
    unfolding c urls_cartoes by (rule u)
  have "length ?vs = length ?us" unfolding v by simp
  then have cn: "map numero (cards (the (resultados_container (paginaApos env order s)))) =
       [1..<Suc (length ?us)]"
    unfolding c numeros_cartoes by simp
  show ?thesis using r u g cu cn by blast
qed

text \<open>
  The claim on the page with the locators \<^verbatim>\<open>doc-a\<close>, \<^verbatim>\<open>doc-x\<close> and \<^verbatim>\<open>doc-c\<close>,
  for two orders of completion.
\<close>

theorem resultados_submission_order_witness:
  "parseDocumentUrls (document_urls paginaTres) = [str ''doc-a'', str ''doc-x'', str ''doc-c''] \<and>
   map (\<lambda>r. member r ''url'') (itens (resultados (paginaApos (amostraEnv True) [2, 0, 1] paginaTres))) =
     [Some (JStr (str ''doc-a'')), Some (JStr (str ''doc-x'')), Some (JStr (str ''doc-c''))] \<and>
   map (\<lambda>r. member r ''url'') (itens (resultados (paginaApos (amostraEnv True) [1, 2, 0] paginaTres))) =
     [Some (JStr (str ''doc-a'')), Some (JStr (str ''doc-x'')), Some (JStr (str ''doc-c''))]"
proof -
  have 1: "1 \<le> length (parseDocumentUrls (document_urls paginaTres))"
    and 2: "length (parseDocumentUrls (document_urls paginaTres)) \<le> 3"
    by (simp_all add: parse_sample_three)
  have 3: "set [2, 0, 1] = {0..<length (parseDocumentUrls (document_urls paginaTres))}"
    by (auto simp: parse_sample_three)
  have 4: "set [1, 2, 0] = {0..<length (parseDocumentUrls (document_urls paginaTres))}"
    by (auto simp: parse_sample_three)
  have a: "map (\<lambda>r. member r ''url'') (itens (resultados (paginaApos (amostraEnv True) [2, 0, 1] paginaTres))) =
       map (\<lambda>u. Some (JStr u)) (parseDocumentUrls (document_urls paginaTres))"
    using resultados_submission_order [OF 1 2 3, of "amostraEnv True" "[]"] by blast
  have b: "map (\<lambda>r. member r ''url'') (itens (resultados (paginaApos (amostraEnv True) [1, 2, 0] paginaTres))) =
       map (\<lambda>u. Some (JStr u)) (parseDocumentUrls (document_urls paginaTres))"
    using resultados_submission_order [OF 1 2 4, of "amostraEnv True" "[]"] by blast
  show ?thesis
    using a b by (simp add: parse_sample_three)
qed
section \<open>A registry failure\<close>

text \<open>
  Claim C4. For every document whose extraction succeeds with a tax
  identifier and whose registry lookup fails, the result is not an error: it
  has no error detail, its registry record is absent, its two flags that
  depend on the registry are false, its four other flags are what the rule
  engine gives them with any registry data \<open>g\<close>, it is classified invalid
  (so one of valid and invalid), and the page shows it as invalid.
\<close>

theorem process_registry_failure:
  assumes "extractFields env loc = Inr f"
    and "taxId f = Some t"
    and "lookup env t = Inl e"
  shows
    "docStatus (process env loc reference) \<noteq> error \<and>
     docStatus (process env loc reference) = invalid \<and>
     errorDetail (process env loc reference) = None \<and>
     registryRecord (process env loc reference) = None \<and>
     \<not> taxIdActiveInRegistry (validationFlags (process env loc reference)) \<and>
     \<not> legalNameValid (validationFlags (process env loc reference)) \<and>
     taxIdInReference (validationFlags (process env loc reference)) =
       taxIdInReference (evaluate env f reference g) \<and>
     representativeValid (validationFlags (process env loc reference)) =
       representativeValid (evaluate env f reference g) \<and>
     specificNameValid (validationFlags (process env loc reference)) =
       specificNameValid (evaluate env f reference g) \<and>
     documentDateValid (validationFlags (process env loc reference)) =
       documentDateValid (evaluate env f reference g) \<and>
     statusClass (criarCardResultado (encodeResult (process env loc reference)) n) =
       str ''invalido''"
proof -
  have p: "process env loc reference =
     \<lparr>locator = loc, docStatus = invalid, extractedFields = Some f, registryRecord = None,
      validationFlags = evaluate env f reference None, errorDetail = None\<rparr>"
    using assms by (simp add: process_extracted evaluate_def allFlags_def)
  have c: "statusClass (criarCardResultado (encodeResult (process env loc reference)) n) =
       str ''invalido''"
    unfolding p by (simp add: criarCardResultado_def hasStatus_encodeResult encodeStatus_def str_def)
  show ?thesis using c unfolding p by (simp add: evaluate_def)
qed

text \<open>
  The claim on the sample document with the registry timing out; with the
  registry answering, the same document is valid.
\<close>

theorem process_registry_failure_witness:
  "extractFields (amostraEnv False) (str ''doc-a'') = Inr amostraFields \<and>
   lookup (amostraEnv False) (str ''11222333000181'') =
     Inl \<lparr>kind = timeout, detail = str ''timeout''\<rparr> \<and>
   docStatus (process (amostraEnv False) (str ''doc-a'') amostraReference) = invalid \<and>
   registryRecord (process (amostraEnv False) (str ''doc-a'') amostraReference) = None \<and>
   taxIdInReference (validationFlags (process (amostraEnv False) (str ''doc-a'') amostraReference)) \<and>
   docStatus (process (amostraEnv True) (str ''doc-a'') amostraReference) = valid"
proof -
  have 1: "extractFields (amostraEnv False) (str ''doc-a'') = Inr amostraFields"
    by (simp add: amostraEnv_def str_def)
  have 2: "taxId amostraFields = Some (str ''11222333000181'')"
    by (simp add: amostraFields_def)
  have 3: "lookup (amostraEnv False) (str ''11222333000181'') =
     Inl \<lparr>kind = timeout, detail = str ''timeout''\<rparr>"
    by (simp add: amostraEnv_def)
  have 4: "taxIdInReference (evaluate (amostraEnv False) amostraFields amostraReference None)"
    by (simp add: evaluate_def present_in_def amostraEnv_def amostraFields_def amostraReference_def
        trim_def str_def isWhiteSpace_def)
  have 5: "extractFields (amostraEnv True) (str ''doc-a'') = Inr amostraFields"
    by (simp add: amostraEnv_def str_def)
  have 6: "docStatus (process (amostraEnv True) (str ''doc-a'') amostraReference) = valid"
    unfolding process_extracted [OF 5]
    by (simp add: evaluate_def allFlags_def present_in_def dateValid_def day_def amostraEnv_def
        amostraFields_def amostraReference_def amostraRegistry_def trim_def str_def isWhiteSpace_def)
  show ?thesis
    using 1 3 4 6 process_registry_failure [OF 1 2 3, of amostraReference None 1]
    by simp
qed

section \<open>The date of a document\<close>

text \<open>
  Claim C7. For every document whose extraction gives a date \<open>d\<close>, the flag
  \<open>documentDateValid\<close> of its result holds exactly when the processing time
  is at most 30 days after \<open>d\<close> and \<open>d\<close> is not after the processing time:
  it holds for a date exactly 30 days before, and fails for a date 31 days
  before and for every date in the future.
\<close>

theorem process_documentDateValid:
  assumes "extractFields env loc = Inr f"
    and "documentDate f = Some d"
  shows
    "(documentDateValid (validationFlags (process env loc reference)) \<longleftrightarrow>
        now env - d \<le> 30 * day \<and> d \<le> now env) \<and>
     (d = now env - 30 * day \<longrightarrow> documentDateValid (validationFlags (process env loc reference))) \<and>
     (d = now env - 31 * day \<longrightarrow> \<not> documentDateValid (validationFlags (process env loc reference))) \<and>
     (now env < d \<longrightarrow> \<not> documentDateValid (validationFlags (process env loc reference)))"
proof -
  have "documentDateValid (validationFlags (process env loc reference)) \<longleftrightarrow>
        now env - d \<le> 30 * day \<and> d \<le> now env"
    using assms by (auto simp: process_extracted evaluate_def dateValid_def)
  then show ?thesis by (auto simp: day_def)
qed

text \<open>
  The claim on the sample document, dated day 970: valid when processed on day
  1000, invalid when processed on day 1001 and on day 969.
\<close>

theorem process_documentDateValid_witness:
  "documentDate amostraFields = Some (now (amostraEnv True) - 30 * day) \<and>
   documentDateValid (validationFlags (process (amostraEnv True) (str ''doc-a'') amostraReference)) \<and>
   \<not> documentDateValid (validationFlags
        (process ((amostraEnv True)\<lparr>now := 1001 * day\<rparr>) (str ''doc-a'') amostraReference)) \<and>
   \<not> documentDateValid (validationFlags
        (process ((amostraEnv True)\<lparr>now := 969 * day\<rparr>) (str ''doc-a'') amostraReference))"
proof -
  have 1: "extractFields (amostraEnv True) (str ''doc-a'') = Inr amostraFields"
    by (simp add: amostraEnv_def str_def)
  have 2: "documentDate amostraFields = Some (970 * day)"
    by (simp add: amostraFields_def)
  have 3: "extractFields ((amostraEnv True)\<lparr>now := 1001 * day\<rparr>) (str ''doc-a'') = Inr amostraFields"
    by (simp add: amostraEnv_def str_def)
  have 4: "extractFields ((amostraEnv True)\<lparr>now := 969 * day\<rparr>) (str ''doc-a'') = Inr amostraFields"
    by (simp add: amostraEnv_def str_def)
  have n: "now (amostraEnv True) = 1000 * day" by (simp add: amostraEnv_def)
  show ?thesis
    using process_documentDateValid [OF 1 2, of amostraReference]
      process_documentDateValid [OF 3 2, of amostraReference]
      process_documentDateValid [OF 4 2, of amostraReference] 2 n
    by (simp add: day_def)
qed

section \<open>The exported report\<close>

text \<open>
  Claim C5, as stated, on the report of one result: the fields of the exported
  object are named \<^verbatim>\<open>timestamp\<close>, \<^verbatim>\<open>total_documentos\<close>, \<^verbatim>\<open>validos\<close>,
  \<^verbatim>\<open>invalidos\<close>, \<^verbatim>\<open>erros\<close> and \<^verbatim>\<open>resultados\<close>, which are not the names of
  the specification's section 3. And on the report of a result that holds an
  infinite number and the negative zero: the text has \<^verbatim>\<open>null\<close> and \<^verbatim>\<open>0\<close>
  in their places, so parsing the text gives an object that differs from the
  exported one.
\<close>

theorem relatorio_field_names_counterexample:
  "map fst (relatorio amostraInstante [JObj (amostraResultado ''doc-a'' ''valido'')]) =
     [str ''timestamp'', str ''total_documentos'', str ''validos'', str ''invalidos'',
      str ''erros'', str ''resultados''] \<and>
   map fst (relatorio amostraInstante [JObj (amostraResultado ''doc-a'' ''valido'')]) \<noteq>
     fieldNames_spec \<and>
   JSON_parse (JSON_stringify (JObj (relatorio amostraInstante amostraInfinito))) =
     Some (JObj (relatorio amostraInstante
       [JObj [(str ''status'', JStr (str ''valido'')), (str ''limite'', JNull),
              (str ''saldo'', JNum (str ''0''))]])) \<and>
   JSON_parse (JSON_stringify (JObj (relatorio amostraInstante amostraInfinito))) \<noteq>
     Some (JObj (relatorio amostraInstante amostraInfinito))"
proof -
  let ?vs = "[JObj [(str ''status'', JStr (str ''valido'')), (str ''limite'', JNull),
                    (str ''saldo'', JNum (str ''0''))]]"
  have z: "validNumber (str ''0'')"
    by (simp add: validNumber_def validInt_def validFrac_def validExp_def isDigit_def str_def)
  have n: "map fst (relatorio amostraInstante [JObj (amostraResultado ''doc-a'' ''valido'')]) =
     [str ''timestamp'', str ''total_documentos'', str ''validos'', str ''invalidos'',
      str ''erros'', str ''resultados''] \<and>
   map fst (relatorio amostraInstante [JObj (amostraResultado ''doc-a'' ''valido'')]) \<noteq>
     fieldNames_spec"
    by (simp add: relatorio_def fieldNames_spec_def str_def)
  have c: "contar k (map propriedades amostraInfinito) = contar k (map propriedades ?vs)" for k
    by (simp add: amostraInfinito_def contar_def hasStatus_def getProp_def str_def)
  have "JSON_stringify (JObj (relatorio amostraInstante amostraInfinito)) =
        JSON_stringify (JObj (relatorio amostraInstante ?vs))"
    unfolding relatorio_def c by (simp add: amostraInfinito_def JSON_stringify_def)
  moreover have "JSON_parse (JSON_stringify (JObj (relatorio amostraInstante ?vs))) =
        Some (JObj (relatorio amostraInstante ?vs))"
    by (rule JSON_roundtrip, rule numerosExatos_relatorio) (simp add: z)
  ultimately have p: "JSON_parse (JSON_stringify (JObj (relatorio amostraInstante amostraInfinito))) =
        Some (JObj (relatorio amostraInstante ?vs))"
    by simp
  have "relatorio amostraInstante ?vs \<noteq> relatorio amostraInstante amostraInfinito"
    by (simp add: relatorio_def amostraInfinito_def)
  then have q: "JSON_parse (JSON_stringify (JObj (relatorio amostraInstante amostraInfinito))) \<noteq>
        Some (JObj (relatorio amostraInstante amostraInfinito))"
    unfolding p by simp
  show ?thesis using n p q by blast
qed

text \<open>
  Claim C5, amended. \<^verbatim>\<open>downloadRelatorio\<close> builds a report exactly when the
  stored results are a non-empty array without a null entry, and the exported
  text is then the JSON text of an object with the fields \<^verbatim>\<open>timestamp\<close>,
  \<^verbatim>\<open>total_documentos\<close>, \<^verbatim>\<open>validos\<close>, \<^verbatim>\<open>invalidos\<close>, \<^verbatim>\<open>erros\<close> and
  \<^verbatim>\<open>resultados\<close>, in this order, the last one holding the stored results as
  they are; the text is determined by the stored results and the instant of
  the export; and, for every such report whose numbers are all finite and
  none of them the negative zero, parsing the text gives back an equal
  object, field for field.
\<close>

theorem relatorio_serialization:
  "(elementosExatos vs \<longrightarrow>
      JSON_parse (JSON_stringify (JObj (relatorio agora vs))) = Some (JObj (relatorio agora vs))) \<and>
   map fst (relatorio agora vs) =
     [str ''timestamp'', str ''total_documentos'', str ''validos'', str ''invalidos'',
      str ''erros'', str ''resultados''] \<and>
   getProp (relatorio agora vs) ''timestamp'' = Some (JStr agora) \<and>
   getProp (relatorio agora vs) ''resultados'' = Some (JArr vs) \<and>
   ((\<not> semResultados (resultados s) \<and> erroFiltrar (resultados s) = None) =
    (resultados s = Some (JArr (itens (resultados s))) \<and>
     itens (resultados s) \<noteq> [] \<and> JNull \<notin> set (itens (resultados s)))) \<and>
   (\<not> semResultados (resultados s) \<and> erroFiltrar (resultados s) = None \<longrightarrow>
      snd (downloadRelatorio agora depois s) =
        [Download (str ''relatorio-validacao-'' @ hd (split_on (\<lambda>c. c = 0x54) depois) @ str ''.json'')
           (JSON_stringify (JObj (relatorio agora (itens (resultados s)))))]) \<and>
   (semResultados (resultados s) \<longrightarrow>
      snd (downloadRelatorio agora depois s) = [Alert (str ''Nenhum resultado para download'')]) \<and>
   (\<not> semResultados (resultados s) \<and> erroFiltrar (resultados s) \<noteq> None \<longrightarrow>
      snd (downloadRelatorio agora depois s) = [Uncaught (the (erroFiltrar (resultados s)))])"
proof -
  have r: "elementosExatos vs \<longrightarrow>
      JSON_parse (JSON_stringify (JObj (relatorio agora vs))) = Some (JObj (relatorio agora vs))"
    using JSON_roundtrip [OF numerosExatos_relatorio] by blast
  have f: "map fst (relatorio agora vs) =
     [str ''timestamp'', str ''total_documentos'', str ''validos'', str ''invalidos'',
      str ''erros'', str ''resultados''] \<and>
   getProp (relatorio agora vs) ''timestamp'' = Some (JStr agora) \<and>
   getProp (relatorio agora vs) ''resultados'' = Some (JArr vs)"
    by (simp add: relatorio_def getProp_def str_def)
  have q: "(\<not> semResultados (resultados s) \<and> erroFiltrar (resultados s) = None) =
    (resultados s = Some (JArr (itens (resultados s))) \<and>
     itens (resultados s) \<noteq> [] \<and> JNull \<notin> set (itens (resultados s)))"
  proof (cases "resultados s")
    case None
    then show ?thesis by (simp add: semResultados_def)
  next
    case (Some v)
    then show ?thesis by (cases v) (auto simp: erroFiltrar_def semResultados_def)
  qed
  have d: "\<not> semResultados (resultados s) \<and> erroFiltrar (resultados s) = None \<longrightarrow>
      snd (downloadRelatorio agora depois s) =
        [Download (str ''relatorio-validacao-'' @ hd (split_on (\<lambda>c. c = 0x54) depois) @ str ''.json'')
           (JSON_stringify (JObj (relatorio agora (itens (resultados s)))))]"
    by (simp add: downloadRelatorio_def)
  have a: "semResultados (resultados s) \<longrightarrow>
      snd (downloadRelatorio agora depois s) = [Alert (str ''Nenhum resultado para download'')]"
    by (simp add: downloadRelatorio_def)
  have u: "\<not> semResultados (resultados s) \<and> erroFiltrar (resultados s) \<noteq> None \<longrightarrow>
      snd (downloadRelatorio agora depois s) = [Uncaught (the (erroFiltrar (resultados s)))]"
    by (auto simp: downloadRelatorio_def)
  show ?thesis using r f q d a u by blast
qed

text \<open>
  The amended claim on a page with one stored result that holds a fraction and
  a large number, exported on 1 May 2024, and the text of a small object as
  \<^verbatim>\<open>JSON.stringify\<close> lays it out.
\<close>

theorem relatorio_serialization_witness:
  "elementosExatos amostraMedidas \<and>
   JSON_parse (JSON_stringify (JObj (relatorio amostraInstante amostraMedidas))) =
     Some (JObj (relatorio amostraInstante amostraMedidas)) \<and>
   \<not> semResultados (resultados paginaComMedidas) \<and>
   erroFiltrar (resultados paginaComMedidas) = None \<and>
   snd (downloadRelatorio amostraInstante amostraInstante paginaComMedidas) =
     [Download (str ''relatorio-validacao-2024-05-01.json'')
        (JSON_stringify (JObj (relatorio amostraInstante amostraMedidas)))] \<and>
   JSON_stringify amostraJson =
     str ''{'' @ [0x0A] @
     str ''  '' @ [0x22] @ str ''erros'' @ [0x22] @ str '': 0,'' @ [0x0A] @
     str ''  '' @ [0x22] @ str ''resultados'' @ [0x22] @ str '': ['' @ [0x0A] @
     str ''    '' @ [0x22] @ str ''a'' @ [0x22] @ [0x0A] @
     str ''  ]'' @ [0x0A] @ str ''}''"
proof -
  have v: "validNumber (str ''0.5'')" "validNumber (str ''1e+21'')"
    by (simp_all add: validNumber_def validInt_def validFrac_def validExp_def isDigit_def str_def)
  have e: "elementosExatos amostraMedidas"
    using v by (simp add: amostraMedidas_def)
  have i: "itens (resultados paginaComMedidas) = amostraMedidas"
    by (simp add: paginaComMedidas_def)
  have g: "\<not> semResultados (resultados paginaComMedidas)"
    by (simp add: paginaComMedidas_def semResultados_def amostraMedidas_def)
  have f: "erroFiltrar (resultados paginaComMedidas) = None"
    by (simp add: paginaComMedidas_def erroFiltrar_def amostraMedidas_def)
  have n: "hd (split_on (\<lambda>c. c = 0x54) amostraInstante) = str ''2024-05-01''"
    by (simp add: amostraInstante_def str_def)
  have t: "JSON_stringify amostraJson =
     str ''{'' @ [0x0A] @
     str ''  '' @ [0x22] @ str ''erros'' @ [0x22] @ str '': 0,'' @ [0x0A] @
     str ''  '' @ [0x22] @ str ''resultados'' @ [0x22] @ str '': ['' @ [0x0A] @
     str ''    '' @ [0x22] @ str ''a'' @ [0x22] @ [0x0A] @
     str ''  ]'' @ [0x0A] @ str ''}''"
  proof -
    have i: "indent 0 = []" "indent (Suc 0) = [0x20, 0x20]"
      "indent (Suc (Suc 0)) = [0x20, 0x20, 0x20, 0x20]"
      by (simp_all add: indent_def eval_nat_numeral)
    show ?thesis
      by (simp add: amostraJson_def JSON_stringify_def QuoteJSONString_def quoteUnit_def
          i isLeadingSurrogate_def isTrailingSurrogate_def str_def)
  qed
  show ?thesis
    using e i g f n t
      relatorio_serialization [of amostraMedidas amostraInstante paginaComMedidas amostraInstante]
    by (simp add: str_def)
qed
end
